theory Spec2Isabelle
  imports Complex_Main "HOL-Library.Char_ord" "HOL-Library.List_Lexorder"
begin

section \<open>Strings, objects and JSON values\<close>

text \<open>
  A JavaScript string is modelled as a \<open>string\<close>. \<open>split_str sep s\<close> is
  \<^verbatim>\<open>s.split(sep)\<close> for a one-character separator: it always returns at least one
  segment, and \<open>join sep xs\<close> is \<^verbatim>\<open>xs.join(sep)\<close>.
\<close>

fun split_str :: "char \<Rightarrow> string \<Rightarrow> string list" where
  "split_str sep [] = [[]]"
| "split_str sep (c # cs) =
     (if c = sep then [] # split_str sep cs
      else (case split_str sep cs of
              [] \<Rightarrow> [[c]]
            | p # ps \<Rightarrow> (c # p) # ps))"

fun join :: "string \<Rightarrow> string list \<Rightarrow> string" where
  "join sep [] = []"
| "join sep [x] = x"
| "join sep (x # y # ys) = x @ sep @ join sep (y # ys)"

definition isDigit :: "char \<Rightarrow> bool" where
  "isDigit c = (c \<in> set ''0123456789'')"

definition digitVal :: "char \<Rightarrow> nat" where
  "digitVal c = of_char c - 48"

text \<open>\<^verbatim>\<open>parseInt(ds, 10)\<close> on a string of decimal digits.\<close>

definition parseInt :: "string \<Rightarrow> nat" where
  "parseInt ds = fold (\<lambda>c n. 10 * n + digitVal c) ds 0"

definition digitChar :: "nat \<Rightarrow> char" where
  "digitChar n = ''0123456789'' ! n"

text \<open>The decimal rendering of a natural number, as a template string prints it.\<close>

fun show_nat :: "nat \<Rightarrow> string" where
  "show_nat n = (if n < 10 then [digitChar n] else show_nat (n div 10) @ [digitChar (n mod 10)])"

declare show_nat.simps [simp del]

text \<open>
  A plain object is the list of its own enumerable properties in the order
  \<^verbatim>\<open>Object.keys\<close> gives them (keys that look like array indices, which the
  language enumerates first, are not reordered). \<open>obj_set\<close> is the assignment
  \<^verbatim>\<open>o[k] = v\<close>: an existing key keeps its place, a new key goes last. That is the
  assignment for every key but \<^verbatim>\<open>__proto__\<close>, under which it replaces the prototype
  of the object and adds no property; the keys assigned are taken to differ from it.
\<close>

fun obj_set :: "'k \<Rightarrow> 'v \<Rightarrow> ('k \<times> 'v) list \<Rightarrow> ('k \<times> 'v) list" where
  "obj_set k v [] = [(k, v)]"
| "obj_set k v ((k', v') # kvs) =
     (if k = k' then (k, v) # kvs else (k', v') # obj_set k v kvs)"

text \<open>
  A property read \<^verbatim>\<open>o[k]\<close> on an object made by a literal or by \<^verbatim>\<open>JSON.parse\<close>
  finds the own property \<open>k\<close>; failing that, what \<^verbatim>\<open>Object.prototype\<close> holds under
  \<open>k\<close>; failing that, \<^verbatim>\<open>undefined\<close>. The prototype is the one the language defines,
  with no property added to it: its string-keyed properties are the names below. Each
  is a function, except \<^verbatim>\<open>__proto__\<close>, whose read gives the prototype object itself.
  An inherited value is therefore never \<^verbatim>\<open>undefined\<close>, \<^verbatim>\<open>null\<close>, falsy or a string.
\<close>

definition objectPrototypeNames :: "string list" where
  "objectPrototypeNames =
     [''constructor'', ''__defineGetter__'', ''__defineSetter__'', ''hasOwnProperty'',
      ''__lookupGetter__'', ''__lookupSetter__'', ''isPrototypeOf'', ''propertyIsEnumerable'',
      ''toString'', ''valueOf'', ''__proto__'', ''toLocaleString'']"

datatype 'v lookup = Own 'v | Inherited | Missing

definition getProp :: "(string \<times> 'v) list \<Rightarrow> string \<Rightarrow> 'v lookup" where
  "getProp obj k =
     (case map_of obj k of
        Some v \<Rightarrow> Own v
      | None \<Rightarrow> if k \<in> set objectPrototypeNames then Inherited else Missing)"

text \<open>
  The values \<^verbatim>\<open>JSON.parse\<close> produces. Numbers are restricted to integers (the
  payloads carry counts).
\<close>

datatype json =
    JNull
  | JBool bool
  | JNum int
  | JStr string
  | JArr "json list"
  | JObj "(string \<times> json) list"

text \<open>JavaScript truthiness of a JSON value.\<close>

fun truthy :: "json \<Rightarrow> bool" where
  "truthy JNull = False"
| "truthy (JBool b) = b"
| "truthy (JNum n) = (n \<noteq> 0)"
| "truthy (JStr s) = (s \<noteq> [])"
| "truthy (JArr xs) = True"
| "truthy (JObj kvs) = True"

text \<open>\<^verbatim>\<open>typeof v === "object" && v !== null\<close>: arrays and objects.\<close>

fun isObject :: "json \<Rightarrow> bool" where
  "isObject (JArr xs) = True"
| "isObject (JObj kvs) = True"
| "isObject v = False"

text \<open>\<^verbatim>\<open>Object.entries(v)\<close> for a value that passed \<open>isObject\<close>: an array
  enumerates its indices.\<close>

fun entries :: "json \<Rightarrow> (string \<times> json) list" where
  "entries (JObj kvs) = kvs"
| "entries (JArr xs) = zip (map show_nat [0..<length xs]) xs"
| "entries v = []"

text \<open>
  A read \<^verbatim>\<open>v.name\<close> of one of the payload's field names on a value that is not
  null: \<open>None\<close> is \<^verbatim>\<open>undefined\<close>.
\<close>

fun jget :: "json \<Rightarrow> string \<Rightarrow> json option" where
  "jget (JObj kvs) k = map_of kvs k"
| "jget v k = None"

section \<open>Duration tokens\<close>

text \<open>
  The match of \<^verbatim>\<open>/^P(\d+)([YMWD])$/\<close>: the two groups, or \<open>None\<close>. The digits
  are taken greedily; no unit letter is a digit, so no shorter run can match.
\<close>

definition matchDuration :: "string \<Rightarrow> (string \<times> char) option" where
  "matchDuration s =
     (case s of
        [] \<Rightarrow> None
      | c # rest \<Rightarrow>
          if c \<noteq> CHR ''P'' then None
          else (let ds = takeWhile isDigit rest; r = dropWhile isDigit rest
                in (case r of
                      [u] \<Rightarrow> if ds \<noteq> [] \<and> u \<in> set ''YMWD'' then Some (ds, u) else None
                    | _ \<Rightarrow> None)))"

section \<open>The platform: clock, time zone, date parsing, built-in objects, file system\<close>

text \<open>
  What the code takes from its runtime is a parameter of the model:
  \<^item> the current time (milliseconds since the epoch, one reading per call);
  \<^item> the local time zone, as the function \<^verbatim>\<open>LocalTZA(t, isUTC)\<close> of the language
    standard: the offset of local time from UTC in milliseconds, at the instant \<open>t\<close>
    when \<open>isUTC\<close> holds and at the local time \<open>t\<close> otherwise (the two differ around a
    daylight-saving change);
  \<^item> \<^verbatim>\<open>Date.parse\<close> (its result on strings outside the ISO format is
    implementation-defined; \<open>None\<close> is \<^verbatim>\<open>NaN\<close>);
  \<^item> the built-in objects behind an inherited property: \<open>builtinReadThrows ks\<close> tells
    whether the chain of reads \<^verbatim>\<open>o[k1]?.[k2]\<close> or \<^verbatim>\<open>o[k1]?.[k2]?.[k3]\<close> under the
    names \<open>ks\<close> throws, for a plain object \<open>o\<close> that has no own property \<open>k1\<close> but
    inherits one. Such a chain walks functions and prototype objects of the runtime. It throws a \<^verbatim>\<open>TypeError\<close> when it reads
    \<^verbatim>\<open>caller\<close> or \<^verbatim>\<open>arguments\<close> on a function (every function object inherits
    accessors of these names that throw); otherwise it ends at \<^verbatim>\<open>undefined\<close>,
    \<^verbatim>\<open>null\<close> or a built-in value, none of which has a property \<^verbatim>\<open>window\<close>;
  \<^item> the order \<^verbatim>\<open>localeCompare\<close> induces, and whether a write to the cache
    directory succeeds.
\<close>

record Platform =
  now :: int
  localTZA :: "int \<Rightarrow> bool \<Rightarrow> int"
  dateParse :: "string \<Rightarrow> int option"
  builtinReadThrows :: "string list \<Rightarrow> bool"
  localeLe :: "string \<Rightarrow> string \<Rightarrow> bool"
  fsWritable :: bool

datatype jserror = TypeError | RangeError | IOError

section \<open>Plan limits (plan-limits.ts)\<close>

type_synonym DurationLimit = string

datatype UserPlan = Basic | Advanced | Professional | Premium | Custom | Unknown

record MetricLimits =
  window :: "(string \<times> DurationLimit) list"

type_synonym PlanLimits = "(string \<times> (string \<times> (string \<times> MetricLimits) list) list) list"

record ApiRateLimit =
  token :: int
  rl_window :: string

text \<open>
  \<open>statics\<close> is declared \<^verbatim>\<open>string[]\<close> but filled by an unchecked cast of a JSON
  array, so its elements are kept as JSON values.
\<close>

record PlanLimitsState =
  loaded :: bool
  limits :: "PlanLimits option"
  plan :: UserPlan
  statics :: "json list"
  apiRateLimit :: "ApiRateLimit option"
  fetched_at :: "int option"

definition DEFAULT_STATE :: PlanLimitsState where
  "DEFAULT_STATE =
     \<lparr>loaded = False, limits = None, plan = Unknown, statics = [],
      apiRateLimit = None, fetched_at = None\<rparr>"

definition lowerChar :: "char \<Rightarrow> char" where
  "lowerChar c =
     (if of_char c \<ge> (65::nat) \<and> of_char c \<le> (90::nat) then char_of (of_char c + (32::nat)) else c)"

text \<open>\<^verbatim>\<open>toLowerCase\<close> on the ASCII letters (the only ones that can reach a plan name).\<close>

definition toLowerCase :: "string \<Rightarrow> string" where
  "toLowerCase s = map lowerChar s"

definition normalizePlanName :: "string \<Rightarrow> UserPlan" where
  "normalizePlanName apiPlanName =
     (let normalized = toLowerCase apiPlanName
      in if normalized = ''basic'' then Basic
         else if normalized = ''advanced'' then Advanced
         else if normalized = ''professional'' then Professional
         else if normalized = ''premium'' then Premium
         else if normalized = ''custom'' then Custom
         else Unknown)"

record ParsedApiResponse =
  pr_limits :: "PlanLimits option"
  pr_statics :: "json list"
  pr_apiRateLimit :: "ApiRateLimit option"
  pr_planName :: "string option"

text \<open>
  The tables are built by assignments \<^verbatim>\<open>limits[asset] = {}\<close>,
  \<^verbatim>\<open>limits[asset][category] = {}\<close> and so on, one per key of the payload, which is
  taken to have no key \<^verbatim>\<open>__proto__\<close>: a permission table is a plain object whose
  prototype is \<^verbatim>\<open>Object.prototype\<close>.
\<close>

definition parseWindows :: "json \<Rightarrow> (string \<times> DurationLimit) list" where
  "parseWindows md =
     fold (\<lambda>(key, v) windowLimits.
             (case v of
                JStr s \<Rightarrow> if matchDuration s \<noteq> None then obj_set key s windowLimits else windowLimits
              | _ \<Rightarrow> windowLimits))
          (entries md) []"

definition parseMetrics :: "json \<Rightarrow> (string \<times> MetricLimits) list" where
  "parseMetrics metrics =
     fold (\<lambda>(metric, metricData) acc.
             if \<not> isObject metricData then acc
             else (let windowLimits = parseWindows metricData
                   in if windowLimits \<noteq> [] then obj_set metric \<lparr>window = windowLimits\<rparr> acc
                      else acc))
          (entries metrics) []"

definition parseCategories :: "json \<Rightarrow> (string \<times> (string \<times> MetricLimits) list) list" where
  "parseCategories categories =
     fold (\<lambda>(category, metrics) acc.
             if \<not> isObject metrics then acc
             else obj_set category (parseMetrics metrics) acc)
          (entries categories) []"

definition parseAssets :: "json \<Rightarrow> PlanLimits" where
  "parseAssets apiEndpoint =
     fold (\<lambda>(asset, categories) acc.
             if asset = ''statics'' \<or> \<not> isObject categories then acc
             else obj_set asset (parseCategories categories) acc)
          (entries apiEndpoint) []"

definition parseApiResponse :: "json \<Rightarrow> ParsedApiResponse" where
  "parseApiResponse data =
     (if \<not> isObject data then
        \<lparr>pr_limits = None, pr_statics = [], pr_apiRateLimit = None, pr_planName = None\<rparr>
      else
        \<lparr>pr_limits =
           (case jget data ''apiEndpoint'' of
              None \<Rightarrow> None
            | Some apiEndpoint \<Rightarrow>
                if isObject apiEndpoint then
                  (let ls = parseAssets apiEndpoint in if length ls > 0 then Some ls else None)
                else None),
         pr_statics =
           (case jget data ''apiEndpoint'' of
              None \<Rightarrow> []
            | Some apiEndpoint \<Rightarrow>
                if isObject apiEndpoint then
                  (case jget apiEndpoint ''statics'' of Some (JArr xs) \<Rightarrow> xs | _ \<Rightarrow> [])
                else []),
         pr_apiRateLimit =
           (case jget data ''apiRateLimit'' of
              None \<Rightarrow> None
            | Some rl \<Rightarrow>
                if isObject rl then
                  (case (jget rl ''token'', jget rl ''window'') of
                     (Some (JNum t), Some (JStr w)) \<Rightarrow> Some \<lparr>token = t, rl_window = w\<rparr>
                   | _ \<Rightarrow> None)
                else None),
         pr_planName =
           (case jget data ''plan'' of
              None \<Rightarrow> None
            | Some p \<Rightarrow>
                if isObject p then (case jget p ''name'' of Some (JStr n) \<Rightarrow> Some n | _ \<Rightarrow> None)
                else None)\<rparr>)"

record DurationCounts =
  p0d :: nat
  p3y :: nat
  p1d :: nat
  total :: nat

definition countDuration :: "DurationLimit \<Rightarrow> DurationCounts \<Rightarrow> DurationCounts" where
  "countDuration duration counts =
     (let c = counts\<lparr>total := total counts + 1\<rparr>
      in if duration = ''P0D'' then c\<lparr>p0d := p0d c + 1\<rparr>
         else if duration = ''P3Y'' then c\<lparr>p3y := p3y c + 1\<rparr>
         else if duration = ''P1D'' then c\<lparr>p1d := p1d c + 1\<rparr>
         else c)"

definition collectDurationCounts :: "PlanLimits \<Rightarrow> DurationCounts" where
  "collectDurationCounts ls =
     fold (\<lambda>(asset, categories).
        fold (\<lambda>(category, metrics).
          fold (\<lambda>(metric, metricLimits).
            fold (\<lambda>(windowType, duration). countDuration duration) (window metricLimits))
          metrics)
        categories)
     ls \<lparr>p0d = 0, p3y = 0, p1d = 0, total = 0\<rparr>"

text \<open>
  The ratios are quotients of two counters compared with 0.5 and 0.3. They are
  modelled as exact reals: for totals below \<open>10\<^sup>1\<^sup>5\<close> the double-precision
  quotient is on the same side of the double constant as the exact quotient is of the
  decimal one.
\<close>

definition detectPlanFromLimits :: "PlanLimits option \<Rightarrow> UserPlan" where
  "detectPlanFromLimits lims =
     (case lims of
        None \<Rightarrow> Basic
      | Some ls \<Rightarrow>
          (let counts = collectDurationCounts ls
           in if total counts = 0 then Basic
              else (let p1dRatio = real (p1d counts) / real (total counts);
                        p0dRatio = real (p0d counts) / real (total counts);
                        p3yRatio = real (p3y counts) / real (total counts)
                    in if p1dRatio > 0.5 then Basic
                       else if p0dRatio > 0.5 then Premium
                       else if p3yRatio > 0.3 then Professional
                       else Advanced)))"

record ParsedEndpointPath =
  pp_asset :: string
  pp_category :: string
  pp_metric :: string

definition parseEndpointPath :: "string \<Rightarrow> ParsedEndpointPath option" where
  "parseEndpointPath endpointPath =
     (let parts = split_str CHR ''/'' endpointPath
      in if length parts < 5 then None
         else Some \<lparr>pp_asset = parts ! 2, pp_category = parts ! 3,
                     pp_metric = join ''/'' (drop 4 parts)\<rparr>)"

text \<open>
  \<open>getMetricLimits\<close> reads \<^verbatim>\<open>limits[asset]?.[category]?.[metric] ?? null\<close> on plain
  objects. A segment that is an own key leads to the next table. A segment that is
  not an own key but is inherited leads out of the table into the built-in objects,
  where the remaining reads either throw or end at a value without a \<^verbatim>\<open>window\<close>
  property. The callers read nothing but \<^verbatim>\<open>?.window\<close> from the result, so \<open>None\<close>
  stands for \<^verbatim>\<open>null\<close> and for such a value alike.
\<close>

definition builtinWalk :: "Platform \<Rightarrow> string list \<Rightarrow> jserror + MetricLimits option" where
  "builtinWalk env ks = (if builtinReadThrows env ks then Inl TypeError else Inr None)"

definition getMetricLimits :: "Platform \<Rightarrow> PlanLimitsState \<Rightarrow> string \<Rightarrow> jserror + MetricLimits option" where
  "getMetricLimits env st endpointPath =
     (case limits st of
        None \<Rightarrow> Inr None
      | Some ls \<Rightarrow>
          (case parseEndpointPath endpointPath of
             None \<Rightarrow> Inr None
           | Some parsed \<Rightarrow>
               (case getProp ls (pp_asset parsed) of
                  Missing \<Rightarrow> Inr None
                | Inherited \<Rightarrow>
                    builtinWalk env [pp_asset parsed, pp_category parsed, pp_metric parsed]
                | Own categories \<Rightarrow>
                    (case getProp categories (pp_category parsed) of
                       Missing \<Rightarrow> Inr None
                     | Inherited \<Rightarrow> builtinWalk env [pp_category parsed, pp_metric parsed]
                     | Own metrics \<Rightarrow>
                         (case getProp metrics (pp_metric parsed) of
                            Own metricLimits \<Rightarrow> Inr (Some metricLimits)
                          | Inherited \<Rightarrow> Inr None
                          | Missing \<Rightarrow> Inr None)))))"

text \<open>
  \<open>getPlanLimit\<close>: the value under \<open>windowType\<close> when \<open>windowType\<close> and that value
  are both truthy, else the value of the first key of the window object. The named
  read \<^verbatim>\<open>metricLimits.window[windowType]\<close> may find an inherited value, which is
  truthy: the function returns it, although it is declared to return a duration or
  \<^verbatim>\<open>null\<close>.
\<close>

datatype LimitValue = Duration DurationLimit | BuiltIn

definition getPlanLimit ::
  "Platform \<Rightarrow> PlanLimitsState \<Rightarrow> string \<Rightarrow> string option \<Rightarrow> jserror + LimitValue option" where
  "getPlanLimit env st endpointPath windowType =
     (case getMetricLimits env st endpointPath of
        Inl e \<Rightarrow> Inl e
      | Inr None \<Rightarrow> Inr None
      | Inr (Some metricLimits) \<Rightarrow>
          (let first = (case window metricLimits of [] \<Rightarrow> None | (k, v) # ws \<Rightarrow> Some (Duration v))
           in (case windowType of
                 None \<Rightarrow> Inr first
               | Some wt \<Rightarrow>
                   if wt = [] then Inr first
                   else (case getProp (window metricLimits) wt of
                           Missing \<Rightarrow> Inr first
                         | Inherited \<Rightarrow> Inr (Some BuiltIn)
                         | Own v \<Rightarrow> if v \<noteq> [] then Inr (Some (Duration v)) else Inr first))))"

definition hasEndpointAccess :: "Platform \<Rightarrow> PlanLimitsState \<Rightarrow> string \<Rightarrow> jserror + bool" where
  "hasEndpointAccess env st endpointPath =
     (if \<not> loaded st \<or> plan st = Unknown then Inr True
      else if JStr endpointPath \<in> set (statics st) then Inr True
      else if plan st = Basic \<and> limits st = None then Inr False
      else (case getPlanLimit env st endpointPath None of
              Inl e \<Rightarrow> Inl e
            | Inr (Some v) \<Rightarrow> Inr True
            | Inr None \<Rightarrow>
                if plan st = Premium \<or> plan st = Professional \<or> plan st = Custom then Inr True
                else Inr False))"

section \<open>Dates (the ECMAScript time-value algorithms)\<close>

text \<open>A \<^verbatim>\<open>Date\<close> object holds a time value or \<^verbatim>\<open>NaN\<close> (an invalid date).\<close>

datatype Date = InvalidDate | DateOf int

definition msPerDay :: int where
  "msPerDay = 86400000"

definition Day :: "int \<Rightarrow> int" where
  "Day t = t div msPerDay"

definition TimeWithinDay :: "int \<Rightarrow> int" where
  "TimeWithinDay t = t mod msPerDay"

definition DayFromYear :: "int \<Rightarrow> int" where
  "DayFromYear y = 365 * (y - 1970) + (y - 1969) div 4 - (y - 1901) div 100 + (y - 1601) div 400"

definition InLeapYear :: "int \<Rightarrow> int" where
  "InLeapYear y = (if (y mod 4 = 0 \<and> y mod 100 \<noteq> 0) \<or> y mod 400 = 0 then 1 else 0)"

text \<open>The year of a day number: the largest \<open>y\<close> with \<open>DayFromYear y \<le> d\<close>, found
  from an estimate that is off by at most one.\<close>

definition YearFromDay :: "int \<Rightarrow> int" where
  "YearFromDay d =
     (let y = 1970 + (400 * d) div 146097
      in if DayFromYear y > d then y - 1
         else if DayFromYear (y + 1) \<le> d then y + 1
         else y)"

definition YearFromTime :: "int \<Rightarrow> int" where
  "YearFromTime t = YearFromDay (Day t)"

definition DayWithinYear :: "int \<Rightarrow> int" where
  "DayWithinYear t = Day t - DayFromYear (YearFromTime t)"

text \<open>The day within the year on which month \<open>m\<close> (0 to 11) starts; \<open>l\<close> is 1 in a
  leap year.\<close>

definition monthStart :: "int \<Rightarrow> int \<Rightarrow> int" where
  "monthStart m l =
     (if m = 0 then 0 else if m = 1 then 31 else if m = 2 then 59 + l
      else if m = 3 then 90 + l else if m = 4 then 120 + l else if m = 5 then 151 + l
      else if m = 6 then 181 + l else if m = 7 then 212 + l else if m = 8 then 243 + l
      else if m = 9 then 273 + l else if m = 10 then 304 + l else 334 + l)"

definition MonthFromTime :: "int \<Rightarrow> int" where
  "MonthFromTime t =
     (let d = DayWithinYear t; l = InLeapYear (YearFromTime t)
      in if d < 31 then 0 else if d < 59 + l then 1 else if d < 90 + l then 2
         else if d < 120 + l then 3 else if d < 151 + l then 4 else if d < 181 + l then 5
         else if d < 212 + l then 6 else if d < 243 + l then 7 else if d < 273 + l then 8
         else if d < 304 + l then 9 else if d < 334 + l then 10 else 11)"

definition DateFromTime :: "int \<Rightarrow> int" where
  "DateFromTime t =
     DayWithinYear t - monthStart (MonthFromTime t) (InLeapYear (YearFromTime t)) + 1"

definition MakeDay :: "int \<Rightarrow> int \<Rightarrow> int \<Rightarrow> int" where
  "MakeDay year month date =
     (let ym = year + month div 12; mn = month mod 12
      in DayFromYear ym + monthStart mn (InLeapYear ym) + date - 1)"

definition MakeDate :: "int \<Rightarrow> int \<Rightarrow> int" where
  "MakeDate day time = day * msPerDay + time"

definition TimeClip :: "int \<Rightarrow> Date" where
  "TimeClip t = (if \<bar>t\<bar> > 8640000000000000 then InvalidDate else DateOf t)"

definition LocalTime :: "Platform \<Rightarrow> int \<Rightarrow> int" where
  "LocalTime env t = t + localTZA env t True"

definition UTC :: "Platform \<Rightarrow> int \<Rightarrow> int" where
  "UTC env t = t - localTZA env t False"

text \<open>The getters and setters the code calls, on a valid date with time value \<open>tv\<close>.
  The arithmetic is exact: a result beyond the range of \<open>TimeClip\<close> is invalid
  whether or not the doubles of the implementation round it.\<close>

definition getFullYear :: "Platform \<Rightarrow> int \<Rightarrow> int" where
  "getFullYear env tv = YearFromTime (LocalTime env tv)"

definition getMonth :: "Platform \<Rightarrow> int \<Rightarrow> int" where
  "getMonth env tv = MonthFromTime (LocalTime env tv)"

definition getDate :: "Platform \<Rightarrow> int \<Rightarrow> int" where
  "getDate env tv = DateFromTime (LocalTime env tv)"

definition setFullYear :: "Platform \<Rightarrow> int \<Rightarrow> int \<Rightarrow> Date" where
  "setFullYear env tv y =
     (let t = LocalTime env tv
      in TimeClip (UTC env (MakeDate (MakeDay y (MonthFromTime t) (DateFromTime t)) (TimeWithinDay t))))"

definition setMonth :: "Platform \<Rightarrow> int \<Rightarrow> int \<Rightarrow> Date" where
  "setMonth env tv m =
     (let t = LocalTime env tv
      in TimeClip (UTC env (MakeDate (MakeDay (YearFromTime t) m (DateFromTime t)) (TimeWithinDay t))))"

definition setDate :: "Platform \<Rightarrow> int \<Rightarrow> int \<Rightarrow> Date" where
  "setDate env tv dt =
     (let t = LocalTime env tv
      in TimeClip (UTC env (MakeDate (MakeDay (YearFromTime t) (MonthFromTime t) dt) (TimeWithinDay t))))"

text \<open>\<^verbatim>\<open>new Date(s)\<close> for a string.\<close>

definition newDate :: "Platform \<Rightarrow> string \<Rightarrow> Date" where
  "newDate env s = (case dateParse env s of None \<Rightarrow> InvalidDate | Some t \<Rightarrow> TimeClip t)"

text \<open>\<^verbatim>\<open>a < b\<close> on two dates compares the time values; with \<^verbatim>\<open>NaN\<close> it is false.\<close>

fun dateLess :: "Date \<Rightarrow> Date \<Rightarrow> bool" where
  "dateLess (DateOf a) (DateOf b) = (a < b)"
| "dateLess a b = False"

definition pad :: "nat \<Rightarrow> nat \<Rightarrow> string" where
  "pad w n = replicate (w - length (show_nat n)) CHR ''0'' @ show_nat n"

definition isoDatePart :: "int \<Rightarrow> string" where
  "isoDatePart t =
     (let y = YearFromTime t
      in (if 0 \<le> y \<and> y \<le> 9999 then pad 4 (nat y)
          else (if y < 0 then ''-'' else ''+'') @ pad 6 (nat \<bar>y\<bar>))
         @ ''-'' @ pad 2 (nat (MonthFromTime t + 1)) @ ''-'' @ pad 2 (nat (DateFromTime t)))"

definition isoTimePart :: "int \<Rightarrow> string" where
  "isoTimePart t =
     (let ms = TimeWithinDay t
      in pad 2 (nat (ms div 3600000)) @ '':'' @ pad 2 (nat ((ms div 60000) mod 60)) @ '':''
         @ pad 2 (nat ((ms div 1000) mod 60)) @ ''.'' @ pad 3 (nat (ms mod 1000)))"

text \<open>\<^verbatim>\<open>toISOString\<close> throws a \<^verbatim>\<open>RangeError\<close> on an invalid date.\<close>

fun toISOString :: "Date \<Rightarrow> jserror + string" where
  "toISOString InvalidDate = Inl RangeError"
| "toISOString (DateOf t) = Inr (isoDatePart t @ ''T'' @ isoTimePart t @ ''Z'')"

text \<open>
  An instance of \<open>dateParse\<close> for concrete runs: the two ISO forms every engine
  parses alike, the date-only form \<^verbatim>\<open>YYYY-MM-DD\<close> (UTC midnight) and the form
  \<^verbatim>\<open>YYYY-MM-DDTHH:mm:ss.sssZ\<close> that \<open>toISOString\<close> prints; anything else is
  \<^verbatim>\<open>NaN\<close>.
\<close>

definition digitsAt :: "string \<Rightarrow> nat \<Rightarrow> nat \<Rightarrow> nat option" where
  "digitsAt s i n =
     (let ds = take n (drop i s)
      in if length ds = n \<and> (\<forall>c \<in> set ds. isDigit c) then Some (parseInt ds) else None)"

definition isoParseDate :: "string \<Rightarrow> int option" where
  "isoParseDate s =
     (case (digitsAt s 0 4, digitsAt s 5 2, digitsAt s 8 2) of
        (Some y, Some m, Some d) \<Rightarrow>
          if length s = 10 \<and> s ! 4 = CHR ''-'' \<and> s ! 7 = CHR ''-''
             \<and> 1 \<le> m \<and> m \<le> 12 \<and> 1 \<le> d \<and> d \<le> 31
          then Some (MakeDate (MakeDay (int y) (int m - 1) (int d)) 0)
          else None
      | _ \<Rightarrow> None)"

definition isoParseTime :: "string \<Rightarrow> int option" where
  "isoParseTime s =
     (case (digitsAt s 0 2, digitsAt s 3 2, digitsAt s 6 2, digitsAt s 9 3) of
        (Some h, Some mi, Some sec, Some ms) \<Rightarrow>
          if length s = 13 \<and> s ! 2 = CHR '':'' \<and> s ! 5 = CHR '':'' \<and> s ! 8 = CHR ''.''
             \<and> s ! 12 = CHR ''Z'' \<and> h \<le> 23 \<and> mi \<le> 59 \<and> sec \<le> 59
          then Some (int h * 3600000 + int mi * 60000 + int sec * 1000 + int ms)
          else None
      | _ \<Rightarrow> None)"

definition isoParse :: "string \<Rightarrow> int option" where
  "isoParse s =
     (if length s = 10 then isoParseDate s
      else if length s = 24 \<and> s ! 10 = CHR ''T'' then
        (case (isoParseDate (take 10 s), isoParseTime (drop 11 s)) of
           (Some d, Some t) \<Rightarrow> Some (d + t)
         | _ \<Rightarrow> None)
      else None)"

section \<open>Duration decoding and date-range validation (plan-limits.ts)\<close>

definition parseDurationToDate :: "Platform \<Rightarrow> DurationLimit \<Rightarrow> Date option" where
  "parseDurationToDate env duration =
     (if duration = ''P0D'' then None
      else (case matchDuration duration of
              None \<Rightarrow> None
            | Some (digits, u) \<Rightarrow>
                (let v = int (parseInt digits); date = now env
                 in if u = CHR ''Y'' then Some (setFullYear env date (getFullYear env date - v))
                    else if u = CHR ''M'' then Some (setMonth env date (getMonth env date - v))
                    else if u = CHR ''W'' then Some (setDate env date (getDate env date - v * 7))
                    else if u = CHR ''D'' then Some (setDate env date (getDate env date - v))
                    else None)))"

record DateRangeValidation =
  valid :: bool
  error :: "string option"
  earliest_allowed :: "string option"
  limit :: "DurationLimit option"

definition rangeOk :: DateRangeValidation where
  "rangeOk = \<lparr>valid = True, error = None, earliest_allowed = None, limit = None\<rparr>"

definition rangeError :: "string \<Rightarrow> DateRangeValidation" where
  "rangeError msg = \<lparr>valid = False, error = Some msg, earliest_allowed = None, limit = None\<rparr>"

text \<open>
  \<open>fromDate\<close> and \<open>windowType\<close> are \<open>None\<close> when \<^verbatim>\<open>undefined\<close>. The tests
  \<^verbatim>\<open>!fromDate\<close> and \<^verbatim>\<open>!limit\<close> also hold for the empty string. A limit that is
  an inherited value passes both tests on the limit and reaches
  \<open>parseDurationToDate\<close>, whose call \<^verbatim>\<open>duration.match(...)\<close> throws a
  \<^verbatim>\<open>TypeError\<close>: neither a function nor the prototype object has a property
  \<^verbatim>\<open>match\<close>.
\<close>

definition validateDateRange ::
  "Platform \<Rightarrow> PlanLimitsState \<Rightarrow> string \<Rightarrow> string option \<Rightarrow> string option
     \<Rightarrow> jserror + DateRangeValidation" where
  "validateDateRange env st endpointPath fromDate windowType =
     (if \<not> loaded st \<or> plan st = Unknown then Inr rangeOk
      else (case hasEndpointAccess env st endpointPath of
              Inl e \<Rightarrow> Inl e
            | Inr False \<Rightarrow> Inr (rangeError ''Endpoint not accessible on your plan'')
            | Inr True \<Rightarrow>
                (case fromDate of
                   None \<Rightarrow> Inr rangeOk
                 | Some fd \<Rightarrow>
                     if fd = [] then Inr rangeOk
                     else (case getPlanLimit env st endpointPath windowType of
                             Inl e \<Rightarrow> Inl e
                           | Inr None \<Rightarrow>
                               Inr (rangeError ''No access to this endpoint/window combination'')
                           | Inr (Some BuiltIn) \<Rightarrow> Inl TypeError
                           | Inr (Some (Duration lmt)) \<Rightarrow>
                               if lmt = [] then
                                 Inr (rangeError ''No access to this endpoint/window combination'')
                               else if lmt = ''P0D'' then Inr rangeOk
                               else (case parseDurationToDate env lmt of
                                       None \<Rightarrow> Inr rangeOk
                                     | Some earliestDate \<Rightarrow>
                                         (let requestedDate = newDate env fd
                                          in if requestedDate = InvalidDate then
                                               Inr (rangeError ''Invalid date format'')
                                             else if dateLess requestedDate earliestDate then
                                               (case toISOString earliestDate of
                                                  Inl e \<Rightarrow> Inl e
                                                | Inr isoStr \<Rightarrow>
                                                    Inr \<lparr>valid = False,
                                                         error = Some ''Date range exceeds plan limit'',
                                                         earliest_allowed =
                                                           Some (hd (split_str CHR ''T'' isoStr)),
                                                         limit = Some lmt\<rparr>)
                                             else Inr rangeOk))))))"

section \<open>Fetching the plan limits (plan-limits.ts)\<close>

text \<open>
  What \<^verbatim>\<open>fetch\<close> gives: it throws, or a response with a status, a status text and a
  body; the body is \<open>None\<close> when \<^verbatim>\<open>response.json()\<close> rejects.
\<close>

datatype 'b http_response = FetchThrows string | Response nat string "'b option"

definition response_ok :: "nat \<Rightarrow> bool" where
  "response_ok st = (200 \<le> st \<and> st \<le> 299)"

record ParsedFragment =
  pf_limits :: "PlanLimits option"
  pf_statics :: "json list"
  pf_apiRateLimit :: "ApiRateLimit option"

record FetchPlanLimitsResult =
  fp_success :: bool
  fp_error :: "string option"
  fp_rawResponse :: "json option"
  fp_parsed :: "ParsedFragment option"
  fp_plan :: "UserPlan option"

definition planFailure :: "string \<Rightarrow> FetchPlanLimitsResult" where
  "planFailure msg =
     \<lparr>fp_success = False, fp_error = Some msg, fp_rawResponse = None, fp_parsed = None,
      fp_plan = None\<rparr>"

text \<open>\<open>fetchPlanLimits\<close> returns its result and the new module state
  \<^verbatim>\<open>planLimitsState\<close>.\<close>

definition fetchPlanLimits ::
  "Platform \<Rightarrow> json http_response \<Rightarrow> PlanLimitsState \<Rightarrow> FetchPlanLimitsResult \<times> PlanLimitsState" where
  "fetchPlanLimits env response st =
     (case response of
        FetchThrows e \<Rightarrow> (planFailure (''Plan limits fetch error: '' @ e), st)
      | Response status statusText body \<Rightarrow>
          if status = 403 \<or> status = 500 then
            (\<lparr>fp_success = True, fp_error = None, fp_rawResponse = None,
              fp_parsed = Some \<lparr>pf_limits = None, pf_statics = [], pf_apiRateLimit = None\<rparr>,
              fp_plan = Some Basic\<rparr>,
             DEFAULT_STATE\<lparr>loaded := True, plan := Basic, fetched_at := Some (now env)\<rparr>)
          else if \<not> response_ok status then
            (planFailure (''Plan limits API failed: '' @ show_nat status @ '' '' @ statusText), st)
          else (case body of
                  None \<Rightarrow> (planFailure ''Failed to parse plan limits response'', st)
                | Some data \<Rightarrow>
                    (let parsed = parseApiResponse data;
                         p = (case pr_planName parsed of
                                None \<Rightarrow> detectPlanFromLimits (pr_limits parsed)
                              | Some n \<Rightarrow>
                                  if n \<noteq> [] then normalizePlanName n
                                  else detectPlanFromLimits (pr_limits parsed))
                     in (\<lparr>fp_success = True, fp_error = None, fp_rawResponse = Some data,
                          fp_parsed = Some \<lparr>pf_limits = pr_limits parsed,
                                             pf_statics = pr_statics parsed,
                                             pf_apiRateLimit = pr_apiRateLimit parsed\<rparr>,
                          fp_plan = Some p\<rparr>,
                         \<lparr>loaded = True, limits = pr_limits parsed, plan = p,
                          statics = pr_statics parsed, apiRateLimit = pr_apiRateLimit parsed,
                          fetched_at = Some (now env)\<rparr>))))"

definition loadPlanLimitsFromCache ::
  "Platform \<Rightarrow> PlanLimits option \<Rightarrow> json list \<Rightarrow> ApiRateLimit option \<Rightarrow> UserPlan
     \<Rightarrow> PlanLimitsState" where
  "loadPlanLimitsFromCache env ls sts rl p =
     \<lparr>loaded = True, limits = ls, plan = p, statics = sts, apiRateLimit = rl,
      fetched_at = Some (now env)\<rparr>"

section \<open>Endpoint catalog (discovery.ts)\<close>

record DiscoveryEndpoint =
  path :: string
  parameters :: "(string \<times> string list) list"
  required_parameters :: "string list"

record ParsedEndpoint = DiscoveryEndpoint +
  asset :: string
  category :: string
  metric :: string

text \<open>A \<^verbatim>\<open>Map\<close> is the list of its entries in insertion order, a \<^verbatim>\<open>Set\<close> the list
  of its members in insertion order.\<close>

record EndpointCatalog =
  endpoints :: "ParsedEndpoint list"
  assets :: "string list"
  categories :: "string list"
  byAsset :: "(string \<times> ParsedEndpoint list) list"
  byCategory :: "(string \<times> ParsedEndpoint list) list"
  byAssetCategory :: "(string \<times> ParsedEndpoint list) list"
  catalog_fetched_at :: int

fun addToIndex :: "('k \<times> 'v list) list \<Rightarrow> 'k \<Rightarrow> 'v \<Rightarrow> ('k \<times> 'v list) list" where
  "addToIndex [] key endpoint = [(key, [endpoint])]"
| "addToIndex ((k, l) # m) key endpoint =
     (if k = key then (k, l @ [endpoint]) # m else (k, l) # addToIndex m key endpoint)"

definition set_add :: "'a \<Rightarrow> 'a list \<Rightarrow> 'a list" where
  "set_add x xs = (if x \<in> set xs then xs else xs @ [x])"

text \<open>One turn of the loop of \<open>parseEndpoints\<close>.\<close>

definition parseStep :: "DiscoveryEndpoint \<Rightarrow> EndpointCatalog \<Rightarrow> EndpointCatalog" where
  "parseStep ep acc =
     (let parts = split_str CHR ''/'' (path ep)
      in if length parts < 5 then acc
         else (let a = parts ! 2; c = parts ! 3;
                   parsed = \<lparr>path = path ep, parameters = parameters ep,
                             required_parameters = required_parameters ep,
                             asset = a, category = c, metric = join ''/'' (drop 4 parts)\<rparr>
               in acc\<lparr>endpoints := endpoints acc @ [parsed],
                      assets := set_add a (assets acc),
                      categories := set_add c (categories acc),
                      byAsset := addToIndex (byAsset acc) a parsed,
                      byCategory := addToIndex (byCategory acc) c parsed,
                      byAssetCategory := addToIndex (byAssetCategory acc) (a @ ''/'' @ c) parsed\<rparr>))"

definition emptyCatalog :: "int \<Rightarrow> EndpointCatalog" where
  "emptyCatalog t =
     \<lparr>endpoints = [], assets = [], categories = [], byAsset = [], byCategory = [],
      byAssetCategory = [], catalog_fetched_at = t\<rparr>"

definition parseEndpoints :: "int \<Rightarrow> DiscoveryEndpoint list \<Rightarrow> EndpointCatalog" where
  "parseEndpoints t rawEndpoints =
     (let acc = fold parseStep rawEndpoints (emptyCatalog t)
      in acc\<lparr>assets := sort (assets acc), categories := sort (categories acc)\<rparr>)"

record ParamValidation =
  pv_valid :: bool
  errors :: "string list"

text \<open>
  \<open>params\<close> is a \<^verbatim>\<open>Record<string, unknown>\<close>: a property may hold any JSON value
  or \<^verbatim>\<open>undefined\<close> (\<open>None\<close>). The test \<^verbatim>\<open>params[required]\<close> is a property
  read: an inherited value is neither \<^verbatim>\<open>undefined\<close> nor \<^verbatim>\<open>null\<close>.
\<close>

definition missingRequired :: "(string \<times> json option) list \<Rightarrow> string \<Rightarrow> bool" where
  "missingRequired params required =
     (case getProp params required of
        Missing \<Rightarrow> True
      | Inherited \<Rightarrow> False
      | Own None \<Rightarrow> True
      | Own (Some JNull) \<Rightarrow> True
      | Own (Some v) \<Rightarrow> False)"

definition invalidValueMessage :: "string \<Rightarrow> string \<Rightarrow> string list \<Rightarrow> string" where
  "invalidValueMessage key v allowedValues =
     ''Invalid value for '' @ [CHR 0x27] @ key @ [CHR 0x27] @ '': '' @ [CHR 0x27] @ v @ [CHR 0x27]
       @ ''. Allowed: '' @ join '', '' allowedValues"

text \<open>
  One round of the second loop. For a supplied string, \<^verbatim>\<open>endpoint.parameters[key]\<close>
  is read: on an inherited value the call \<^verbatim>\<open>allowedValues.includes(value)\<close> throws
  a \<^verbatim>\<open>TypeError\<close> (no such method there). For any other value the conjunction stops
  at the \<^verbatim>\<open>typeof\<close> test. An own value is an array, which is truthy.
\<close>

definition checkParam ::
  "ParsedEndpoint \<Rightarrow> string \<times> json option \<Rightarrow> string list \<Rightarrow> jserror + string list" where
  "checkParam endpoint kv errs =
     (case snd kv of
        Some (JStr s) \<Rightarrow>
          (case getProp (parameters endpoint) (fst kv) of
             Missing \<Rightarrow> Inr errs
           | Inherited \<Rightarrow> Inl TypeError
           | Own allowedValues \<Rightarrow>
               if s \<notin> set allowedValues
               then Inr (errs @ [invalidValueMessage (fst kv) s allowedValues]) else Inr errs)
      | _ \<Rightarrow> Inr errs)"

definition validateEndpointParams ::
  "ParsedEndpoint \<Rightarrow> (string \<times> json option) list \<Rightarrow> jserror + ParamValidation" where
  "validateEndpointParams endpoint params =
     (let errors1 =
            fold (\<lambda>required errs.
                    if missingRequired params required
                    then errs @ [''Missing required parameter: '' @ required] else errs)
                 (required_parameters endpoint) [];
          errors2 =
            fold (\<lambda>kv acc. case acc of Inl e \<Rightarrow> Inl e | Inr errs \<Rightarrow> checkParam endpoint kv errs)
                 params (Inr errors1)
      in (case errors2 of
            Inl e \<Rightarrow> Inl e
          | Inr errs \<Rightarrow> Inr \<lparr>pv_valid = (length errs = 0), errors = errs\<rparr>))"

text \<open>The body of the discovery response, as its interface \<^verbatim>\<open>DiscoveryResponse\<close>
  declares it; \<open>result_data\<close> is \<open>None\<close> when \<^verbatim>\<open>data.result?.data\<close> is missing.\<close>

record DiscoveryResponse =
  status_code :: int
  status_message :: string
  result_data :: "DiscoveryEndpoint list option"

record FetchResult =
  success :: bool
  fr_error :: "string option"

definition fetchDiscoveryEndpoints ::
  "Platform \<Rightarrow> DiscoveryResponse http_response \<Rightarrow> EndpointCatalog option
     \<Rightarrow> FetchResult \<times> EndpointCatalog option" where
  "fetchDiscoveryEndpoints env response catalog =
     (case response of
        FetchThrows e \<Rightarrow>
          (\<lparr>success = False, fr_error = Some (''Discovery fetch error: '' @ e)\<rparr>, catalog)
      | Response status statusText body \<Rightarrow>
          if \<not> response_ok status then
            (\<lparr>success = False,
              fr_error = Some (''Discovery API failed: '' @ show_nat status @ '' '' @ statusText)\<rparr>,
             catalog)
          else (case body of
                  None \<Rightarrow>
                    (\<lparr>success = False, fr_error = Some ''Failed to parse discovery response''\<rparr>,
                     catalog)
                | Some data \<Rightarrow>
                    (case result_data data of
                       None \<Rightarrow>
                         (\<lparr>success = False,
                           fr_error = Some (''Invalid discovery response: '' @ status_message data)\<rparr>,
                          catalog)
                     | Some raw \<Rightarrow>
                         if status_code data \<noteq> 200 then
                           (\<lparr>success = False,
                             fr_error = Some (''Invalid discovery response: '' @ status_message data)\<rparr>,
                            catalog)
                         else (\<lparr>success = True, fr_error = None\<rparr>,
                               Some (parseEndpoints (now env) raw)))))"

section \<open>Cache schema and summary (cache/types.ts, cache/summary.ts)\<close>

definition CACHE_VERSION :: int where
  "CACHE_VERSION = 1"

definition CACHE_TTL_DAYS :: int where
  "CACHE_TTL_DAYS = 7"

text \<open>The fields of the raw response are copied unchecked, so they stay JSON values.\<close>

record MyDiscoveryRawResponse =
  apiEndpoint :: json
  rr_plan_name :: json
  rr_token :: json
  rr_window :: json

record SummaryAsset =
  sa_name :: string
  endpoint_count :: nat
  sa_categories :: "string list"

record DiscoverySummaryData =
  total_endpoints :: nat
  sm_assets :: "SummaryAsset list"
  category_by_asset :: "(string \<times> string list) list"

record CacheMetadata =
  api_url :: string
  api_key_prefix :: string
  cached_at :: string
  expires_at :: string
  md_plan :: UserPlan

text \<open>
  A cache document as \<^verbatim>\<open>JSON.parse\<close> returns it from the file. A field that is
  present has the shape \<open>writeCache\<close> gives it; any top-level field may be absent
  (\<open>None\<close>), since \<open>readCache\<close> casts the document without checking it further.
\<close>

record DiscoveryCacheSchema =
  version :: "int option"
  metadata :: "CacheMetadata option"
  raw_response :: "MyDiscoveryRawResponse option"
  parsed :: "ParsedFragment option"
  summary :: "DiscoverySummaryData option"

text \<open>The cache file: missing, not a JSON document the reader can use (reading or
  parsing throws), or a document.\<close>

datatype CacheFile = NoFile | Unparseable | Content DiscoveryCacheSchema

text \<open>\<^verbatim>\<open>a || b\<close> for a property read \<open>a\<close>.\<close>

definition orElse :: "json option \<Rightarrow> json \<Rightarrow> json" where
  "orElse a b = (case a of None \<Rightarrow> b | Some v \<Rightarrow> if truthy v then v else b)"

definition extractRawResponse :: "json \<Rightarrow> MyDiscoveryRawResponse option" where
  "extractRawResponse apiResponse =
     (case jget apiResponse ''apiEndpoint'' of
        None \<Rightarrow> None
      | Some ae \<Rightarrow>
          if \<not> truthy ae \<or> \<not> isObject ae then None
          else (let p = jget apiResponse ''plan''; rl = jget apiResponse ''apiRateLimit''
                in Some \<lparr>apiEndpoint = ae,
                         rr_plan_name =
                           orElse (case p of None \<Rightarrow> None | Some pv \<Rightarrow> jget pv ''name'') (JStr ''unknown''),
                         rr_token =
                           orElse (case rl of None \<Rightarrow> None | Some rv \<Rightarrow> jget rv ''token'') (JNum 0),
                         rr_window =
                           orElse (case rl of None \<Rightarrow> None | Some rv \<Rightarrow> jget rv ''window'') (JStr ''day'')\<rparr>))"

text \<open>The accumulator \<^verbatim>\<open>assetData\<close>: per asset, the count and the set of categories.\<close>

type_synonym AssetData = "(string \<times> nat \<times> string list) list"

fun assetUpdate :: "string \<Rightarrow> (nat \<times> string list \<Rightarrow> nat \<times> string list) \<Rightarrow> AssetData \<Rightarrow> AssetData" where
  "assetUpdate a f [] = [(a, f (0, []))]"
| "assetUpdate a f ((k, d) # m) = (if k = a then (k, f d) # m else (k, d) # assetUpdate a f m)"

definition countLimits :: "PlanLimits \<Rightarrow> AssetData \<Rightarrow> AssetData" where
  "countLimits ls acc =
     fold (\<lambda>(a, cats) m.
             assetUpdate a
               (\<lambda>d. fold (\<lambda>(c, metrics) (n, cs). (n + length metrics, set_add c cs)) cats d) m)
          ls acc"

text \<open>A static path that is not a string has no \<^verbatim>\<open>split\<close>: a \<^verbatim>\<open>TypeError\<close>.\<close>

definition countStatic :: "json \<Rightarrow> jserror + AssetData \<Rightarrow> jserror + AssetData" where
  "countStatic staticPath acc =
     (case acc of
        Inl e \<Rightarrow> Inl e
      | Inr m \<Rightarrow>
          (case staticPath of
             JStr s \<Rightarrow>
               (let parts = split_str CHR ''/'' s
                in if length parts \<ge> 4
                   then Inr (assetUpdate (parts ! 2) (\<lambda>(n, cs). (n + 1, set_add (parts ! 3) cs)) m)
                   else Inr m)
           | _ \<Rightarrow> Inl TypeError))"

fun insertBy :: "('a \<Rightarrow> 'a \<Rightarrow> bool) \<Rightarrow> 'a \<Rightarrow> 'a list \<Rightarrow> 'a list" where
  "insertBy le x [] = [x]"
| "insertBy le x (y # ys) = (if le x y then x # y # ys else y # insertBy le x ys)"

definition sortBy :: "('a \<Rightarrow> 'a \<Rightarrow> bool) \<Rightarrow> 'a list \<Rightarrow> 'a list" where
  "sortBy le xs = foldr (insertBy le) xs []"

definition generateSummary ::
  "Platform \<Rightarrow> PlanLimits option \<Rightarrow> json list \<Rightarrow> jserror + DiscoverySummaryData" where
  "generateSummary env lims sts =
     (let m0 = (case lims of None \<Rightarrow> [] | Some ls \<Rightarrow> countLimits ls [])
      in (case fold countStatic sts (Inr m0) of
            Inl e \<Rightarrow> Inl e
          | Inr m \<Rightarrow>
              Inr \<lparr>total_endpoints = sum_list (map (\<lambda>(a, n, cs). n) m),
                   sm_assets =
                     sortBy (\<lambda>x y. localeLe env (sa_name x) (sa_name y))
                       (map (\<lambda>(a, n, cs). \<lparr>sa_name = a, endpoint_count = n,
                                              sa_categories = sort cs\<rparr>) m),
                   category_by_asset = fold (\<lambda>(a, n, cs). obj_set a (sort cs)) m []\<rparr>))"

section \<open>Cache storage (cache/storage.ts)\<close>

definition isCacheValid ::
  "Platform \<Rightarrow> DiscoveryCacheSchema \<Rightarrow> string \<Rightarrow> string \<Rightarrow> jserror + bool" where
  "isCacheValid env cache apiUrl apiKeyPrefix =
     (if version cache \<noteq> Some CACHE_VERSION then Inr False
      else (case metadata cache of
              None \<Rightarrow> Inl TypeError
            | Some md \<Rightarrow>
                if api_url md \<noteq> apiUrl then Inr False
                else if api_key_prefix md \<noteq> apiKeyPrefix then Inr False
                else (let expiresAt = newDate env (expires_at md)
                      in if expiresAt = InvalidDate \<or> dateLess expiresAt (DateOf (now env))
                         then Inr False
                         else Inr True)))"

text \<open>\<open>readCache\<close>: every failure inside its \<^verbatim>\<open>try\<close> is \<^verbatim>\<open>null\<close>; the structure
  check is four truthiness tests.\<close>

definition readCache :: "CacheFile \<Rightarrow> DiscoveryCacheSchema option" where
  "readCache file =
     (case file of
        NoFile \<Rightarrow> None
      | Unparseable \<Rightarrow> None
      | Content data \<Rightarrow>
          if version data = None \<or> version data = Some 0 \<or> metadata data = None
             \<or> raw_response data = None \<or> summary data = None
          then None
          else Some data)"

text \<open>
  \<open>writeCache\<close> returns the new file, or the exception it throws: a \<^verbatim>\<open>RangeError\<close>
  from \<^verbatim>\<open>toISOString\<close>, or an I/O error when the directory or the file cannot be
  written. The document read back is the document written.
\<close>

definition writeCache ::
  "Platform \<Rightarrow> string \<Rightarrow> string \<Rightarrow> MyDiscoveryRawResponse \<Rightarrow> ParsedFragment
     \<Rightarrow> DiscoverySummaryData \<Rightarrow> UserPlan \<Rightarrow> jserror + CacheFile" where
  "writeCache env apiUrl apiKey rawResponse parsedFragment summ p =
     (let n = now env;
          expiresAt = setDate env n (getDate env n + CACHE_TTL_DAYS)
      in (case toISOString (DateOf n) of
            Inl e \<Rightarrow> Inl e
          | Inr cachedStr \<Rightarrow>
              (case toISOString expiresAt of
                 Inl e \<Rightarrow> Inl e
               | Inr expiresStr \<Rightarrow>
                   if \<not> fsWritable env then Inl IOError
                   else Inr (Content
                          \<lparr>version = Some CACHE_VERSION,
                           metadata = Some \<lparr>api_url = apiUrl, api_key_prefix = take 8 apiKey,
                                             cached_at = cachedStr, expires_at = expiresStr,
                                             md_plan = p\<rparr>,
                           raw_response = Some rawResponse,
                           parsed = Some parsedFragment,
                           summary = Some summ\<rparr>))))"

definition show_int :: "int \<Rightarrow> string" where
  "show_int i = (if i < 0 then ''-'' @ show_nat (nat (- i)) else show_nat (nat i))"

definition getCacheStatus :: "Platform \<Rightarrow> DiscoveryCacheSchema option \<Rightarrow> bool \<Rightarrow> jserror + string" where
  "getCacheStatus env cache fromCache =
     (case cache of
        None \<Rightarrow> Inr ''fresh''
      | Some c \<Rightarrow>
          if \<not> fromCache then Inr ''fresh''
          else (case metadata c of
                  None \<Rightarrow> Inl TypeError
                | Some md \<Rightarrow>
                    (case newDate env (cached_at md) of
                       InvalidDate \<Rightarrow> Inr ''cached (NaNd old)''
                     | DateOf t \<Rightarrow>
                         Inr (''cached ('' @ show_int ((now env - t) div msPerDay) @ ''d old)''))))"

section \<open>Session coordinator (permissions.ts)\<close>

record PermissionState =
  authenticated :: bool
  api_key :: "string option"
  ps_cached_at :: "int option"
  ps_plan :: UserPlan
  plan_limits_loaded :: bool
  ps_from_cache :: bool

record InitializeResult =
  ir_success :: bool
  ir_error :: "string option"
  discovery_error :: "string option"
  from_cache :: bool
  cache_status :: string
  ir_summary :: "DiscoverySummaryData option"

text \<open>The module-level variables of the coordinator and of the modules it drives,
  and the cache file.\<close>

record Session =
  permissionState :: PermissionState
  cachedDiscovery :: "DiscoveryCacheSchema option"
  planLimitsState :: PlanLimitsState
  endpointCatalog :: "EndpointCatalog option"
  cacheFile :: CacheFile

definition initFailure :: "string \<Rightarrow> InitializeResult" where
  "initFailure msg =
     \<lparr>ir_success = False, ir_error = Some msg, discovery_error = None, from_cache = False,
      cache_status = ''none'', ir_summary = None\<rparr>"

definition errorName :: "jserror \<Rightarrow> string" where
  "errorName e = (case e of TypeError \<Rightarrow> ''TypeError'' | RangeError \<Rightarrow> ''RangeError'' | IOError \<Rightarrow> ''Error'')"

text \<open>The branch taken with a valid cache. It runs outside any \<^verbatim>\<open>try\<close>: an exception
  leaves the call (\<open>Inl\<close>) with the session as it was.\<close>

definition initFromCache ::
  "Platform \<Rightarrow> Session \<Rightarrow> string \<Rightarrow> DiscoveryCacheSchema \<Rightarrow> DiscoveryResponse http_response
     \<Rightarrow> (jserror + InitializeResult) \<times> Session" where
  "initFromCache env s apiKey cache discoveryResponse =
     (case parsed cache of
        None \<Rightarrow> (Inl TypeError, s)
      | Some pf \<Rightarrow>
          (case metadata cache of
             None \<Rightarrow> (Inl TypeError, s)
           | Some md \<Rightarrow>
               (let pls = loadPlanLimitsFromCache env (pf_limits pf) (pf_statics pf)
                            (pf_apiRateLimit pf) (md_plan md);
                    (discoveryResult, catalog) =
                       fetchDiscoveryEndpoints env discoveryResponse (endpointCatalog s);
                    s1 = s\<lparr>planLimitsState := pls, endpointCatalog := catalog\<rparr>
                in (case getCacheStatus env (Some cache) True of
                      Inl e \<Rightarrow> (Inl e, s1)
                    | Inr cacheStatus \<Rightarrow>
                        (Inr \<lparr>ir_success = True, ir_error = None, discovery_error = None,
                              from_cache = True, cache_status = cacheStatus,
                              ir_summary = summary cache\<rparr>,
                         s1\<lparr>cachedDiscovery := Some cache,
                            permissionState :=
                              \<lparr>authenticated = True, api_key = Some apiKey,
                               ps_cached_at = Some (now env), ps_plan = md_plan md,
                               plan_limits_loaded = True, ps_from_cache = True\<rparr>\<rparr>)))))"

text \<open>The branch taken on a cache miss; its body is one \<^verbatim>\<open>try\<close> whose handler
  returns a failure.\<close>

definition initFresh ::
  "Platform \<Rightarrow> Session \<Rightarrow> string \<Rightarrow> string \<Rightarrow> DiscoveryResponse http_response
     \<Rightarrow> json http_response \<Rightarrow> InitializeResult \<times> Session" where
  "initFresh env s apiKey apiUrl discoveryResponse planResponse =
     (let (discoveryResult, catalog) =
             fetchDiscoveryEndpoints env discoveryResponse (endpointCatalog s);
          s1 = s\<lparr>endpointCatalog := catalog\<rparr>
      in if \<not> success discoveryResult then
           (\<lparr>ir_success = False, ir_error = fr_error discoveryResult, discovery_error = None,
             from_cache = False, cache_status = ''none'', ir_summary = None\<rparr>, s1)
         else
           (let (planResult, planState) = fetchPlanLimits env planResponse (planLimitsState s1);
                s2 = s1\<lparr>planLimitsState := planState\<rparr>;
                authed = \<lparr>authenticated = True, api_key = Some apiKey,
                          ps_cached_at = Some (now env), ps_plan = plan planState,
                          plan_limits_loaded = loaded planState, ps_from_cache = False\<rparr>;
                noCache = (\<lparr>ir_success = True, ir_error = None, discovery_error = None,
                            from_cache = False, cache_status = ''none'', ir_summary = None\<rparr>,
                           s2\<lparr>permissionState := authed\<rparr>)
            in (case (fp_rawResponse planResult, fp_parsed planResult) of
                  (Some raw, Some pf) \<Rightarrow>
                    if \<not> fp_success planResult \<or> \<not> truthy raw then noCache
                    else (case extractRawResponse raw of
                            None \<Rightarrow> noCache
                          | Some rawResponse \<Rightarrow>
                              (case generateSummary env (pf_limits pf) (pf_statics pf) of
                                 Inl e \<Rightarrow> (initFailure (''Network error: '' @ errorName e), s2)
                               | Inr summ \<Rightarrow>
                                   (case writeCache env apiUrl apiKey rawResponse pf summ
                                           (case fp_plan planResult of None \<Rightarrow> Unknown | Some p \<Rightarrow> p) of
                                      Inl e \<Rightarrow> (initFailure (''Network error: '' @ errorName e), s2)
                                    | Inr file \<Rightarrow>
                                        (\<lparr>ir_success = True, ir_error = None, discovery_error = None,
                                          from_cache = False, cache_status = ''fresh'',
                                          ir_summary = Some summ\<rparr>,
                                         s2\<lparr>cacheFile := file,
                                            cachedDiscovery := readCache file,
                                            permissionState := authed\<rparr>))))
                | _ \<Rightarrow> noCache)))"

definition initializePermissions ::
  "Platform \<Rightarrow> Session \<Rightarrow> string \<Rightarrow> string \<Rightarrow> DiscoveryResponse http_response
     \<Rightarrow> json http_response \<Rightarrow> (jserror + InitializeResult) \<times> Session" where
  "initializePermissions env s apiKey apiUrl discoveryResponse planResponse =
     (let apiKeyPrefix = take 8 apiKey
      in (case readCache (cacheFile s) of
            None \<Rightarrow>
              (let (r, s') = initFresh env s apiKey apiUrl discoveryResponse planResponse
               in (Inr r, s'))
          | Some cache \<Rightarrow>
              (case isCacheValid env cache apiUrl apiKeyPrefix of
                 Inl e \<Rightarrow> (Inl e, s)
               | Inr True \<Rightarrow> initFromCache env s apiKey cache discoveryResponse
               | Inr False \<Rightarrow>
                   (let (r, s') = initFresh env s apiKey apiUrl discoveryResponse planResponse
                    in (Inr r, s')))))"

section \<open>The claims' own notions and concrete inputs\<close>

text \<open>
  The permission table holds at least one window entry for a path's asset, category
  and metric (path segments 2, 3 and the rest joined again): stated on the table
  itself, to be compared with what \<open>getPlanLimit\<close> computes.
\<close>

definition tableHasWindowEntry :: "PlanLimitsState \<Rightarrow> string \<Rightarrow> bool" where
  "tableHasWindowEntry st endpointPath =
     (case limits st of
        None \<Rightarrow> False
      | Some ls \<Rightarrow>
          (let parts = split_str CHR ''/'' endpointPath
           in length parts \<ge> 5 \<and>
              (case map_of ls (parts ! 2) of
                 None \<Rightarrow> False
               | Some cats \<Rightarrow>
                   (case map_of cats (parts ! 3) of
                      None \<Rightarrow> False
                    | Some ms \<Rightarrow>
                        (case map_of ms (join ''/'' (drop 4 parts)) of
                           None \<Rightarrow> False
                         | Some ml \<Rightarrow> window ml \<noteq> [])))))"

text \<open>
  The path leaves the permission table through an inherited name, and the reads that
  follow throw: the asset segment is not a key of the table but is inherited, or the
  asset is a key and the category segment is not a key under it but is inherited,
  and the platform says that the chain of reads from there on throws.
\<close>

definition tableReadThrows :: "Platform \<Rightarrow> PlanLimitsState \<Rightarrow> string \<Rightarrow> bool" where
  "tableReadThrows env st endpointPath =
     (case limits st of
        None \<Rightarrow> False
      | Some ls \<Rightarrow>
          (let parts = split_str CHR ''/'' endpointPath;
               a = parts ! 2; c = parts ! 3; m = join ''/'' (drop 4 parts)
           in length parts \<ge> 5 \<and>
              (case map_of ls a of
                 None \<Rightarrow> a \<in> set objectPrototypeNames \<and> builtinReadThrows env [a, c, m]
               | Some cats \<Rightarrow>
                   map_of cats c = None \<and> c \<in> set objectPrototypeNames
                   \<and> builtinReadThrows env [c, m])))"

text \<open>All window entries of a permission table, and the fraction of them equal to a
  given token.\<close>

definition metricEntries :: "(string \<times> MetricLimits) list \<Rightarrow> DurationLimit list" where
  "metricEntries ms = concat (map (\<lambda>(m, ml). map snd (window ml)) ms)"

definition categoryEntries :: "(string \<times> (string \<times> MetricLimits) list) list \<Rightarrow> DurationLimit list" where
  "categoryEntries cats = concat (map (\<lambda>(c, ms). metricEntries ms) cats)"

definition windowEntries :: "PlanLimits \<Rightarrow> DurationLimit list" where
  "windowEntries ls = concat (map (\<lambda>(a, cats). categoryEntries cats) ls)"

definition fraction :: "DurationLimit list \<Rightarrow> DurationLimit \<Rightarrow> real" where
  "fraction es d = real (count_list es d) / real (length es)"

definition addCounts :: "DurationCounts \<Rightarrow> DurationLimit list \<Rightarrow> DurationCounts" where
  "addCounts c ds =
     \<lparr>p0d = p0d c + count_list ds ''P0D'', p3y = p3y c + count_list ds ''P3Y'',
      p1d = p1d c + count_list ds ''P1D'', total = total c + length ds\<rparr>"

text \<open>A permission table with one metric, and a loaded state of the advanced tier
  around it.\<close>

definition exLimits :: PlanLimits where
  "exLimits =
     [(''btc'', [(''market-data'',
        [(''price-ohlcv'', \<lparr>window = [(''day'', ''P3Y''), (''hour'', ''P1D'')]\<rparr>)])])]"

definition exState :: PlanLimitsState where
  "exState =
     \<lparr>loaded = True, limits = Some exLimits, plan = Advanced, statics = [JStr ''/v1/status''],
      apiRateLimit = None, fetched_at = None\<rparr>"

text \<open>Tables in which three of five window entries are \<open>P1D\<close>, or \<open>P0D\<close>.\<close>

definition exMostlyOneDay :: PlanLimits where
  "exMostlyOneDay =
     [(''btc'', [(''market-data'',
        [(''price-ohlcv'', \<lparr>window = [(''day'', ''P1D''), (''hour'', ''P1D'')]\<rparr>),
         (''open-interest'', \<lparr>window = [(''day'', ''P3Y'')]\<rparr>)])]),
      (''eth'', [(''exchange-flows'',
        [(''reserve'', \<lparr>window = [(''day'', ''P1D''), (''block'', ''P0D'')]\<rparr>)])])]"

definition exMostlyUnlimited :: PlanLimits where
  "exMostlyUnlimited =
     [(''btc'', [(''market-data'',
        [(''price-ohlcv'', \<lparr>window = [(''day'', ''P0D''), (''hour'', ''P0D'')]\<rparr>),
         (''open-interest'', \<lparr>window = [(''day'', ''P3Y'')]\<rparr>)])]),
      (''eth'', [(''exchange-flows'',
        [(''reserve'', \<lparr>window = [(''day'', ''P1D''), (''block'', ''P0D'')]\<rparr>)])])]"

text \<open>
  The catalog a descriptor list should give: a descriptor is kept when its path has
  at least five segments, and its asset, category and metric are segments 2, 3 and
  the rest; an index maps a key to the kept endpoints with that key, in input order.
\<close>

definition wellFormedPath :: "string \<Rightarrow> bool" where
  "wellFormedPath p = (length (split_str CHR ''/'' p) \<ge> 5)"

definition indexed :: "DiscoveryEndpoint \<Rightarrow> ParsedEndpoint" where
  "indexed ep =
     \<lparr>path = path ep, parameters = parameters ep, required_parameters = required_parameters ep,
      asset = split_str CHR ''/'' (path ep) ! 2, category = split_str CHR ''/'' (path ep) ! 3,
      metric = join ''/'' (drop 4 (split_str CHR ''/'' (path ep)))\<rparr>"

definition indexedEndpoints :: "DiscoveryEndpoint list \<Rightarrow> ParsedEndpoint list" where
  "indexedEndpoints raw = map indexed (filter (\<lambda>ep. wellFormedPath (path ep)) raw)"

definition indexAt :: "('a \<Rightarrow> 'k) \<Rightarrow> 'a list \<Rightarrow> 'k \<Rightarrow> 'a list option" where
  "indexAt key es k = (let l = filter (\<lambda>e. key e = k) es in if l = [] then None else Some l)"

definition compositeKey :: "ParsedEndpoint \<Rightarrow> string" where
  "compositeKey e = asset e @ ''/'' @ category e"

definition indexesAgree :: "EndpointCatalog \<Rightarrow> bool" where
  "indexesAgree c =
     ((\<forall>k. map_of (byAsset c) k = indexAt asset (endpoints c) k)
      \<and> (\<forall>k. map_of (byCategory c) k = indexAt category (endpoints c) k)
      \<and> (\<forall>k. map_of (byAssetCategory c) k = indexAt compositeKey (endpoints c) k)
      \<and> distinct (map fst (byAsset c)) \<and> distinct (map fst (byCategory c))
      \<and> distinct (map fst (byAssetCategory c)))"

text \<open>
  Names that are not properties of \<^verbatim>\<open>Object.prototype\<close>: a read under such a name
  finds an own property or nothing.
\<close>

definition plainNames :: "string list \<Rightarrow> bool" where
  "plainNames ks = (\<forall>k \<in> set ks. k \<notin> set objectPrototypeNames)"


text \<open>
  What \<open>validateEndpointParams\<close> reports: one message per required parameter that is
  absent (not supplied, \<^verbatim>\<open>undefined\<close> or \<^verbatim>\<open>null\<close>), then one per supplied string
  value of a declared parameter outside its allowed values.
\<close>

definition absentParam :: "(string \<times> json option) list \<Rightarrow> string \<Rightarrow> bool" where
  "absentParam params r =
     (map_of params r = None \<or> map_of params r = Some None \<or> map_of params r = Some (Some JNull))"

definition missingErrors :: "ParsedEndpoint \<Rightarrow> (string \<times> json option) list \<Rightarrow> string list" where
  "missingErrors endpoint params =
     map (\<lambda>r. ''Missing required parameter: '' @ r)
       (filter (absentParam params) (required_parameters endpoint))"

definition invalidError :: "ParsedEndpoint \<Rightarrow> string \<times> json option \<Rightarrow> string list" where
  "invalidError endpoint kv =
     (case snd kv of
        Some (JStr s) \<Rightarrow>
          (case map_of (parameters endpoint) (fst kv) of
             None \<Rightarrow> []
           | Some allowedValues \<Rightarrow>
               if s \<in> set allowedValues then [] else [invalidValueMessage (fst kv) s allowedValues])
      | _ \<Rightarrow> [])"

definition invalidErrors :: "ParsedEndpoint \<Rightarrow> (string \<times> json option) list \<Rightarrow> string list" where
  "invalidErrors endpoint params = concat (map (invalidError endpoint) params)"

definition exEndpoint :: ParsedEndpoint where
  "exEndpoint =
     \<lparr>path = ''/v1/btc/market-data/price-ohlcv'',
      parameters = [(''window'', [''day'', ''hour'']), (''limit'', [''100'', ''1000''])],
      required_parameters = [''window''],
      asset = ''btc'', category = ''market-data'', metric = ''price-ohlcv''\<rparr>"

definition exParams :: "(string \<times> json option) list" where
  "exParams = [(''limit'', Some (JNum 5000)), (''window'', Some (JStr ''day''))]"

definition exRaw :: "DiscoveryEndpoint list" where
  "exRaw =
     [\<lparr>path = ''/v1/btc/market-data/price-ohlcv'', parameters = [(''window'', [''day'', ''hour''])],
       required_parameters = [''window'']\<rparr>,
      \<lparr>path = ''/v1/status'', parameters = [], required_parameters = []\<rparr>,
      \<lparr>path = ''/v1/btc/exchange-flows/reserve'', parameters = [], required_parameters = []\<rparr>,
      \<lparr>path = ''/v1/eth/market-data/price-ohlcv'', parameters = [], required_parameters = []\<rparr>]"

text \<open>
  The duration grammar in the claim's words (one quantity, then one unit letter), and
  the date a decoded token stands for: now minus \<open>n\<close> calendar units, in local time.
  Years and months are subtracted from the calendar fields of the local time (day of
  month and time of day kept, \<open>MakeDay\<close> carrying any overflow). A week is seven days,
  and \<open>n\<close> days back is the instant at which the local clock shows the same time of
  day \<open>n\<close> dates earlier (\<open>localDayShift\<close> by \<open>- n\<close>): across a daylight-saving change
  that is not \<open>n\<close> times 24 hours ago. A date outside the range of \<open>TimeClip\<close> is
  invalid.
\<close>

definition localDayShift :: "Platform \<Rightarrow> int \<Rightarrow> int \<Rightarrow> int" where
  "localDayShift env t k = UTC env (LocalTime env t + k * msPerDay)"

definition isDurationForm :: "string \<Rightarrow> string \<Rightarrow> char \<Rightarrow> bool" where
  "isDurationForm tok ds u =
     (tok = ''P'' @ ds @ [u] \<and> ds \<noteq> [] \<and> (\<forall>c \<in> set ds. isDigit c) \<and> u \<in> set ''YMWD'')"

definition calendarMinus :: "Platform \<Rightarrow> char \<Rightarrow> int \<Rightarrow> Date" where
  "calendarMinus env u n =
     (let t = LocalTime env (now env)
      in if u = CHR ''Y'' then
           TimeClip (UTC env (MakeDate (MakeDay (YearFromTime t - n) (MonthFromTime t) (DateFromTime t))
                                (TimeWithinDay t)))
         else if u = CHR ''M'' then
           TimeClip (UTC env (MakeDate (MakeDay (YearFromTime t) (MonthFromTime t - n) (DateFromTime t))
                                (TimeWithinDay t)))
         else if u = CHR ''W'' then TimeClip (localDayShift env (now env) (- (7 * n)))
         else TimeClip (localDayShift env (now env) (- n)))"

text \<open>
  The built-in objects as the language standard has them, for concrete runs. The
  first name of a chain is inherited, so it yields the prototype object (under
  \<^verbatim>\<open>__proto__\<close>) or a function (\<^verbatim>\<open>Object\<close> under \<^verbatim>\<open>constructor\<close>). On a function,
  \<^verbatim>\<open>caller\<close> and \<^verbatim>\<open>arguments\<close> throw; the names that yield a function again are
  those of \<^verbatim>\<open>Object.prototype\<close>, the methods of \<^verbatim>\<open>Function.prototype\<close> and, on
  \<^verbatim>\<open>Object\<close>, its static methods. On the prototype object the inherited names but
  \<^verbatim>\<open>__proto__\<close> yield functions. Every other read ends the chain without a throw.
\<close>

definition restrictedNames :: "string list" where
  "restrictedNames = [''caller'', ''arguments'']"

definition functionMethodNames :: "string list" where
  "functionMethodNames = [''apply'', ''bind'', ''call'']"

definition objectStaticNames :: "string list" where
  "objectStaticNames =
     [''assign'', ''create'', ''defineProperties'', ''defineProperty'', ''entries'', ''freeze'',
      ''fromEntries'', ''getOwnPropertyDescriptor'', ''getOwnPropertyDescriptors'',
      ''getOwnPropertyNames'', ''getOwnPropertySymbols'', ''getPrototypeOf'', ''groupBy'',
      ''hasOwn'', ''is'', ''isExtensible'', ''isFrozen'', ''isSealed'', ''keys'',
      ''preventExtensions'', ''seal'', ''setPrototypeOf'', ''values'']"

fun ecmaReadThrows :: "string list \<Rightarrow> bool" where
  "ecmaReadThrows [a, c, m] =
     (if a = ''__proto__''
      then c \<in> set objectPrototypeNames \<and> c \<noteq> ''__proto__'' \<and> m \<in> set restrictedNames
      else c \<in> set restrictedNames
           \<or> (c \<in> set (objectPrototypeNames @ functionMethodNames
                         @ (if a = ''constructor'' then objectStaticNames else []))
               \<and> m \<in> set restrictedNames))"
| "ecmaReadThrows [c, m] = (c \<noteq> ''__proto__'' \<and> m \<in> set restrictedNames)"
| "ecmaReadThrows ks = False"

text \<open>A platform for concrete runs: 2026-11-02T10:30:00.123Z, UTC, the ISO parser.
  \<open>exNewYork\<close> is the same instant in a zone four hours behind UTC until
  2026-11-01T06:00Z (02:00 local time), when daylight saving ends, and five hours
  behind from then on.\<close>

definition exEnv :: Platform where
  "exEnv =
     \<lparr>now = 1793615400123, localTZA = (\<lambda>t isUTC. 0), dateParse = isoParse,
      builtinReadThrows = ecmaReadThrows, localeLe = (\<le>), fsWritable = True\<rparr>"

definition exNewYork :: Platform where
  "exNewYork =
     exEnv\<lparr>localTZA :=
       (\<lambda>t isUTC. if t < (if isUTC then 1793512800000 else 1793498400000)
                  then - 14400000 else - 18000000)\<rparr>"

text \<open>The checks of \<open>validateDateRange\<close> before it looks up a limit have passed, and a
  non-empty \<open>fromDate\<close> was given.\<close>

definition dateChecked :: "Platform \<Rightarrow> PlanLimitsState \<Rightarrow> string \<Rightarrow> string \<Rightarrow> bool" where
  "dateChecked env st p fd =
     (loaded st \<and> plan st \<noteq> Unknown \<and> hasEndpointAccess env st p = Inr True \<and> fd \<noteq> [])"

text \<open>
  The coordinator's situation in the claims' words: the cache is missing or
  invalid; the outcome of the endpoint-catalog fetch; the outcome of the
  permission-payload fetch; the result returned when authentication succeeds without
  a cache write. \<open>isoString\<close> is what \<open>toISOString\<close> prints for a valid date.
\<close>

definition cacheUnusable :: "Platform \<Rightarrow> Session \<Rightarrow> string \<Rightarrow> string \<Rightarrow> bool" where
  "cacheUnusable env s apiKey apiUrl =
     (case readCache (cacheFile s) of
        None \<Rightarrow> True
      | Some c \<Rightarrow> isCacheValid env c apiUrl (take 8 apiKey) = Inr False)"

definition discoveryResult :: "Platform \<Rightarrow> Session \<Rightarrow> DiscoveryResponse http_response \<Rightarrow> FetchResult" where
  "discoveryResult env s dr = fst (fetchDiscoveryEndpoints env dr (endpointCatalog s))"

definition planResult :: "Platform \<Rightarrow> Session \<Rightarrow> json http_response \<Rightarrow> FetchPlanLimitsResult" where
  "planResult env s pr = fst (fetchPlanLimits env pr (planLimitsState s))"

definition isoString :: "int \<Rightarrow> string" where
  "isoString t = isoDatePart t @ ''T'' @ isoTimePart t @ ''Z''"

text \<open>The expiry of a cache written now: the same local time of day seven dates on.\<close>

definition expiryOf :: "Platform \<Rightarrow> int" where
  "expiryOf env = localDayShift env (now env) 7"

definition exSession :: Session where
  "exSession =
     \<lparr>permissionState =
        \<lparr>authenticated = False, api_key = None, ps_cached_at = None, ps_plan = Unknown,
         plan_limits_loaded = False, ps_from_cache = False\<rparr>,
      cachedDiscovery = None, planLimitsState = DEFAULT_STATE, endpointCatalog = None,
      cacheFile = NoFile\<rparr>"

definition exAuthedSession :: Session where
  "exAuthedSession =
     exSession\<lparr>permissionState :=
        \<lparr>authenticated = True, api_key = Some ''old-key-0000'', ps_cached_at = Some 1793000000000,
         ps_plan = Professional, plan_limits_loaded = True, ps_from_cache = False\<rparr>\<rparr>"

definition exDiscoveryOk :: "DiscoveryResponse http_response" where
  "exDiscoveryOk =
     Response 200 ''OK'' (Some \<lparr>status_code = 200, status_message = ''success'', result_data = Some exRaw\<rparr>)"

definition exStaleDoc :: DiscoveryCacheSchema where
  "exStaleDoc =
     \<lparr>version = Some 1,
      metadata = Some \<lparr>api_url = ''https://api.cryptoquant.com/v1'', api_key_prefix = ''key-1234'',
                        cached_at = ''2026-11-01T00:00:00.000Z'',
                        expires_at = ''2026-11-08T00:00:00.000Z'', md_plan = Professional\<rparr>,
      raw_response = Some \<lparr>apiEndpoint = JObj [], rr_plan_name = JStr ''PROFESSIONAL'',
                            rr_token = JNum 100, rr_window = JStr ''day''\<rparr>,
      parsed = None,
      summary = Some \<lparr>total_endpoints = 0, sm_assets = [], category_by_asset = []\<rparr>\<rparr>"

definition exKey :: string where
  "exKey = ''key-1234567890''"

definition exUrl :: string where
  "exUrl = ''https://api.cryptoquant.com/v1''"

definition exFragment :: ParsedFragment where
  "exFragment =
     \<lparr>pf_limits = Some exLimits, pf_statics = [JStr ''/v1/status''],
      pf_apiRateLimit = Some \<lparr>token = 100, rl_window = ''day''\<rparr>\<rparr>"

definition exRawResponse :: MyDiscoveryRawResponse where
  "exRawResponse =
     \<lparr>apiEndpoint = JObj [], rr_plan_name = JStr ''PROFESSIONAL'', rr_token = JNum 100,
      rr_window = JStr ''day''\<rparr>"

definition exSummary :: DiscoverySummaryData where
  "exSummary = \<lparr>total_endpoints = 2, sm_assets = [], category_by_asset = []\<rparr>"

definition noCacheResult :: InitializeResult where
  "noCacheResult =
     \<lparr>ir_success = True, ir_error = None, discovery_error = None, from_cache = False,
      cache_status = ''none'', ir_summary = None\<rparr>"

section \<open>Properties\<close>

subsection \<open>Access decisions\<close>

lemma getMetricLimits_throws:
  "tableReadThrows env st p \<Longrightarrow> getMetricLimits env st p = Inl TypeError"
  by (auto simp: getMetricLimits_def builtinWalk_def getProp_def tableReadThrows_def
        parseEndpointPath_def Let_def split: option.splits)


lemma getPlanLimit_throws:
  "tableReadThrows env st p \<Longrightarrow> getPlanLimit env st p wt = Inl TypeError"
  by (simp add: getPlanLimit_def getMetricLimits_throws)

lemma getPlanLimit_some_iff:
  "\<not> tableReadThrows env st p \<Longrightarrow>
     \<exists>r. getPlanLimit env st p None = Inr r \<and> (r \<noteq> None) = tableHasWindowEntry st p"
  by (auto simp: getPlanLimit_def getMetricLimits_def builtinWalk_def getProp_def
        tableHasWindowEntry_def tableReadThrows_def parseEndpointPath_def Let_def
      split: option.splits list.splits)

lemma tableReadThrows_no_table: "limits st = None \<Longrightarrow> \<not> tableReadThrows env st p"
  by (simp add: tableReadThrows_def)

text \<open>
  The decision chain of \<open>hasEndpointAccess\<close>. With no permission state loaded or the
  tier unknown, the result is true; otherwise a member of the static list is
  accessible; otherwise the basic tier with a null table is denied. From there on the
  code reads the table. A path that leaves the table through an inherited name with a
  throwing chain of reads behind it makes the call throw a \<^verbatim>\<open>TypeError\<close>. On every
  other path, one with at least one window entry in the table is accessible;
  otherwise access is granted exactly to the premium, professional and custom tiers
  (and so denied to basic and advanced).
\<close>

lemma hasEndpointAccess_chain:
  "hasEndpointAccess env st p =
     (if \<not> loaded st \<or> plan st = Unknown then Inr True
      else if JStr p \<in> set (statics st) then Inr True
      else if plan st = Basic \<and> limits st = None then Inr False
      else if tableReadThrows env st p then Inl TypeError
      else if tableHasWindowEntry st p then Inr True
      else Inr (plan st = Premium \<or> plan st = Professional \<or> plan st = Custom))"
proof (cases "tableReadThrows env st p")
  case True
  then have "limits st \<noteq> None" using tableReadThrows_no_table by blast
  then show ?thesis
    using True by (auto simp: hasEndpointAccess_def getPlanLimit_throws)
next
  case False
  then obtain r where r: "getPlanLimit env st p None = Inr r"
    and e: "(r \<noteq> None) = tableHasWindowEntry st p"
    using getPlanLimit_some_iff by blast
  show ?thesis
    using False e by (cases r) (simp_all add: hasEndpointAccess_def r)
qed

lemma hasEndpointAccess_examples:
  "hasEndpointAccess exEnv exState ''/v1/btc/market-data/price-ohlcv'' = Inr True
   \<and> tableHasWindowEntry exState ''/v1/btc/market-data/price-ohlcv''
   \<and> hasEndpointAccess exEnv exState ''/v1/eth/market-data/price-ohlcv'' = Inr False
   \<and> hasEndpointAccess exEnv exState ''/v1/constructor/name/x'' = Inr False
   \<and> hasEndpointAccess exEnv exState ''/v1/btc/toString/arguments'' = Inl TypeError
   \<and> hasEndpointAccess exEnv exState ''/v1/status'' = Inr True
   \<and> hasEndpointAccess exEnv (exState\<lparr>plan := Basic, limits := None\<rparr>) ''/v1/btc/market-data/price-ohlcv''
       = Inr False
   \<and> hasEndpointAccess exEnv (exState\<lparr>plan := Premium\<rparr>) ''/v1/eth/market-data/price-ohlcv'' = Inr True
   \<and> hasEndpointAccess exEnv DEFAULT_STATE ''/v1/eth/market-data/price-ohlcv'' = Inr True"
  by (simp add: hasEndpointAccess_chain exState_def exLimits_def DEFAULT_STATE_def
        tableHasWindowEntry_def tableReadThrows_def exEnv_def objectPrototypeNames_def
        restrictedNames_def)



subsection \<open>Tier detection\<close>

lemma addCounts_Nil: "addCounts c [] = c"
  by (simp add: addCounts_def)

lemma addCounts_append: "addCounts (addCounts c xs) ys = addCounts c (xs @ ys)"
  by (simp add: addCounts_def)

lemma countDuration_add: "countDuration d c = addCounts c [d]"
  by (simp add: countDuration_def addCounts_def Let_def)

lemma fold_windows: "fold (\<lambda>(w, d). countDuration d) ws c = addCounts c (map snd ws)"
proof (induction ws arbitrary: c)
  case Nil
  show ?case by (simp add: addCounts_Nil)
next
  case (Cons x xs)
  have "fold (\<lambda>(w, d). countDuration d) (x # xs) c
          = fold (\<lambda>(w, d). countDuration d) xs (countDuration (snd x) c)"
    by (cases x) simp
  also have "\<dots> = addCounts (countDuration (snd x) c) (map snd xs)"
    by (rule Cons.IH)
  also have "\<dots> = addCounts c (map snd (x # xs))"
    by (simp add: countDuration_add addCounts_append)
  finally show ?case .
qed

lemma fold_metrics:
  "fold (\<lambda>(m, ml). fold (\<lambda>(w, d). countDuration d) (window ml)) ms c
     = addCounts c (metricEntries ms)"
proof (induction ms arbitrary: c)
  case Nil
  show ?case by (simp add: addCounts_Nil metricEntries_def)
next
  case (Cons x xs)
  have "fold (\<lambda>(m, ml). fold (\<lambda>(w, d). countDuration d) (window ml)) (x # xs) c
          = fold (\<lambda>(m, ml). fold (\<lambda>(w, d). countDuration d) (window ml)) xs
              (addCounts c (map snd (window (snd x))))"
    by (cases x) (simp add: fold_windows)
  also have "\<dots> = addCounts (addCounts c (map snd (window (snd x)))) (metricEntries xs)"
    by (rule Cons.IH)
  also have "\<dots> = addCounts c (metricEntries (x # xs))"
    by (cases x) (simp add: addCounts_append metricEntries_def)
  finally show ?case .
qed

lemma fold_categories:
  "fold (\<lambda>(ca, ms). fold (\<lambda>(m, ml). fold (\<lambda>(w, d). countDuration d) (window ml)) ms) cats c
     = addCounts c (categoryEntries cats)"
proof (induction cats arbitrary: c)
  case Nil
  show ?case by (simp add: addCounts_Nil categoryEntries_def)
next
  case (Cons x xs)
  have "fold (\<lambda>(ca, ms). fold (\<lambda>(m, ml). fold (\<lambda>(w, d). countDuration d) (window ml)) ms) (x # xs) c
          = fold (\<lambda>(ca, ms). fold (\<lambda>(m, ml). fold (\<lambda>(w, d). countDuration d) (window ml)) ms) xs
              (addCounts c (metricEntries (snd x)))"
    by (cases x) (simp add: fold_metrics)
  also have "\<dots> = addCounts (addCounts c (metricEntries (snd x))) (categoryEntries xs)"
    by (rule Cons.IH)
  also have "\<dots> = addCounts c (categoryEntries (x # xs))"
    by (cases x) (simp add: addCounts_append categoryEntries_def)
  finally show ?case .
qed

lemma fold_assets:
  "fold (\<lambda>(a, cats). fold (\<lambda>(ca, ms). fold (\<lambda>(m, ml). fold (\<lambda>(w, d). countDuration d) (window ml)) ms) cats) ls c
     = addCounts c (windowEntries ls)"
proof (induction ls arbitrary: c)
  case Nil
  show ?case by (simp add: addCounts_Nil windowEntries_def)
next
  case (Cons x xs)
  have "fold (\<lambda>(a, cats). fold (\<lambda>(ca, ms). fold (\<lambda>(m, ml). fold (\<lambda>(w, d). countDuration d) (window ml)) ms) cats) (x # xs) c
          = fold (\<lambda>(a, cats). fold (\<lambda>(ca, ms). fold (\<lambda>(m, ml). fold (\<lambda>(w, d). countDuration d) (window ml)) ms) cats) xs
              (addCounts c (categoryEntries (snd x)))"
    by (cases x) (simp add: fold_categories)
  also have "\<dots> = addCounts (addCounts c (categoryEntries (snd x))) (windowEntries xs)"
    by (rule Cons.IH)
  also have "\<dots> = addCounts c (windowEntries (x # xs))"
    by (cases x) (simp add: addCounts_append windowEntries_def)
  finally show ?case .
qed

lemma collectDurationCounts_eq:
  "collectDurationCounts ls =
     \<lparr>p0d = count_list (windowEntries ls) ''P0D'', p3y = count_list (windowEntries ls) ''P3Y'',
      p1d = count_list (windowEntries ls) ''P1D'', total = length (windowEntries ls)\<rparr>"
  unfolding collectDurationCounts_def fold_assets by (simp add: addCounts_def)

text \<open>
  Claim C4. The tier-detection heuristic yields basic for a null table or one with no
  window entry; otherwise, with the fractions taken over all window entries, basic
  when the fraction of \<open>P1D\<close> (one day) exceeds 0.5, else premium when the fraction of
  \<open>P0D\<close> (unlimited) exceeds 0.5, else professional when the fraction of \<open>P3Y\<close> (three
  years) exceeds 0.3, else advanced: the thresholds in that order.
\<close>

theorem detectPlanFromLimits_thresholds:
  "detectPlanFromLimits lims =
     (case lims of
        None \<Rightarrow> Basic
      | Some ls \<Rightarrow>
          if windowEntries ls = [] then Basic
          else if fraction (windowEntries ls) ''P1D'' > 0.5 then Basic
          else if fraction (windowEntries ls) ''P0D'' > 0.5 then Premium
          else if fraction (windowEntries ls) ''P3Y'' > 0.3 then Professional
          else Advanced)"
  by (simp add: detectPlanFromLimits_def collectDurationCounts_eq fraction_def Let_def
        split: option.splits)

theorem detectPlanFromLimits_thresholds_witness:
  "detectPlanFromLimits (Some exMostlyOneDay) = Basic
   \<and> fraction (windowEntries exMostlyOneDay) ''P1D'' = 3 / 5
   \<and> detectPlanFromLimits (Some exMostlyUnlimited) = Premium
   \<and> fraction (windowEntries exMostlyUnlimited) ''P0D'' = 3 / 5
   \<and> detectPlanFromLimits (Some []) = Basic
   \<and> detectPlanFromLimits (Some exLimits) = Professional"
  using detectPlanFromLimits_thresholds [of "Some exMostlyOneDay"]
    detectPlanFromLimits_thresholds [of "Some exMostlyUnlimited"]
    detectPlanFromLimits_thresholds [of "Some []"]
    detectPlanFromLimits_thresholds [of "Some exLimits"]
  by (simp add: exMostlyOneDay_def exMostlyUnlimited_def exLimits_def windowEntries_def
        categoryEntries_def metricEntries_def fraction_def)

subsection \<open>The endpoint catalog\<close>

lemma map_of_addToIndex:
  "map_of (addToIndex m k v) k' =
     (if k' = k then Some ((case map_of m k of None \<Rightarrow> [] | Some l \<Rightarrow> l) @ [v]) else map_of m k')"
  by (induction m k v rule: addToIndex.induct) auto

lemma keys_addToIndex: "set (map fst (addToIndex m k v)) = insert k (set (map fst m))"
  by (induction m k v rule: addToIndex.induct) auto

lemma distinct_addToIndex:
  "distinct (map fst m) \<Longrightarrow> distinct (map fst (addToIndex m k v))"
proof (induction m k v rule: addToIndex.induct)
  case (1 key endpoint)
  show ?case by simp
next
  case (2 k l m key endpoint)
  show ?case
  proof (cases "k = key")
    case True
    with 2 show ?thesis by simp
  next
    case False
    have "k \<notin> set (map fst (addToIndex m key endpoint))"
      using 2(2) False unfolding keys_addToIndex by auto
    with 2 False show ?thesis by simp
  qed
qed

lemma indexAt_snoc:
  "indexAt key (es @ [e]) k =
     (if k = key e then Some ((case indexAt key es k of None \<Rightarrow> [] | Some l \<Rightarrow> l) @ [e])
      else indexAt key es k)"
  by (auto simp: indexAt_def Let_def)

lemma indexAt_Nil: "indexAt key [] k = None"
  by (simp add: indexAt_def)

lemma parseStep_skip: "\<not> wellFormedPath (path ep) \<Longrightarrow> parseStep ep acc = acc"
  by (simp add: parseStep_def wellFormedPath_def Let_def)

lemma parseStep_keep:
  "wellFormedPath (path ep) \<Longrightarrow>
   parseStep ep acc =
     acc\<lparr>endpoints := endpoints acc @ [indexed ep],
         assets := set_add (asset (indexed ep)) (assets acc),
         categories := set_add (category (indexed ep)) (categories acc),
         byAsset := addToIndex (byAsset acc) (asset (indexed ep)) (indexed ep),
         byCategory := addToIndex (byCategory acc) (category (indexed ep)) (indexed ep),
         byAssetCategory := addToIndex (byAssetCategory acc) (compositeKey (indexed ep)) (indexed ep)\<rparr>"
  by (simp add: parseStep_def wellFormedPath_def Let_def indexed_def compositeKey_def)

lemma parseStep_agree: "indexesAgree acc \<Longrightarrow> indexesAgree (parseStep ep acc)"
proof (cases "wellFormedPath (path ep)")
  case False
  assume "indexesAgree acc"
  with False show ?thesis by (simp add: parseStep_skip)
next
  case True
  assume a: "indexesAgree acc"
  show ?thesis
    using a unfolding parseStep_keep [OF True] indexesAgree_def
    by (simp add: map_of_addToIndex indexAt_snoc distinct_addToIndex)
qed

lemma parseStep_endpoints:
  "endpoints (parseStep ep acc) = endpoints acc @ indexedEndpoints [ep]"
  by (cases "wellFormedPath (path ep)") (simp_all add: parseStep_skip parseStep_keep indexedEndpoints_def)

lemma fold_parseStep_endpoints:
  "endpoints (fold parseStep raw acc) = endpoints acc @ indexedEndpoints raw"
proof (induction raw arbitrary: acc)
  case Nil
  show ?case by (simp add: indexedEndpoints_def)
next
  case (Cons ep raw)
  have "endpoints (fold parseStep (ep # raw) acc) = endpoints (parseStep ep acc) @ indexedEndpoints raw"
    using Cons.IH [of "parseStep ep acc"] by simp
  also have "\<dots> = endpoints acc @ indexedEndpoints (ep # raw)"
    by (simp add: parseStep_endpoints indexedEndpoints_def)
  finally show ?case .
qed

lemma fold_parseStep_agree:
  "indexesAgree acc \<Longrightarrow> indexesAgree (fold parseStep raw acc)"
  by (induction raw arbitrary: acc) (simp_all add: parseStep_agree)

lemma emptyCatalog_agree: "indexesAgree (emptyCatalog t)"
  by (simp add: indexesAgree_def emptyCatalog_def indexAt_Nil)

lemma split_str_nonempty: "split_str sep s \<noteq> []"
  by (induction s) (auto split: list.splits)

lemma split_str_no_sep: "seg \<in> set (split_str sep s) \<Longrightarrow> sep \<notin> set seg"
proof (induction s arbitrary: seg)
  case Nil
  then show ?case by simp
next
  case (Cons c cs)
  show ?case
  proof (cases "c = sep")
    case True
    with Cons show ?thesis by auto
  next
    case False
    obtain p ps where ps: "split_str sep cs = p # ps"
      using split_str_nonempty [of sep cs] by (cases "split_str sep cs") auto
    with Cons.prems False have "seg = c # p \<or> seg \<in> set ps" by simp
    then show ?thesis
    proof
      assume "seg = c # p"
      moreover have "sep \<notin> set p" using Cons.IH [of p] ps by simp
      ultimately show ?thesis using False by auto
    next
      assume "seg \<in> set ps"
      then show ?thesis using Cons.IH [of seg] ps by simp
    qed
  qed
qed

lemma composite_unique:
  "sep \<notin> set x \<Longrightarrow> sep \<notin> set y \<Longrightarrow> (x @ sep # y = a @ sep # c) = (x = a \<and> y = c)"
proof (induction x arbitrary: a)
  case Nil
  then show ?case by (cases a) auto
next
  case (Cons h xs)
  then show ?case by (cases a) auto
qed

lemma indexed_segments:
  assumes "e \<in> set (indexedEndpoints raw)"
  shows "wellFormedPath (path e) \<and> asset e = split_str CHR ''/'' (path e) ! 2
         \<and> category e = split_str CHR ''/'' (path e) ! 3
         \<and> CHR ''/'' \<notin> set (asset e) \<and> CHR ''/'' \<notin> set (category e)"
proof -
  from assms obtain ep where ep: "e = indexed ep" "wellFormedPath (path ep)"
    by (auto simp: indexedEndpoints_def)
  have len: "5 \<le> length (split_str CHR ''/'' (path ep))"
    using ep(2) by (simp add: wellFormedPath_def)
  have "split_str CHR ''/'' (path ep) ! 2 \<in> set (split_str CHR ''/'' (path ep))"
    and "split_str CHR ''/'' (path ep) ! 3 \<in> set (split_str CHR ''/'' (path ep))"
    using len by simp_all
  then show ?thesis
    using ep split_str_no_sep by (auto simp: indexed_def)
qed

lemma composite_index:
  "indexAt compositeKey (indexedEndpoints raw) (a @ ''/'' @ c)
     = indexAt (\<lambda>e. (asset e, category e)) (indexedEndpoints raw) (a, c)"
proof -
  have "filter (\<lambda>e. compositeKey e = a @ ''/'' @ c) (indexedEndpoints raw)
          = filter (\<lambda>e. (asset e, category e) = (a, c)) (indexedEndpoints raw)"
  proof (rule filter_cong [OF refl])
    fix e assume e: "e \<in> set (indexedEndpoints raw)"
    have "CHR ''/'' \<notin> set (asset e)" and "CHR ''/'' \<notin> set (category e)"
      using indexed_segments [OF e] by blast+
    then show "(compositeKey e = a @ ''/'' @ c) = ((asset e, category e) = (a, c))"
      using composite_unique [of "CHR ''/''" "asset e" "category e" a c]
      by (simp add: compositeKey_def)
  qed
  then show ?thesis by (simp add: indexAt_def)
qed

lemma count_indexAt:
  "e \<in> set es \<Longrightarrow> count_list (the (indexAt key es (key e))) e = count_list es e"
proof -
  assume e: "e \<in> set es"
  have ne: "filter (\<lambda>x. key x = key e) es \<noteq> []"
    using e by (auto simp: filter_empty_conv)
  have "count_list (filter (\<lambda>x. key x = key e) es) e = count_list es e"
    by (induction es) auto
  with ne show ?thesis by (simp add: indexAt_def)
qed

text \<open>
  Claim C7. For every raw descriptor list, a descriptor whose path has fewer than five
  slash-delimited segments appears in no index; every other descriptor appears in the
  ordered endpoint list and, once for each of its occurrences, under its asset key in
  the by-asset index, under its category key in the by-category index and under its
  \<open>asset/category\<close> key in the composite index, asset and category being path
  segments 2 and 3. Each index list is the sublist of the endpoint list with that key.
\<close>

theorem parseEndpoints_indexes:
  "endpoints (parseEndpoints t raw) = indexedEndpoints raw
   \<and> (\<forall>k. map_of (byAsset (parseEndpoints t raw)) k = indexAt asset (indexedEndpoints raw) k)
   \<and> (\<forall>k. map_of (byCategory (parseEndpoints t raw)) k = indexAt category (indexedEndpoints raw) k)
   \<and> (\<forall>k. map_of (byAssetCategory (parseEndpoints t raw)) k
            = indexAt compositeKey (indexedEndpoints raw) k)
   \<and> (\<forall>a c. map_of (byAssetCategory (parseEndpoints t raw)) (a @ ''/'' @ c)
            = indexAt (\<lambda>e. (asset e, category e)) (indexedEndpoints raw) (a, c))
   \<and> distinct (map fst (byAsset (parseEndpoints t raw)))
   \<and> distinct (map fst (byCategory (parseEndpoints t raw)))
   \<and> distinct (map fst (byAssetCategory (parseEndpoints t raw)))
   \<and> (\<forall>ep. \<not> wellFormedPath (path ep) \<longrightarrow>
         (\<forall>e \<in> set (indexedEndpoints raw). path e \<noteq> path ep))
   \<and> (\<forall>e \<in> set (indexedEndpoints raw).
         wellFormedPath (path e)
         \<and> asset e = split_str CHR ''/'' (path e) ! 2
         \<and> category e = split_str CHR ''/'' (path e) ! 3
         \<and> count_list (the (map_of (byAsset (parseEndpoints t raw)) (asset e))) e
             = count_list (indexedEndpoints raw) e
         \<and> count_list (the (map_of (byCategory (parseEndpoints t raw)) (category e))) e
             = count_list (indexedEndpoints raw) e
         \<and> count_list (the (map_of (byAssetCategory (parseEndpoints t raw))
                                (asset e @ ''/'' @ category e))) e
             = count_list (indexedEndpoints raw) e)"
proof -
  let ?acc = "fold parseStep raw (emptyCatalog t)"
  let ?E = "indexedEndpoints raw"
  have ag: "indexesAgree ?acc"
    by (rule fold_parseStep_agree [OF emptyCatalog_agree])
  have en: "endpoints ?acc = ?E"
    using fold_parseStep_endpoints [of raw "emptyCatalog t"] by (simp add: emptyCatalog_def)
  have e1: "endpoints (parseEndpoints t raw) = ?E"
    using en by (simp add: parseEndpoints_def Let_def)
  have a1: "\<And>k. map_of (byAsset (parseEndpoints t raw)) k = indexAt asset ?E k"
    using ag en by (simp add: parseEndpoints_def Let_def indexesAgree_def)
  have c1: "\<And>k. map_of (byCategory (parseEndpoints t raw)) k = indexAt category ?E k"
    using ag en by (simp add: parseEndpoints_def Let_def indexesAgree_def)
  have ac1: "\<And>k. map_of (byAssetCategory (parseEndpoints t raw)) k = indexAt compositeKey ?E k"
    using ag en by (simp add: parseEndpoints_def Let_def indexesAgree_def)
  have ac2: "\<And>a c. map_of (byAssetCategory (parseEndpoints t raw)) (a @ ''/'' @ c)
                = indexAt (\<lambda>e. (asset e, category e)) ?E (a, c)"
    unfolding ac1 by (rule composite_index)
  have d: "distinct (map fst (byAsset (parseEndpoints t raw)))"
          "distinct (map fst (byCategory (parseEndpoints t raw)))"
          "distinct (map fst (byAssetCategory (parseEndpoints t raw)))"
    using ag by (simp_all add: parseEndpoints_def Let_def indexesAgree_def)
  have m: "\<And>e. e \<in> set ?E \<Longrightarrow>
         wellFormedPath (path e)
         \<and> asset e = split_str CHR ''/'' (path e) ! 2
         \<and> category e = split_str CHR ''/'' (path e) ! 3
         \<and> count_list (the (map_of (byAsset (parseEndpoints t raw)) (asset e))) e = count_list ?E e
         \<and> count_list (the (map_of (byCategory (parseEndpoints t raw)) (category e))) e = count_list ?E e
         \<and> count_list (the (map_of (byAssetCategory (parseEndpoints t raw))
                                (asset e @ ''/'' @ category e))) e = count_list ?E e"
  proof -
    fix e assume e: "e \<in> set ?E"
    have "count_list (the (indexAt compositeKey ?E (compositeKey e))) e = count_list ?E e"
      by (rule count_indexAt [OF e])
    then have "count_list (the (indexAt compositeKey ?E (asset e @ ''/'' @ category e))) e = count_list ?E e"
      by (simp add: compositeKey_def)
    then show "wellFormedPath (path e)
         \<and> asset e = split_str CHR ''/'' (path e) ! 2
         \<and> category e = split_str CHR ''/'' (path e) ! 3
         \<and> count_list (the (map_of (byAsset (parseEndpoints t raw)) (asset e))) e = count_list ?E e
         \<and> count_list (the (map_of (byCategory (parseEndpoints t raw)) (category e))) e = count_list ?E e
         \<and> count_list (the (map_of (byAssetCategory (parseEndpoints t raw))
                                (asset e @ ''/'' @ category e))) e = count_list ?E e"
      using indexed_segments [OF e] count_indexAt [OF e, of asset] count_indexAt [OF e, of category]
      unfolding a1 c1 ac1 by simp
  qed
  have w: "\<And>ep e. \<not> wellFormedPath (path ep) \<Longrightarrow> e \<in> set ?E \<Longrightarrow> path e \<noteq> path ep"
    using indexed_segments by metis
  show ?thesis
    using e1 a1 c1 ac1 ac2 d w m by blast
qed


lemma exRaw_indexed:
  "indexedEndpoints exRaw =
     [\<lparr>path = ''/v1/btc/market-data/price-ohlcv'', parameters = [(''window'', [''day'', ''hour''])],
       required_parameters = [''window''], asset = ''btc'', category = ''market-data'',
       metric = ''price-ohlcv''\<rparr>,
      \<lparr>path = ''/v1/btc/exchange-flows/reserve'', parameters = [], required_parameters = [],
       asset = ''btc'', category = ''exchange-flows'', metric = ''reserve''\<rparr>,
      \<lparr>path = ''/v1/eth/market-data/price-ohlcv'', parameters = [], required_parameters = [],
       asset = ''eth'', category = ''market-data'', metric = ''price-ohlcv''\<rparr>]"
  by (simp add: exRaw_def indexedEndpoints_def indexed_def wellFormedPath_def)

theorem parseEndpoints_indexes_witness:
  "map path (endpoints (parseEndpoints 0 exRaw))
     = [''/v1/btc/market-data/price-ohlcv'', ''/v1/btc/exchange-flows/reserve'',
        ''/v1/eth/market-data/price-ohlcv'']
   \<and> map_option (map path) (map_of (byAsset (parseEndpoints 0 exRaw)) ''btc'')
       = Some [''/v1/btc/market-data/price-ohlcv'', ''/v1/btc/exchange-flows/reserve'']
   \<and> map_option (map path) (map_of (byCategory (parseEndpoints 0 exRaw)) ''market-data'')
       = Some [''/v1/btc/market-data/price-ohlcv'', ''/v1/eth/market-data/price-ohlcv'']
   \<and> map_option (map path) (map_of (byAssetCategory (parseEndpoints 0 exRaw)) ''btc/market-data'')
       = Some [''/v1/btc/market-data/price-ohlcv'']
   \<and> map_of (byAsset (parseEndpoints 0 exRaw)) ''v1'' = None
   \<and> \<not> wellFormedPath ''/v1/status''"
proof -
  note T = parseEndpoints_indexes [of 0 exRaw]
  have 1: "endpoints (parseEndpoints 0 exRaw) = indexedEndpoints exRaw"
    using T by (rule conjunct1)
  have 2: "map_of (byAsset (parseEndpoints 0 exRaw)) k = indexAt asset (indexedEndpoints exRaw) k" for k
    using T [THEN conjunct2, THEN conjunct1] by (rule spec)
  have 3: "map_of (byCategory (parseEndpoints 0 exRaw)) k = indexAt category (indexedEndpoints exRaw) k" for k
    using T [THEN conjunct2, THEN conjunct2, THEN conjunct1] by (rule spec)
  have 4: "map_of (byAssetCategory (parseEndpoints 0 exRaw)) k
             = indexAt compositeKey (indexedEndpoints exRaw) k" for k
    using T [THEN conjunct2, THEN conjunct2, THEN conjunct2, THEN conjunct1] by (rule spec)
  show ?thesis
    unfolding 1 2 3 4 exRaw_indexed
    by (simp add: indexAt_def compositeKey_def wellFormedPath_def)
qed

subsection \<open>Parameter validation\<close>

lemma fold_missing:
  "fold (\<lambda>required errs. if missingRequired params required
                           then errs @ [''Missing required parameter: '' @ required] else errs) rs acc
     = acc @ map (\<lambda>r. ''Missing required parameter: '' @ r) (filter (missingRequired params) rs)"
  by (induction rs arbitrary: acc) simp_all

lemma missingRequired_plain:
  "r \<notin> set objectPrototypeNames \<Longrightarrow> missingRequired params r = absentParam params r"
  by (auto simp: missingRequired_def absentParam_def getProp_def split: option.splits json.splits)

lemma missing_plain:
  "plainNames rs \<Longrightarrow> filter (missingRequired params) rs = filter (absentParam params) rs"
  by (rule filter_cong) (simp_all add: plainNames_def missingRequired_plain)

lemma checkParam_plain:
  "fst kv \<notin> set objectPrototypeNames \<Longrightarrow>
     checkParam endpoint kv errs = Inr (errs @ invalidError endpoint kv)"
  by (simp add: checkParam_def invalidError_def getProp_def split: option.splits json.splits)

lemma fold_invalid:
  "plainNames (map fst ps) \<Longrightarrow>
     fold (\<lambda>kv acc. case acc of Inl e \<Rightarrow> Inl e | Inr errs \<Rightarrow> checkParam endpoint kv errs)
          ps (Inr acc)
       = Inr (acc @ invalidErrors endpoint ps)"
proof (induction ps arbitrary: acc)
  case Nil
  show ?case by (simp add: invalidErrors_def)
next
  case (Cons kv ps)
  have k: "fst kv \<notin> set objectPrototypeNames" and r: "plainNames (map fst ps)"
    using Cons.prems by (simp_all add: plainNames_def)
  have "fold (\<lambda>kv acc. case acc of Inl e \<Rightarrow> Inl e | Inr errs \<Rightarrow> checkParam endpoint kv errs)
          (kv # ps) (Inr acc)
        = fold (\<lambda>kv acc. case acc of Inl e \<Rightarrow> Inl e | Inr errs \<Rightarrow> checkParam endpoint kv errs)
            ps (Inr (acc @ invalidError endpoint kv))"
    by (simp add: checkParam_plain [OF k])
  also have "\<dots> = Inr ((acc @ invalidError endpoint kv) @ invalidErrors endpoint ps)"
    by (rule Cons.IH [OF r])
  finally show ?case by (simp add: invalidErrors_def)
qed

text \<open>A throw in the second loop ends the call, whatever came before and after.\<close>

lemma fold_thrown:
  "fold (\<lambda>kv acc. case acc of Inl e \<Rightarrow> Inl e | Inr errs \<Rightarrow> checkParam endpoint kv errs) ps (Inl e)
     = Inl e"
  by (induction ps) simp_all

lemma invalidError_elim:
  assumes "m \<in> set (invalidError endpoint (k, v))"
  shows "\<exists>s al. v = Some (JStr s) \<and> map_of (parameters endpoint) k = Some al
            \<and> s \<notin> set al \<and> m = invalidValueMessage k s al"
proof (cases v)
  case None
  with assms show ?thesis by (simp add: invalidError_def)
next
  case (Some j)
  show ?thesis
  proof (cases "\<exists>s. j = JStr s")
    case False
    with assms Some show ?thesis by (cases j) (simp_all add: invalidError_def)
  next
    case True
    then obtain s where s: "j = JStr s" by blast
    show ?thesis
    proof (cases "map_of (parameters endpoint) k")
      case None
      with assms Some s show ?thesis by (simp add: invalidError_def)
    next
      case al: (Some al)
      with assms Some s have "s \<notin> set al \<and> m = invalidValueMessage k s al"
        by (simp add: invalidError_def split: if_splits)
      with Some s al show ?thesis by simp
    qed
  qed
qed

lemma validate_errors:
  "plainNames (required_parameters endpoint @ map fst params) \<Longrightarrow>
     validateEndpointParams endpoint params
       = Inr \<lparr>pv_valid = (missingErrors endpoint params @ invalidErrors endpoint params = []),
              errors = missingErrors endpoint params @ invalidErrors endpoint params\<rparr>"
proof -
  assume "plainNames (required_parameters endpoint @ map fst params)"
  then have r: "plainNames (required_parameters endpoint)" and k: "plainNames (map fst params)"
    by (simp_all add: plainNames_def)
  show ?thesis
    by (simp add: validateEndpointParams_def Let_def fold_missing fold_invalid [OF k]
          missingErrors_def missing_plain [OF r])
qed

lemma missing_reported:
  "r \<in> set (required_parameters endpoint) \<Longrightarrow> absentParam params r \<Longrightarrow>
     ''Missing required parameter: '' @ r \<in> set (missingErrors endpoint params)"
  by (simp add: missingErrors_def)

lemma invalid_reported:
  assumes "(k, Some (JStr s)) \<in> set params" and "map_of (parameters endpoint) k = Some allowedValues"
    and "s \<notin> set allowedValues"
  shows "invalidValueMessage k s allowedValues \<in> set (invalidErrors endpoint params)"
proof -
  have "invalidValueMessage k s allowedValues \<in> set (invalidError endpoint (k, Some (JStr s)))"
    using assms(2,3) by (simp add: invalidError_def)
  with assms(1) show ?thesis
    unfolding invalidErrors_def by auto
qed

lemma invalid_only:
  assumes "m \<in> set (invalidErrors endpoint params)"
  shows "\<exists>k s allowedValues.
           (k, Some (JStr s)) \<in> set params \<and> map_of (parameters endpoint) k = Some allowedValues
           \<and> s \<notin> set allowedValues \<and> m = invalidValueMessage k s allowedValues"
proof -
  obtain kv where kv: "kv \<in> set params" "m \<in> set (invalidError endpoint kv)"
    using assms unfolding invalidErrors_def by auto
  obtain k v where e: "kv = (k, v)" by (cases kv)
  have "\<exists>s al. v = Some (JStr s) \<and> map_of (parameters endpoint) k = Some al
          \<and> s \<notin> set al \<and> m = invalidValueMessage k s al"
    using kv(2) unfolding e by (rule invalidError_elim)
  then show ?thesis
    using kv(1) e by blast
qed

text \<open>
  Claim C9, as the code has it by design. For every endpoint and supplied-parameter
  map whose required names and supplied keys are not names of \<^verbatim>\<open>Object.prototype\<close>,
  \<open>validateEndpointParams\<close> returns; it reports an error for every required parameter
  that is absent (undefined or null) and an error for every supplied \<^emph>\<open>string\<close> value
  of a declared parameter that is not in that parameter's allowed values; it flags
  nothing for names the endpoint does not declare, nor for values that are not
  strings; and it returns valid exactly when the error list is empty.
\<close>

theorem validateEndpointParams_reports:
  "plainNames (required_parameters endpoint @ map fst params) \<longrightarrow>
   (\<exists>res. validateEndpointParams endpoint params = Inr res
      \<and> errors res = missingErrors endpoint params @ invalidErrors endpoint params
      \<and> pv_valid res = (errors res = [])
      \<and> (\<forall>r \<in> set (required_parameters endpoint).
            absentParam params r \<longrightarrow> ''Missing required parameter: '' @ r \<in> set (errors res))
      \<and> (\<forall>k s allowedValues.
            (k, Some (JStr s)) \<in> set params \<and> map_of (parameters endpoint) k = Some allowedValues
              \<and> s \<notin> set allowedValues \<longrightarrow>
              invalidValueMessage k s allowedValues \<in> set (errors res))
      \<and> (\<forall>m \<in> set (invalidErrors endpoint params).
            \<exists>k s allowedValues.
              (k, Some (JStr s)) \<in> set params \<and> map_of (parameters endpoint) k = Some allowedValues
              \<and> s \<notin> set allowedValues \<and> m = invalidValueMessage k s allowedValues))"
proof
  assume h: "plainNames (required_parameters endpoint @ map fst params)"
  let ?errs = "missingErrors endpoint params @ invalidErrors endpoint params"
  let ?res = "\<lparr>pv_valid = (?errs = []), errors = ?errs\<rparr>"
  have a: "validateEndpointParams endpoint params = Inr ?res"
    using h by (rule validate_errors)
  have b: "\<forall>r \<in> set (required_parameters endpoint).
            absentParam params r \<longrightarrow> ''Missing required parameter: '' @ r \<in> set ?errs"
    using missing_reported [of _ endpoint params] by simp
  have c: "\<forall>k s allowedValues.
            (k, Some (JStr s)) \<in> set params \<and> map_of (parameters endpoint) k = Some allowedValues
              \<and> s \<notin> set allowedValues \<longrightarrow>
              invalidValueMessage k s allowedValues \<in> set ?errs"
    using invalid_reported [of _ _ params endpoint] by simp
  have d: "\<forall>m \<in> set (invalidErrors endpoint params).
            \<exists>k s allowedValues.
              (k, Some (JStr s)) \<in> set params \<and> map_of (parameters endpoint) k = Some allowedValues
              \<and> s \<notin> set allowedValues \<and> m = invalidValueMessage k s allowedValues"
    using invalid_only [of _ endpoint params] by blast
  show "\<exists>res. validateEndpointParams endpoint params = Inr res
      \<and> errors res = missingErrors endpoint params @ invalidErrors endpoint params
      \<and> pv_valid res = (errors res = [])
      \<and> (\<forall>r \<in> set (required_parameters endpoint).
            absentParam params r \<longrightarrow> ''Missing required parameter: '' @ r \<in> set (errors res))
      \<and> (\<forall>k s allowedValues.
            (k, Some (JStr s)) \<in> set params \<and> map_of (parameters endpoint) k = Some allowedValues
              \<and> s \<notin> set allowedValues \<longrightarrow>
              invalidValueMessage k s allowedValues \<in> set (errors res))
      \<and> (\<forall>m \<in> set (invalidErrors endpoint params).
            \<exists>k s allowedValues.
              (k, Some (JStr s)) \<in> set params \<and> map_of (parameters endpoint) k = Some allowedValues
              \<and> s \<notin> set allowedValues \<and> m = invalidValueMessage k s allowedValues)"
    apply (rule exI [of _ ?res])
    using a b c d by simp
qed

theorem validateEndpointParams_reports_witness:
  "plainNames (required_parameters exEndpoint
      @ map fst [(''limit'', Some (JStr ''5'')), (''exchange'', Some (JStr ''binance''))])
   \<and> validateEndpointParams exEndpoint [(''limit'', Some (JStr ''5'')), (''exchange'', Some (JStr ''binance''))]
       = Inr \<lparr>pv_valid = False,
              errors = [''Missing required parameter: window'',
                        invalidValueMessage ''limit'' ''5'' [''100'', ''1000'']]\<rparr>"
proof -
  have h: "plainNames (required_parameters exEndpoint
      @ map fst [(''limit'', Some (JStr ''5'')), (''exchange'', Some (JStr ''binance''))])"
    by (simp add: plainNames_def exEndpoint_def objectPrototypeNames_def)
  show ?thesis
    using validateEndpointParams_reports
      [of exEndpoint "[(''limit'', Some (JStr ''5'')), (''exchange'', Some (JStr ''binance''))]"] h
    by (auto simp: exEndpoint_def missingErrors_def invalidErrors_def invalidError_def
          absentParam_def)
qed

text \<open>
  The claim as first stated asks for an error for every supplied value outside the
  allowed set. A number is such a value (the query schema declares \<^verbatim>\<open>limit\<close> a
  number), and the test \<^verbatim>\<open>typeof value === "string"\<close> lets it pass.
\<close>

theorem validateEndpointParams_number_counterexample:
  "map_of exParams ''limit'' = Some (Some (JNum 5000))
   \<and> map_of (parameters exEndpoint) ''limit'' = Some [''100'', ''1000'']
   \<and> JNum 5000 \<notin> set (map JStr [''100'', ''1000''])
   \<and> validateEndpointParams exEndpoint exParams = Inr \<lparr>pv_valid = True, errors = []\<rparr>"
  by (simp add: exParams_def exEndpoint_def validateEndpointParams_def missingRequired_def
        checkParam_def getProp_def objectPrototypeNames_def)

text \<open>
  Names of \<^verbatim>\<open>Object.prototype\<close> are left out of the claim above. There the property
  reads find inherited values: a required parameter of such a name is never reported
  missing, and a supplied string under such a name makes the call throw.
\<close>

lemma validateEndpointParams_inherited_names:
  "validateEndpointParams (exEndpoint\<lparr>required_parameters := [''constructor'']\<rparr>) []
     = Inr \<lparr>pv_valid = True, errors = []\<rparr>
   \<and> validateEndpointParams exEndpoint
        [(''window'', Some (JStr ''day'')), (''constructor'', Some (JStr ''x''))]
     = Inl TypeError"
  by (simp add: exEndpoint_def validateEndpointParams_def missingRequired_def
        checkParam_def getProp_def objectPrototypeNames_def)

subsection \<open>Decoding duration tokens\<close>


lemma unit_not_digit: "u \<in> set ''YMWD'' \<Longrightarrow> \<not> isDigit u"
  by (auto simp: isDigit_def)

lemma matchDuration_iff:
  "(matchDuration tok = Some (ds, u)) = isDurationForm tok ds u"
proof
  assume m: "matchDuration tok = Some (ds, u)"
  then obtain rest where tok: "tok = CHR ''P'' # rest"
    by (cases tok) (auto simp: matchDuration_def split: if_splits)
  from m tok have d: "dropWhile isDigit rest = [u]" "takeWhile isDigit rest = ds"
    "ds \<noteq> []" "u \<in> set ''YMWD''"
    by (auto simp: matchDuration_def Let_def split: list.splits if_splits)
  have "rest = takeWhile isDigit rest @ dropWhile isDigit rest" by simp
  then have "rest = ds @ [u]" using d by simp
  moreover have "\<forall>c \<in> set ds. isDigit c"
    using d(2) by (metis set_takeWhileD)
  ultimately show "isDurationForm tok ds u"
    using tok d by (simp add: isDurationForm_def)
next
  assume f: "isDurationForm tok ds u"
  then have tok: "tok = CHR ''P'' # ds @ [u]" and ds: "ds \<noteq> []" "\<forall>c \<in> set ds. isDigit c"
    and u: "u \<in> set ''YMWD''"
    by (simp_all add: isDurationForm_def)
  have nd: "\<not> isDigit u" by (rule unit_not_digit [OF u])
  have t: "takeWhile isDigit (ds @ [u]) = ds"
    using ds(2) nd by (simp add: takeWhile_append2)
  have dr: "dropWhile isDigit (ds @ [u]) = [u]"
    using ds(2) nd by (simp add: dropWhile_append2)
  show "matchDuration tok = Some (ds, u)"
    unfolding tok matchDuration_def using t dr ds(1) u by (simp add: Let_def)
qed

lemma matchDuration_None_iff:
  "(matchDuration tok = None) = (\<forall>ds u. \<not> isDurationForm tok ds u)"
proof -
  have "(matchDuration tok \<noteq> None) = (\<exists>ds u. matchDuration tok = Some (ds, u))" by auto
  then show ?thesis unfolding matchDuration_iff by blast
qed

lemma MonthFromTime_range: "0 \<le> MonthFromTime t \<and> MonthFromTime t \<le> 11"
  by (simp add: MonthFromTime_def Let_def)

lemma MakeDay_same_month:
  "MakeDay (YearFromTime t) (MonthFromTime t) (DateFromTime t + k) = Day t + k"
proof -
  have "MonthFromTime t div 12 = 0" "MonthFromTime t mod 12 = MonthFromTime t"
    using MonthFromTime_range [of t] by simp_all
  then show ?thesis
    by (simp add: MakeDay_def DateFromTime_def DayWithinYear_def Let_def)
qed

lemma MakeDate_Day: "MakeDate (Day t + k) (TimeWithinDay t) = t + k * msPerDay"
proof -
  have "t = (t div msPerDay) * msPerDay + t mod msPerDay" by simp
  then show ?thesis
    by (simp add: MakeDate_def Day_def TimeWithinDay_def algebra_simps)
qed

text \<open>Setting the day of the month to the current one plus \<open>k\<close> moves the local time
  by \<open>k\<close> days and keeps the local time of day.\<close>

lemma setDate_shift:
  "setDate env tv (getDate env tv + k) = TimeClip (localDayShift env tv k)"
  by (simp add: setDate_def getDate_def Let_def MakeDay_same_month MakeDate_Day localDayShift_def)

text \<open>In a zone with a constant offset that is the instant \<open>k\<close> times 24 hours away.\<close>

lemma localDayShift_constant:
  "\<forall>t u. localTZA env t u = z \<Longrightarrow> localDayShift env tv k = tv + k * msPerDay"
  by (simp add: localDayShift_def UTC_def LocalTime_def)

text \<open>With offsets of at most a day either way, it is within two days of that instant.\<close>

lemma localDayShift_near:
  assumes "\<forall>t u. \<bar>localTZA env t u\<bar> \<le> msPerDay"
  shows "\<bar>localDayShift env tv k - (tv + k * msPerDay)\<bar> \<le> 2 * msPerDay"
proof -
  have a: "\<bar>localTZA env tv True\<bar> \<le> msPerDay"
    using assms by blast
  have b: "\<bar>localTZA env (tv + localTZA env tv True + k * msPerDay) False\<bar> \<le> msPerDay"
    using assms by blast
  show ?thesis
    using a b by (simp add: localDayShift_def UTC_def LocalTime_def)
qed

text \<open>
  Claim C8. For every duration token: the unlimited sentinel \<open>P0D\<close> decodes to null;
  a token of the form one quantity followed by one unit letter of Y, M, W, D decodes
  to now minus that many calendar units (year and month subtraction adjust the
  calendar fields; a week is seven days); any token not of that form decodes to null.
  The calendar is the local one: \<open>calendarMinus\<close> takes the fields of the local time
  and converts the result back, with the zone's offset at each of the two instants.
\<close>

theorem parseDurationToDate_decodes:
  "parseDurationToDate env ''P0D'' = None
   \<and> ((\<forall>ds u. \<not> isDurationForm tok ds u) \<longrightarrow> parseDurationToDate env tok = None)
   \<and> (isDurationForm tok ds u \<and> tok \<noteq> ''P0D'' \<longrightarrow>
        parseDurationToDate env tok = Some (calendarMinus env u (int (parseInt ds))))"
proof -
  have 1: "parseDurationToDate env ''P0D'' = None"
    by (simp add: parseDurationToDate_def)
  have 2: "(\<forall>ds u. \<not> isDurationForm tok ds u) \<Longrightarrow> parseDurationToDate env tok = None"
    using matchDuration_None_iff [of tok] by (simp add: parseDurationToDate_def)
  have 3: "isDurationForm tok ds u \<Longrightarrow> tok \<noteq> ''P0D'' \<Longrightarrow>
        parseDurationToDate env tok = Some (calendarMinus env u (int (parseInt ds)))"
  proof -
    assume f: "isDurationForm tok ds u" and n: "tok \<noteq> ''P0D''"
    have m: "matchDuration tok = Some (ds, u)" using f by (simp add: matchDuration_iff)
    have u: "u = CHR ''Y'' \<or> u = CHR ''M'' \<or> u = CHR ''W'' \<or> u = CHR ''D''"
      using f by (auto simp: isDurationForm_def)
    have w: "setDate env (now env) (getDate env (now env) - int (parseInt ds) * 7)
               = TimeClip (localDayShift env (now env) (- (7 * int (parseInt ds))))"
      using setDate_shift [of env "now env" "- (int (parseInt ds) * 7)"]
      by (simp add: localDayShift_def algebra_simps)
    have d: "setDate env (now env) (getDate env (now env) - int (parseInt ds))
               = TimeClip (localDayShift env (now env) (- int (parseInt ds)))"
      using setDate_shift [of env "now env" "- int (parseInt ds)"]
      by (simp add: localDayShift_def algebra_simps)
    show ?thesis
      using u n m w d
      by (auto simp: parseDurationToDate_def calendarMinus_def Let_def setFullYear_def
            setMonth_def getFullYear_def getMonth_def)
  qed
  show ?thesis using 1 2 3 by blast
qed


lemma exIso2023: "toISOString (DateOf 1698921000123) = Inr ''2023-11-02T10:30:00.123Z''"
  by code_simp

lemma exIsoNow: "toISOString (DateOf (now exEnv)) = Inr ''2026-11-02T10:30:00.123Z''"
  by code_simp

lemma exMinus3Y: "calendarMinus exEnv CHR ''Y'' (int (parseInt ''3'')) = DateOf 1698921000123"
  by code_simp

lemma exMinus2W: "calendarMinus exEnv CHR ''W'' (int (parseInt ''2'')) = DateOf 1792405800123"
  by code_simp

text \<open>One week back from Monday 2 November 2026, 05:30 in New York, is Monday 26
  October, 05:30 in New York: 09:30 UTC, before the clocks went back.\<close>

lemma exIsoNewYork: "toISOString (DateOf 1793007000123) = Inr ''2026-10-26T09:30:00.123Z''"
  by code_simp

lemma exMinus1W: "calendarMinus exNewYork CHR ''W'' (int (parseInt ''1'')) = DateOf 1793007000123"
  by code_simp

theorem parseDurationToDate_decodes_witness:
  "isDurationForm ''P3Y'' ''3'' CHR ''Y''
   \<and> parseDurationToDate exEnv ''P3Y'' = Some (DateOf 1698921000123)
   \<and> toISOString (DateOf 1698921000123) = Inr ''2023-11-02T10:30:00.123Z''
   \<and> parseDurationToDate exEnv ''P2W'' = Some (DateOf (now exEnv - 14 * msPerDay))
   \<and> toISOString (DateOf (now exEnv)) = Inr ''2026-11-02T10:30:00.123Z''
   \<and> now exNewYork = now exEnv
   \<and> parseDurationToDate exNewYork ''P1W'' = Some (DateOf 1793007000123)
   \<and> toISOString (DateOf 1793007000123) = Inr ''2026-10-26T09:30:00.123Z''"
proof -
  have f: "isDurationForm ''P3Y'' ''3'' CHR ''Y''" "isDurationForm ''P2W'' ''2'' CHR ''W''"
    "isDurationForm ''P1W'' ''1'' CHR ''W''"
    by (simp_all add: isDurationForm_def isDigit_def)
  have "parseDurationToDate exNewYork ''P1W''
          = Some (calendarMinus exNewYork CHR ''W'' (int (parseInt ''1'')))"
    using parseDurationToDate_decodes [of exNewYork "''P1W''" "''1''" "CHR ''W''"] f by simp
  moreover
  have "parseDurationToDate exEnv ''P3Y'' = Some (calendarMinus exEnv CHR ''Y'' (int (parseInt ''3'')))"
    using parseDurationToDate_decodes [of exEnv "''P3Y''" "''3''" "CHR ''Y''"] f by simp
  moreover
  have "parseDurationToDate exEnv ''P2W'' = Some (calendarMinus exEnv CHR ''W'' (int (parseInt ''2'')))"
    using parseDurationToDate_decodes [of exEnv "''P2W''" "''2''" "CHR ''W''"] f by simp
  moreover have "now exEnv - 14 * msPerDay = 1792405800123"
    by (simp add: exEnv_def msPerDay_def)
  moreover have "now exNewYork = now exEnv"
    by (simp add: exNewYork_def)
  ultimately show ?thesis
    using f exMinus3Y exMinus2W exMinus1W exIso2023 exIsoNow exIsoNewYork by simp
qed

subsection \<open>Date-range validation\<close>

text \<open>The limit \<open>getPlanLimit\<close> finds: the named window when its entry is a non-empty
  token, else the first window; for a window type that is no key of the window object
  and not an inherited name either, the first window.\<close>

lemma getPlanLimit_named:
  "getMetricLimits env st p = Inr (Some ml) \<Longrightarrow> w \<noteq> [] \<Longrightarrow> map_of (window ml) w = Some v
     \<Longrightarrow> v \<noteq> [] \<Longrightarrow> getPlanLimit env st p (Some w) = Inr (Some (Duration v))"
  by (simp add: getPlanLimit_def getProp_def)

lemma getPlanLimit_first:
  "getMetricLimits env st p = Inr (Some ml) \<Longrightarrow> window ml = (k, v) # ws
     \<Longrightarrow> wt = None \<or> (map_of (window ml) (the wt) = None \<and> the wt \<notin> set objectPrototypeNames)
     \<Longrightarrow> getPlanLimit env st p wt = Inr (Some (Duration v))"
proof (cases wt)
  case None
  assume "getMetricLimits env st p = Inr (Some ml)" "window ml = (k, v) # ws"
  with None show ?thesis by (simp add: getPlanLimit_def)
next
  case (Some w)
  assume m: "getMetricLimits env st p = Inr (Some ml)" and f: "window ml = (k, v) # ws"
    and "wt = None \<or> (map_of (window ml) (the wt) = None \<and> the wt \<notin> set objectPrototypeNames)"
  with Some have g: "getProp (window ml) w = Missing"
    by (simp add: getProp_def)
  have "getPlanLimit env st p wt
          = Inr (case window ml of [] \<Rightarrow> None | (k, v) # ws \<Rightarrow> Some (Duration v))"
    by (simp add: getPlanLimit_def Let_def Some m g)
  then show ?thesis
    using f by simp
qed

text \<open>A window type that is an inherited name, and no key of the window object, finds
  a built-in value.\<close>

lemma getPlanLimit_inherited:
  "getMetricLimits env st p = Inr (Some ml) \<Longrightarrow> map_of (window ml) w = None
     \<Longrightarrow> w \<in> set objectPrototypeNames \<Longrightarrow> getPlanLimit env st p (Some w) = Inr (Some BuiltIn)"
  by (auto simp: getPlanLimit_def getProp_def objectPrototypeNames_def)

lemma show_nat_small: "n < 10 \<Longrightarrow> show_nat n = [digitChar n]"
  by (simp add: show_nat.simps [of n])

lemma show_nat_step: "\<not> n < 10 \<Longrightarrow> show_nat n = show_nat (n div 10) @ [digitChar (n mod 10)]"
  by (simp add: show_nat.simps [of n])

lemma digitChar_digit: "n < 10 \<Longrightarrow> isDigit (digitChar n)"
  unfolding isDigit_def digitChar_def by (rule nth_mem) simp

lemma show_nat_digits: "c \<in> set (show_nat n) \<Longrightarrow> isDigit c"
proof (induction n arbitrary: c rule: show_nat.induct)
  case (1 n)
  show ?case
  proof (cases "n < 10")
    case True
    with 1(2) show ?thesis by (simp add: show_nat_small digitChar_digit)
  next
    case False
    with 1(2) have "c \<in> set (show_nat (n div 10)) \<or> c = digitChar (n mod 10)"
      by (auto simp: show_nat_step)
    then show ?thesis
      using 1(1) [OF False] digitChar_digit [of "n mod 10"] by auto
  qed
qed

lemma pad_digits: "c \<in> set (pad w n) \<Longrightarrow> isDigit c"
proof -
  assume "c \<in> set (pad w n)"
  then have "c = CHR ''0'' \<or> c \<in> set (show_nat n)"
    by (auto simp: pad_def)
  then show ?thesis
  proof
    assume "c = CHR ''0''"
    then show ?thesis by (simp add: isDigit_def)
  next
    assume "c \<in> set (show_nat n)"
    then show ?thesis by (rule show_nat_digits)
  qed
qed

lemma T_not_digit: "\<not> isDigit CHR ''T''"
  by (simp add: isDigit_def)

lemma pad_no_T: "CHR ''T'' \<notin> set (pad w n)"
  using pad_digits [of "CHR ''T''" w n] T_not_digit by blast

lemma isoDatePart_no_T: "CHR ''T'' \<notin> set (isoDatePart t)"
  by (simp add: isoDatePart_def Let_def pad_no_T)

lemma hd_split_str: "sep \<notin> set a \<Longrightarrow> hd (split_str sep (a @ sep # b)) = a"
proof (induction a)
  case Nil
  show ?case by simp
next
  case (Cons x xs)
  obtain q qs where q: "split_str sep (xs @ sep # b) = q # qs"
    using split_str_nonempty [of sep "xs @ sep # b"] by (cases "split_str sep (xs @ sep # b)") auto
  with Cons show ?case by auto
qed

lemma iso_date_only:
  "toISOString (DateOf e) = Inr s \<Longrightarrow> hd (split_str CHR ''T'' s) = isoDatePart e"
  using hd_split_str [OF isoDatePart_no_T] by auto

lemma vdr_gate:
  "dateChecked env st p fd \<Longrightarrow>
   validateDateRange env st p (Some fd) wt =
     (case getPlanLimit env st p wt of
        Inl e \<Rightarrow> Inl e
      | Inr None \<Rightarrow> Inr (rangeError ''No access to this endpoint/window combination'')
      | Inr (Some BuiltIn) \<Rightarrow> Inl TypeError
      | Inr (Some (Duration lmt)) \<Rightarrow>
          if lmt = [] then Inr (rangeError ''No access to this endpoint/window combination'')
          else if lmt = ''P0D'' then Inr rangeOk
          else (case parseDurationToDate env lmt of
                  None \<Rightarrow> Inr rangeOk
                | Some earliestDate \<Rightarrow>
                    if newDate env fd = InvalidDate then Inr (rangeError ''Invalid date format'')
                    else if dateLess (newDate env fd) earliestDate then
                      (case toISOString earliestDate of
                         Inl e \<Rightarrow> Inl e
                       | Inr isoStr \<Rightarrow>
                           Inr \<lparr>valid = False, error = Some ''Date range exceeds plan limit'',
                                earliest_allowed = Some (hd (split_str CHR ''T'' isoStr)),
                                limit = Some lmt\<rparr>)
                    else Inr rangeOk))"
proof -
  assume c: "dateChecked env st p fd"
  then have v: "validateDateRange env st p (Some fd) wt
      = (case getPlanLimit env st p wt of
           Inl e \<Rightarrow> Inl e
         | Inr None \<Rightarrow> Inr (rangeError ''No access to this endpoint/window combination'')
         | Inr (Some BuiltIn) \<Rightarrow> Inl TypeError
         | Inr (Some (Duration lmt)) \<Rightarrow>
             if lmt = [] then Inr (rangeError ''No access to this endpoint/window combination'')
             else if lmt = ''P0D'' then Inr rangeOk
             else (case parseDurationToDate env lmt of
                     None \<Rightarrow> Inr rangeOk
                   | Some earliestDate \<Rightarrow>
                       (let requestedDate = newDate env fd
                        in if requestedDate = InvalidDate then
                             Inr (rangeError ''Invalid date format'')
                           else if dateLess requestedDate earliestDate then
                             (case toISOString earliestDate of
                                Inl e \<Rightarrow> Inl e
                              | Inr isoStr \<Rightarrow>
                                  Inr \<lparr>valid = False,
                                       error = Some ''Date range exceeds plan limit'',
                                       earliest_allowed = Some (hd (split_str CHR ''T'' isoStr)),
                                       limit = Some lmt\<rparr>)
                           else Inr rangeOk)))"
    by (simp add: dateChecked_def validateDateRange_def)
  show ?thesis
    unfolding v by (simp add: Let_def split: sum.splits option.splits LimitValue.splits)
qed




















lemma exMetric:
  "getMetricLimits exEnv exState ''/v1/btc/market-data/price-ohlcv''
     = Inr (Some \<lparr>window = [(''day'', ''P3Y''), (''hour'', ''P1D'')]\<rparr>)"
  by (simp add: getMetricLimits_def getProp_def parseEndpointPath_def exState_def exLimits_def Let_def)

lemma exLimit:
  "getPlanLimit exEnv exState ''/v1/btc/market-data/price-ohlcv'' None = Inr (Some (Duration ''P3Y''))"
  by (simp add: getPlanLimit_def exMetric)

lemma exAccess: "dateChecked exEnv exState ''/v1/btc/market-data/price-ohlcv'' fd = (fd \<noteq> [])"
  by (simp add: dateChecked_def hasEndpointAccess_def exLimit) (simp add: exState_def)



text \<open>
  Window types and path segments that are names of \<^verbatim>\<open>Object.prototype\<close> are left
  out of the claim above: there \<open>getPlanLimit\<close> finds a built-in value, or the read of
  the table throws, and the call ends in a \<^verbatim>\<open>TypeError\<close>.
\<close>

lemma validateDateRange_inherited_names:
  "validateDateRange exEnv exState ''/v1/btc/market-data/price-ohlcv'' (Some ''2000-01-01'')
       (Some ''constructor'') = Inl TypeError
   \<and> validateDateRange exEnv exState ''/v1/constructor/caller/x'' (Some ''2000-01-01'') None
       = Inl TypeError"
proof -
  have "getPlanLimit exEnv exState ''/v1/btc/market-data/price-ohlcv'' (Some ''constructor'')
          = Inr (Some BuiltIn)"
    by (rule getPlanLimit_inherited [OF exMetric]) (simp_all add: objectPrototypeNames_def)
  then have a: "validateDateRange exEnv exState ''/v1/btc/market-data/price-ohlcv''
       (Some ''2000-01-01'') (Some ''constructor'') = Inl TypeError"
    by (simp add: vdr_gate exAccess)
  have "tableReadThrows exEnv exState ''/v1/constructor/caller/x''"
    by (simp add: tableReadThrows_def exState_def exLimits_def exEnv_def
          objectPrototypeNames_def restrictedNames_def)
  then have "getPlanLimit exEnv exState ''/v1/constructor/caller/x'' None = Inl TypeError"
    by (rule getPlanLimit_throws)
  then have b: "validateDateRange exEnv exState ''/v1/constructor/caller/x'' (Some ''2000-01-01'')
       None = Inl TypeError"
    by (simp add: validateDateRange_def hasEndpointAccess_def exState_def)
  show ?thesis using a b by simp
qed

subsection \<open>The session coordinator and the cache\<close>

lemma init_miss:
  "cacheUnusable env s k u \<Longrightarrow>
   initializePermissions env s k u dr pr = (Inr (fst (initFresh env s k u dr pr)), snd (initFresh env s k u dr pr))"
  by (auto simp: cacheUnusable_def initializePermissions_def Let_def split: option.splits prod.splits)

lemma initFresh_discovery_fails:
  assumes "\<not> success (discoveryResult env s dr)"
  shows "fst (initFresh env s k u dr pr)
           = \<lparr>ir_success = False, ir_error = fr_error (discoveryResult env s dr), discovery_error = None,
              from_cache = False, cache_status = ''none'', ir_summary = None\<rparr>
         \<and> permissionState (snd (initFresh env s k u dr pr)) = permissionState s
         \<and> cacheFile (snd (initFresh env s k u dr pr)) = cacheFile s"
proof -
  obtain dres cat where d: "fetchDiscoveryEndpoints env dr (endpointCatalog s) = (dres, cat)"
    by (cases "fetchDiscoveryEndpoints env dr (endpointCatalog s)")
  with assms have "\<not> success dres" by (simp add: discoveryResult_def)
  then show ?thesis
    using d by (simp add: initFresh_def discoveryResult_def)
qed

text \<open>What \<open>initFresh\<close> does after a successful catalog fetch, in terms of the plan fetch.\<close>

lemma initFresh_after_discovery:
  assumes "success (discoveryResult env s dr)"
    and "fetchDiscoveryEndpoints env dr (endpointCatalog s) = (dres, cat)"
    and "fetchPlanLimits env pr (planLimitsState s) = (pres, pst)"
  shows "initFresh env s k u dr pr =
     (let s2 = s\<lparr>endpointCatalog := cat, planLimitsState := pst\<rparr>;
          authed = \<lparr>authenticated = True, api_key = Some k,
                    ps_cached_at = Some (now env), ps_plan = plan pst,
                    plan_limits_loaded = loaded pst, ps_from_cache = False\<rparr>;
          noCache = (noCacheResult, s2\<lparr>permissionState := authed\<rparr>)
      in (case (fp_rawResponse pres, fp_parsed pres) of
            (Some raw, Some pf) \<Rightarrow>
              if \<not> fp_success pres \<or> \<not> truthy raw then noCache
              else (case extractRawResponse raw of
                      None \<Rightarrow> noCache
                    | Some rawResponse \<Rightarrow>
                        (case generateSummary env (pf_limits pf) (pf_statics pf) of
                           Inl e \<Rightarrow> (initFailure (''Network error: '' @ errorName e), s2)
                         | Inr summ \<Rightarrow>
                             (case writeCache env u k rawResponse pf summ
                                     (case fp_plan pres of None \<Rightarrow> Unknown | Some p \<Rightarrow> p) of
                                Inl e \<Rightarrow> (initFailure (''Network error: '' @ errorName e), s2)
                              | Inr file \<Rightarrow>
                                  (\<lparr>ir_success = True, ir_error = None, discovery_error = None,
                                    from_cache = False, cache_status = ''fresh'',
                                    ir_summary = Some summ\<rparr>,
                                   s2\<lparr>cacheFile := file,
                                      cachedDiscovery := readCache file,
                                      permissionState := authed\<rparr>))))
          | _ \<Rightarrow> noCache))"
proof -
  from assms(1,2) have "success dres" by (simp add: discoveryResult_def)
  then show ?thesis
    using assms(2,3) by (simp add: initFresh_def noCacheResult_def Let_def)
qed

lemma fetchPlanLimits_forbidden:
  "status = 403 \<or> status = 500 \<Longrightarrow>
   fetchPlanLimits env (Response status statusText body) st =
     (\<lparr>fp_success = True, fp_error = None, fp_rawResponse = None,
       fp_parsed = Some \<lparr>pf_limits = None, pf_statics = [], pf_apiRateLimit = None\<rparr>,
       fp_plan = Some Basic\<rparr>,
      \<lparr>loaded = True, limits = None, plan = Basic, statics = [], apiRateLimit = None,
       fetched_at = Some (now env)\<rparr>)"
  by (auto simp: fetchPlanLimits_def DEFAULT_STATE_def)

lemma initFresh_forbidden:
  assumes "status = 403 \<or> status = 500" and "success (discoveryResult env s dr)"
  shows "fst (initFresh env s k u dr (Response status statusText body)) = noCacheResult
         \<and> authenticated (permissionState (snd (initFresh env s k u dr (Response status statusText body))))
         \<and> ps_plan (permissionState (snd (initFresh env s k u dr (Response status statusText body)))) = Basic
         \<and> planLimitsState (snd (initFresh env s k u dr (Response status statusText body)))
             = \<lparr>loaded = True, limits = None, plan = Basic, statics = [], apiRateLimit = None,
                fetched_at = Some (now env)\<rparr>
         \<and> cacheFile (snd (initFresh env s k u dr (Response status statusText body))) = cacheFile s"
proof -
  obtain dres cat where d: "fetchDiscoveryEndpoints env dr (endpointCatalog s) = (dres, cat)"
    by (cases "fetchDiscoveryEndpoints env dr (endpointCatalog s)")
  note p = fetchPlanLimits_forbidden [OF assms(1), of env statusText body "planLimitsState s"]
  show ?thesis
    unfolding initFresh_after_discovery [OF assms(2) d p]
    by (simp add: Let_def)
qed

lemma initFresh_plan_fails:
  assumes "success (discoveryResult env s dr)" and "\<not> fp_success (planResult env s pr)"
  shows "fst (initFresh env s k u dr pr) = noCacheResult
         \<and> authenticated (permissionState (snd (initFresh env s k u dr pr)))
         \<and> cacheFile (snd (initFresh env s k u dr pr)) = cacheFile s"
proof -
  obtain dres cat where d: "fetchDiscoveryEndpoints env dr (endpointCatalog s) = (dres, cat)"
    by (cases "fetchDiscoveryEndpoints env dr (endpointCatalog s)")
  obtain pres pst where p: "fetchPlanLimits env pr (planLimitsState s) = (pres, pst)"
    by (cases "fetchPlanLimits env pr (planLimitsState s)")
  have f: "\<not> fp_success pres" using assms(2) p by (simp add: planResult_def)
  show ?thesis
    unfolding initFresh_after_discovery [OF assms(1) d p]
    using f by (simp add: Let_def split: option.splits)
qed

lemma initFresh_written_only:
  assumes "cacheFile (snd (initFresh env s k u dr pr)) \<noteq> cacheFile s"
  shows "\<exists>raw pf rr. fp_rawResponse (planResult env s pr) = Some raw
           \<and> fp_parsed (planResult env s pr) = Some pf \<and> extractRawResponse raw = Some rr"
proof (cases "success (discoveryResult env s dr)")
  case False
  with assms show ?thesis using initFresh_discovery_fails [OF False, of k u pr] by simp
next
  case True
  obtain dres cat where d: "fetchDiscoveryEndpoints env dr (endpointCatalog s) = (dres, cat)"
    by (cases "fetchDiscoveryEndpoints env dr (endpointCatalog s)")
  obtain pres pst where p: "fetchPlanLimits env pr (planLimitsState s) = (pres, pst)"
    by (cases "fetchPlanLimits env pr (planLimitsState s)")
  have pr: "planResult env s pr = pres" using p by (simp add: planResult_def)
  show ?thesis
  proof (rule ccontr)
    assume n: "\<not> ?thesis"
    have "cacheFile (snd (initFresh env s k u dr pr)) = cacheFile s"
    proof (cases "fp_rawResponse pres")
      case None
      then show ?thesis unfolding initFresh_after_discovery [OF True d p] by (simp add: Let_def)
    next
      case raw: (Some raw)
      show ?thesis
      proof (cases "fp_parsed pres")
        case None
        with raw show ?thesis unfolding initFresh_after_discovery [OF True d p] by (simp add: Let_def)
      next
        case pf: (Some pf)
        from n raw pf have "extractRawResponse raw = None" unfolding pr by auto
        with raw pf show ?thesis unfolding initFresh_after_discovery [OF True d p] by (simp add: Let_def)
      qed
    qed
    with assms show False by simp
  qed
qed

text \<open>
  Claim C3. When the permission-payload fetch receives an HTTP 403 or 500 response,
  the fetch result is a success whose state has tier basic, a null permission table
  and an empty static list; and the enclosing initialize call (on a cache miss, after
  a successful catalog fetch, which is when the permission payload is fetched) still
  reports overall success with the session marked authenticated.
\<close>

theorem fetchPlanLimits_forbidden_basic:
  "(status = 403 \<or> status = 500 \<longrightarrow>
      fetchPlanLimits env (Response status statusText body) st =
        (\<lparr>fp_success = True, fp_error = None, fp_rawResponse = None,
          fp_parsed = Some \<lparr>pf_limits = None, pf_statics = [], pf_apiRateLimit = None\<rparr>,
          fp_plan = Some Basic\<rparr>,
         \<lparr>loaded = True, limits = None, plan = Basic, statics = [], apiRateLimit = None,
          fetched_at = Some (now env)\<rparr>))
   \<and> ((status = 403 \<or> status = 500) \<and> cacheUnusable env s k u \<and> success (discoveryResult env s dr) \<longrightarrow>
        fst (initializePermissions env s k u dr (Response status statusText body))
          = Inr \<lparr>ir_success = True, ir_error = None, discovery_error = None, from_cache = False,
                 cache_status = ''none'', ir_summary = None\<rparr>
        \<and> authenticated (permissionState (snd (initializePermissions env s k u dr (Response status statusText body))))
        \<and> ps_plan (permissionState (snd (initializePermissions env s k u dr (Response status statusText body)))) = Basic
        \<and> planLimitsState (snd (initializePermissions env s k u dr (Response status statusText body)))
            = \<lparr>loaded = True, limits = None, plan = Basic, statics = [], apiRateLimit = None,
               fetched_at = Some (now env)\<rparr>)"
proof -
  have a: "status = 403 \<or> status = 500 \<Longrightarrow>
      fetchPlanLimits env (Response status statusText body) st =
        (\<lparr>fp_success = True, fp_error = None, fp_rawResponse = None,
          fp_parsed = Some \<lparr>pf_limits = None, pf_statics = [], pf_apiRateLimit = None\<rparr>,
          fp_plan = Some Basic\<rparr>,
         \<lparr>loaded = True, limits = None, plan = Basic, statics = [], apiRateLimit = None,
          fetched_at = Some (now env)\<rparr>)"
    by (rule fetchPlanLimits_forbidden)
  have b: "(status = 403 \<or> status = 500) \<and> cacheUnusable env s k u \<and> success (discoveryResult env s dr) \<Longrightarrow>
        fst (initializePermissions env s k u dr (Response status statusText body))
          = Inr \<lparr>ir_success = True, ir_error = None, discovery_error = None, from_cache = False,
                 cache_status = ''none'', ir_summary = None\<rparr>
        \<and> authenticated (permissionState (snd (initializePermissions env s k u dr (Response status statusText body))))
        \<and> ps_plan (permissionState (snd (initializePermissions env s k u dr (Response status statusText body)))) = Basic
        \<and> planLimitsState (snd (initializePermissions env s k u dr (Response status statusText body)))
            = \<lparr>loaded = True, limits = None, plan = Basic, statics = [], apiRateLimit = None,
               fetched_at = Some (now env)\<rparr>"
  proof -
    assume h: "(status = 403 \<or> status = 500) \<and> cacheUnusable env s k u \<and> success (discoveryResult env s dr)"
    then have h1: "status = 403 \<or> status = 500" and h2: "cacheUnusable env s k u"
      and h3: "success (discoveryResult env s dr)" by blast+
    show ?thesis
      unfolding init_miss [OF h2]
      using initFresh_forbidden [OF h1 h3, of k u statusText body]
      by (simp add: noCacheResult_def)
  qed
  show ?thesis using a b by blast
qed

text \<open>
  Claim C5, as the code has it. On a cache miss or invalid cache: when the
  endpoint-catalog fetch fails, initialize returns failure and leaves the session
  state and the cache file as they were (so the session is not authenticated if it
  was not before); when the catalog fetch succeeds and the permission-payload fetch
  fails, initialize still succeeds and marks the session authenticated; and the cache
  file changes only when the permission payload gave a non-null parsed fragment and
  an extractable raw response.
\<close>

theorem initialize_fresh_outcomes:
  "(cacheUnusable env s k u \<and> \<not> success (discoveryResult env s dr) \<longrightarrow>
      fst (initializePermissions env s k u dr pr)
        = Inr \<lparr>ir_success = False, ir_error = fr_error (discoveryResult env s dr),
               discovery_error = None, from_cache = False, cache_status = ''none'',
               ir_summary = None\<rparr>
      \<and> permissionState (snd (initializePermissions env s k u dr pr)) = permissionState s
      \<and> cacheFile (snd (initializePermissions env s k u dr pr)) = cacheFile s)
   \<and> (cacheUnusable env s k u \<and> success (discoveryResult env s dr)
        \<and> \<not> fp_success (planResult env s pr) \<longrightarrow>
      fst (initializePermissions env s k u dr pr)
        = Inr \<lparr>ir_success = True, ir_error = None, discovery_error = None, from_cache = False,
               cache_status = ''none'', ir_summary = None\<rparr>
      \<and> authenticated (permissionState (snd (initializePermissions env s k u dr pr)))
      \<and> cacheFile (snd (initializePermissions env s k u dr pr)) = cacheFile s)
   \<and> (cacheUnusable env s k u
        \<and> cacheFile (snd (initializePermissions env s k u dr pr)) \<noteq> cacheFile s \<longrightarrow>
      (\<exists>raw pf rr. fp_rawResponse (planResult env s pr) = Some raw
          \<and> fp_parsed (planResult env s pr) = Some pf \<and> extractRawResponse raw = Some rr))"
proof -
  have a: "cacheUnusable env s k u \<and> \<not> success (discoveryResult env s dr) \<Longrightarrow>
      fst (initializePermissions env s k u dr pr)
        = Inr \<lparr>ir_success = False, ir_error = fr_error (discoveryResult env s dr),
               discovery_error = None, from_cache = False, cache_status = ''none'',
               ir_summary = None\<rparr>
      \<and> permissionState (snd (initializePermissions env s k u dr pr)) = permissionState s
      \<and> cacheFile (snd (initializePermissions env s k u dr pr)) = cacheFile s"
  proof -
    assume h: "cacheUnusable env s k u \<and> \<not> success (discoveryResult env s dr)"
    then have h1: "cacheUnusable env s k u" and h2: "\<not> success (discoveryResult env s dr)" by blast+
    show ?thesis
      unfolding init_miss [OF h1] using initFresh_discovery_fails [OF h2, of k u pr] by simp
  qed
  have b: "cacheUnusable env s k u \<and> success (discoveryResult env s dr)
        \<and> \<not> fp_success (planResult env s pr) \<Longrightarrow>
      fst (initializePermissions env s k u dr pr)
        = Inr \<lparr>ir_success = True, ir_error = None, discovery_error = None, from_cache = False,
               cache_status = ''none'', ir_summary = None\<rparr>
      \<and> authenticated (permissionState (snd (initializePermissions env s k u dr pr)))
      \<and> cacheFile (snd (initializePermissions env s k u dr pr)) = cacheFile s"
  proof -
    assume h: "cacheUnusable env s k u \<and> success (discoveryResult env s dr)
        \<and> \<not> fp_success (planResult env s pr)"
    then have h1: "cacheUnusable env s k u" and h2: "success (discoveryResult env s dr)"
      and h3: "\<not> fp_success (planResult env s pr)" by blast+
    show ?thesis
      unfolding init_miss [OF h1] using initFresh_plan_fails [OF h2 h3, of k u]
      by (simp add: noCacheResult_def)
  qed
  have c: "cacheUnusable env s k u
        \<and> cacheFile (snd (initializePermissions env s k u dr pr)) \<noteq> cacheFile s \<Longrightarrow>
      (\<exists>raw pf rr. fp_rawResponse (planResult env s pr) = Some raw
          \<and> fp_parsed (planResult env s pr) = Some pf \<and> extractRawResponse raw = Some rr)"
  proof -
    assume h: "cacheUnusable env s k u
        \<and> cacheFile (snd (initializePermissions env s k u dr pr)) \<noteq> cacheFile s"
    then have h1: "cacheUnusable env s k u" by blast
    from h have "cacheFile (snd (initFresh env s k u dr pr)) \<noteq> cacheFile s"
      unfolding init_miss [OF h1] by simp
    then show ?thesis by (rule initFresh_written_only)
  qed
  show ?thesis using a b c by blast
qed

lemma toISOString_isoString: "toISOString (DateOf t) = Inr (isoString t)"
  by (simp add: isoString_def)

text \<open>
  Claim C6. For every cache payload, service URL and API key: \<open>writeCache\<close> followed
  by \<open>readCache\<close> returns a record that \<open>isCacheValid\<close> accepts for that URL and the
  first 8 characters of the key. The record carries the current format version, the
  URL, the key prefix and an expiry 7 days after creation: \<open>expiryOf\<close>, the same local
  time of day seven dates on. It is stated for a write that succeeds, an expiry
  inside the range of dates, a read no later than the expiry (\<open>env'\<close> is the platform
  at read time), and a \<^verbatim>\<open>Date.parse\<close> that reads the expiry string back.
\<close>

theorem writeCache_then_read_valid:
  "fsWritable env \<and> \<bar>expiryOf env\<bar> \<le> 8640000000000000
     \<and> dateParse env' (isoString (expiryOf env)) = Some (expiryOf env)
     \<and> now env' \<le> expiryOf env \<longrightarrow>
   (\<exists>c md. writeCache env u k raw pf summ p = Inr (Content c)
        \<and> readCache (Content c) = Some c
        \<and> metadata c = Some md
        \<and> version c = Some CACHE_VERSION
        \<and> api_url md = u \<and> api_key_prefix md = take 8 k \<and> md_plan md = p
        \<and> cached_at md = isoString (now env)
        \<and> expires_at md = isoString (expiryOf env)
        \<and> newDate env' (expires_at md) = DateOf (expiryOf env)
        \<and> raw_response c = Some raw \<and> parsed c = Some pf \<and> summary c = Some summ
        \<and> isCacheValid env' c u (take 8 k) = Inr True)"
proof
  assume h: "fsWritable env \<and> \<bar>expiryOf env\<bar> \<le> 8640000000000000
     \<and> dateParse env' (isoString (expiryOf env)) = Some (expiryOf env)
     \<and> now env' \<le> expiryOf env"
  let ?e = "expiryOf env"
  let ?md = "\<lparr>api_url = u, api_key_prefix = take 8 k, cached_at = isoString (now env),
              expires_at = isoString ?e, md_plan = p\<rparr>"
  let ?c = "\<lparr>version = Some CACHE_VERSION, metadata = Some ?md, raw_response = Some raw,
             parsed = Some pf, summary = Some summ\<rparr>"
  have ex: "setDate env (now env) (getDate env (now env) + CACHE_TTL_DAYS) = DateOf ?e"
    using h by (simp add: setDate_shift CACHE_TTL_DAYS_def TimeClip_def expiryOf_def)
  have w: "writeCache env u k raw pf summ p = Inr (Content ?c)"
    using h by (simp add: writeCache_def Let_def ex isoString_def)
  have r: "readCache (Content ?c) = Some ?c"
    by (simp add: readCache_def CACHE_VERSION_def)
  have n: "newDate env' (isoString ?e) = DateOf ?e"
    using h by (simp add: newDate_def TimeClip_def)
  have v: "isCacheValid env' ?c u (take 8 k) = Inr True"
    using h by (simp add: isCacheValid_def n Let_def)
  show "\<exists>c md. writeCache env u k raw pf summ p = Inr (Content c)
        \<and> readCache (Content c) = Some c
        \<and> metadata c = Some md
        \<and> version c = Some CACHE_VERSION
        \<and> api_url md = u \<and> api_key_prefix md = take 8 k \<and> md_plan md = p
        \<and> cached_at md = isoString (now env)
        \<and> expires_at md = isoString (expiryOf env)
        \<and> newDate env' (expires_at md) = DateOf (expiryOf env)
        \<and> raw_response c = Some raw \<and> parsed c = Some pf \<and> summary c = Some summ
        \<and> isCacheValid env' c u (take 8 k) = Inr True"
    apply (rule exI [of _ ?c])
    apply (rule exI [of _ ?md])
    using w r n v by simp
qed

text \<open>
  In a zone with a constant offset the expiry is exactly seven times 24 hours after
  the write. With offsets of at most a day either way it is at least five days
  after the write, so a read that follows the write within five days is no later than
  the expiry.
\<close>

lemma expiryOf_constant:
  "\<forall>t u. localTZA env t u = z \<Longrightarrow> expiryOf env = now env + 7 * msPerDay"
  by (simp add: expiryOf_def localDayShift_constant)

lemma expiryOf_after_write:
  assumes "\<forall>t u. \<bar>localTZA env t u\<bar> \<le> msPerDay"
  shows "now env + 5 * msPerDay \<le> expiryOf env"
  using localDayShift_near [OF assms, of "now env" 7] by (simp add: expiryOf_def)

text \<open>
  Claim C10. The structure check of \<open>readCache\<close> tests only that \<open>version\<close>,
  \<open>metadata\<close>, \<open>raw_response\<close> and \<open>summary\<close> are present and truthy. A document with
  those four fields and no \<open>parsed\<close> field is returned, not null; when it is also
  valid for the URL, the key and the time, the cached branch of initialize reads
  \<^verbatim>\<open>cache.parsed.limits\<close> outside any \<^verbatim>\<open>try\<close> and the call throws a
  \<^verbatim>\<open>TypeError\<close>.
\<close>

theorem readCache_ignores_parsed:
  "readCache (Content d)
     = (if version d \<noteq> None \<and> version d \<noteq> Some 0 \<and> metadata d \<noteq> None
           \<and> raw_response d \<noteq> None \<and> summary d \<noteq> None
        then Some d else None)
   \<and> (version d = Some CACHE_VERSION \<and> metadata d = Some md \<and> raw_response d \<noteq> None
        \<and> summary d \<noteq> None \<and> parsed d = None \<and> api_url md = u \<and> api_key_prefix md = take 8 k
        \<and> newDate env (expires_at md) = DateOf e \<and> now env \<le> e \<and> cacheFile s = Content d \<longrightarrow>
      readCache (cacheFile s) = Some d
      \<and> isCacheValid env d u (take 8 k) = Inr True
      \<and> initializePermissions env s k u dr pr = (Inl TypeError, s))"
proof -
  have a: "readCache (Content d)
     = (if version d \<noteq> None \<and> version d \<noteq> Some 0 \<and> metadata d \<noteq> None
           \<and> raw_response d \<noteq> None \<and> summary d \<noteq> None
        then Some d else None)"
    by (simp add: readCache_def)
  have b: "version d = Some CACHE_VERSION \<and> metadata d = Some md \<and> raw_response d \<noteq> None
        \<and> summary d \<noteq> None \<and> parsed d = None \<and> api_url md = u \<and> api_key_prefix md = take 8 k
        \<and> newDate env (expires_at md) = DateOf e \<and> now env \<le> e \<and> cacheFile s = Content d \<Longrightarrow>
      readCache (cacheFile s) = Some d
      \<and> isCacheValid env d u (take 8 k) = Inr True
      \<and> initializePermissions env s k u dr pr = (Inl TypeError, s)"
  proof -
    assume h: "version d = Some CACHE_VERSION \<and> metadata d = Some md \<and> raw_response d \<noteq> None
        \<and> summary d \<noteq> None \<and> parsed d = None \<and> api_url md = u \<and> api_key_prefix md = take 8 k
        \<and> newDate env (expires_at md) = DateOf e \<and> now env \<le> e \<and> cacheFile s = Content d"
    have r: "readCache (cacheFile s) = Some d"
      using h by (simp add: readCache_def CACHE_VERSION_def)
    have v: "isCacheValid env d u (take 8 k) = Inr True"
      using h by (simp add: isCacheValid_def Let_def)
    have i: "initFromCache env s k d dr = (Inl TypeError, s)"
      using h by (simp add: initFromCache_def)
    show ?thesis
      using r v i by (simp add: initializePermissions_def Let_def)
  qed
  show ?thesis using a b by blast
qed

lemma exSession_miss: "cacheUnusable env exSession k u" "cacheUnusable env exAuthedSession k u"
  by (simp_all add: cacheUnusable_def exSession_def exAuthedSession_def readCache_def)

lemma exDiscoveryOk_success: "success (discoveryResult env exSession exDiscoveryOk)"
  by (simp add: discoveryResult_def fetchDiscoveryEndpoints_def exDiscoveryOk_def response_ok_def)

lemma exDiscovery_fails:
  "\<not> success (discoveryResult env s (FetchThrows ''ECONNREFUSED''))"
  "fr_error (discoveryResult env s (FetchThrows ''ECONNREFUSED''))
     = Some ''Discovery fetch error: ECONNREFUSED''"
  by (simp_all add: discoveryResult_def fetchDiscoveryEndpoints_def)

lemma exPlan_fails: "\<not> fp_success (planResult env s (Response 401 ''Unauthorized'' None))"
  by (simp add: planResult_def fetchPlanLimits_def response_ok_def planFailure_def)

theorem fetchPlanLimits_forbidden_basic_witness:
  "fst (initializePermissions exEnv exSession exKey exUrl exDiscoveryOk (Response 403 ''Forbidden'' None))
     = Inr \<lparr>ir_success = True, ir_error = None, discovery_error = None, from_cache = False,
            cache_status = ''none'', ir_summary = None\<rparr>
   \<and> authenticated (permissionState
        (snd (initializePermissions exEnv exSession exKey exUrl exDiscoveryOk (Response 403 ''Forbidden'' None))))
   \<and> plan (planLimitsState
        (snd (initializePermissions exEnv exSession exKey exUrl exDiscoveryOk (Response 403 ''Forbidden'' None))))
       = Basic"
  using fetchPlanLimits_forbidden_basic [of 403 exEnv "''Forbidden''" None DEFAULT_STATE exSession exKey exUrl exDiscoveryOk]
    exSession_miss(1) [of exEnv exKey exUrl] exDiscoveryOk_success [of exEnv]
  by simp

theorem initialize_fresh_outcomes_witness:
  "fst (initializePermissions exEnv exSession exKey exUrl (FetchThrows ''ECONNREFUSED'') (Response 403 ''Forbidden'' None))
     = Inr \<lparr>ir_success = False, ir_error = Some ''Discovery fetch error: ECONNREFUSED'',
            discovery_error = None, from_cache = False, cache_status = ''none'', ir_summary = None\<rparr>
   \<and> \<not> authenticated (permissionState
        (snd (initializePermissions exEnv exSession exKey exUrl (FetchThrows ''ECONNREFUSED'') (Response 403 ''Forbidden'' None))))
   \<and> fst (initializePermissions exEnv exSession exKey exUrl exDiscoveryOk (Response 401 ''Unauthorized'' None))
     = Inr \<lparr>ir_success = True, ir_error = None, discovery_error = None, from_cache = False,
            cache_status = ''none'', ir_summary = None\<rparr>
   \<and> authenticated (permissionState
        (snd (initializePermissions exEnv exSession exKey exUrl exDiscoveryOk (Response 401 ''Unauthorized'' None))))"
proof -
  have a: "permissionState exSession = \<lparr>authenticated = False, api_key = None, ps_cached_at = None, ps_plan = Unknown,
         plan_limits_loaded = False, ps_from_cache = False\<rparr>"
    by (simp add: exSession_def)
  show ?thesis
    using initialize_fresh_outcomes [of exEnv exSession exKey exUrl "FetchThrows ''ECONNREFUSED''" "Response 403 ''Forbidden'' None"]
      initialize_fresh_outcomes [of exEnv exSession exKey exUrl exDiscoveryOk "Response 401 ''Unauthorized'' None"]
      exSession_miss(1) [of exEnv exKey exUrl] exDiscoveryOk_success [of exEnv]
      exDiscovery_fails [of exEnv exSession] exPlan_fails [of exEnv exSession]
    by (simp add: a)
qed

text \<open>
  The claim as first stated has the session not authenticated after a failed catalog
  fetch. The failing branch returns without touching the session: a session
  authenticated by an earlier call stays authenticated.
\<close>

theorem initialize_keeps_authenticated_counterexample:
  "cacheUnusable exEnv exAuthedSession exKey exUrl
   \<and> \<not> success (discoveryResult exEnv exAuthedSession (FetchThrows ''ECONNREFUSED''))
   \<and> fst (initializePermissions exEnv exAuthedSession exKey exUrl (FetchThrows ''ECONNREFUSED'') (Response 403 ''Forbidden'' None))
       = Inr \<lparr>ir_success = False, ir_error = Some ''Discovery fetch error: ECONNREFUSED'',
              discovery_error = None, from_cache = False, cache_status = ''none'', ir_summary = None\<rparr>
   \<and> authenticated (permissionState
        (snd (initializePermissions exEnv exAuthedSession exKey exUrl (FetchThrows ''ECONNREFUSED'') (Response 403 ''Forbidden'' None))))"
proof -
  have a: "authenticated (permissionState exAuthedSession)"
    by (simp add: exAuthedSession_def)
  show ?thesis
    unfolding init_miss [OF exSession_miss(2)]
    using initFresh_discovery_fails [OF exDiscovery_fails(1), of exEnv exAuthedSession exKey exUrl "Response 403 ''Forbidden'' None"]
      exSession_miss(2) [of exEnv exKey exUrl] exDiscovery_fails [of exEnv exAuthedSession] a
    by simp
qed

lemma exExpiryValue: "expiryOf exEnv = 1794220200123"
  by (simp add: expiryOf_def localDayShift_def UTC_def LocalTime_def exEnv_def msPerDay_def)

text \<open>A write in New York on 28 October 2026, 06:30 local time, four days before the
  clocks go back: the expiry is 4 November, 06:30 local time, seven days and one hour
  later.\<close>

lemma exExpiryNewYork:
  "expiryOf (exNewYork\<lparr>now := 1793183400123\<rparr>) = 1793183400123 + 7 * msPerDay + 3600000"
  by (simp add: expiryOf_def localDayShift_def UTC_def LocalTime_def exNewYork_def exEnv_def
        msPerDay_def)

lemma exExpiry: "isoString 1794220200123 = ''2026-11-09T10:30:00.123Z''"
  by code_simp

lemma exExpiryParse: "isoParse ''2026-11-09T10:30:00.123Z'' = Some 1794220200123"
  by code_simp

theorem writeCache_then_read_valid_witness:
  "\<exists>c md. writeCache exEnv exUrl exKey exRawResponse exFragment exSummary Professional = Inr (Content c)
      \<and> readCache (Content c) = Some c
      \<and> metadata c = Some md
      \<and> expires_at md = ''2026-11-09T10:30:00.123Z''
      \<and> api_key_prefix md = ''key-1234''
      \<and> isCacheValid (exEnv\<lparr>now := now exEnv + 1000\<rparr>) c exUrl ''key-1234'' = Inr True"
proof -
  have h: "fsWritable exEnv \<and> \<bar>expiryOf exEnv\<bar> \<le> 8640000000000000
     \<and> dateParse (exEnv\<lparr>now := now exEnv + 1000\<rparr>) (isoString (expiryOf exEnv))
          = Some (expiryOf exEnv)
     \<and> now (exEnv\<lparr>now := now exEnv + 1000\<rparr>) \<le> expiryOf exEnv"
    unfolding exExpiryValue exExpiry
    by (simp add: exEnv_def exExpiryParse)
  have k: "take 8 exKey = ''key-1234''" by (simp add: exKey_def)
  show ?thesis
    using writeCache_then_read_valid [of exEnv "exEnv\<lparr>now := now exEnv + 1000\<rparr>" exUrl exKey exRawResponse
        exFragment exSummary Professional] h
    unfolding exExpiryValue exExpiry k by blast
qed

lemma exStaleExpiry: "newDate exEnv ''2026-11-08T00:00:00.000Z'' = DateOf 1794096000000"
  by code_simp

theorem readCache_ignores_parsed_witness:
  "parsed exStaleDoc = None
   \<and> readCache (Content exStaleDoc) = Some exStaleDoc
   \<and> isCacheValid exEnv exStaleDoc exUrl (take 8 exKey) = Inr True
   \<and> initializePermissions exEnv (exSession\<lparr>cacheFile := Content exStaleDoc\<rparr>) exKey exUrl exDiscoveryOk
        (Response 403 ''Forbidden'' None)
       = (Inl TypeError, exSession\<lparr>cacheFile := Content exStaleDoc\<rparr>)"
proof -
  let ?md = "\<lparr>api_url = ''https://api.cryptoquant.com/v1'', api_key_prefix = ''key-1234'',
                        cached_at = ''2026-11-01T00:00:00.000Z'',
                        expires_at = ''2026-11-08T00:00:00.000Z'', md_plan = Professional\<rparr>"
  have h: "version exStaleDoc = Some CACHE_VERSION \<and> metadata exStaleDoc = Some ?md
        \<and> raw_response exStaleDoc \<noteq> None
        \<and> summary exStaleDoc \<noteq> None \<and> parsed exStaleDoc = None \<and> api_url ?md = exUrl
        \<and> api_key_prefix ?md = take 8 exKey
        \<and> newDate exEnv (expires_at ?md) = DateOf 1794096000000 \<and> now exEnv \<le> 1794096000000
        \<and> cacheFile (exSession\<lparr>cacheFile := Content exStaleDoc\<rparr>) = Content exStaleDoc"
    by (simp add: exStaleDoc_def CACHE_VERSION_def exUrl_def exKey_def exStaleExpiry) (simp add: exEnv_def)
  show ?thesis
    using readCache_ignores_parsed [of exStaleDoc ?md exUrl exKey exEnv 1794096000000
        "exSession\<lparr>cacheFile := Content exStaleDoc\<rparr>" exDiscoveryOk "Response 403 ''Forbidden'' None"] h
    by (simp add: CACHE_VERSION_def)
qed

subsection \<open>The calendar and the ISO date format\<close>

text \<open>
  The date algorithms above are the ones of the language standard. The lemmas of this
  part check the embedding against the standard's own characterisation:
  \<open>YearFromDay\<close> is the largest year that starts on or before the day, the month and
  the day of the month stay in their ranges, and the ISO parser of the concrete runs
  reads back every string that \<open>toISOString\<close> prints for a year from 0 to 9999.
\<close>

lemma div_step:
  fixes x c :: int
  assumes "0 < c"
  shows "(x + 1) div c = x div c + (if (x + 1) mod c = 0 then 1 else 0)"
proof -
  define q where "q = x div c"
  define r where "r = x mod c"
  have x: "x = c * q + r" and r: "0 \<le> r" "r < c"
    using assms by (simp_all add: q_def r_def)
  show ?thesis
  proof (cases "r + 1 < c")
    case True
    have d: "(x + 1) div c = q"
      by (rule int_div_pos_eq [of _ _ _ "r + 1"]) (use x r True in auto)
    have m: "(x + 1) mod c = r + 1"
      by (rule int_mod_pos_eq [of _ _ q]) (use x r True in auto)
    show ?thesis using d m r by (simp add: q_def)
  next
    case False
    then have e: "r + 1 = c" using r by simp
    have d: "(x + 1) div c = q + 1"
      by (rule int_div_pos_eq [of _ _ _ 0]) (use x e assms in \<open>auto simp: algebra_simps\<close>)
    have m: "(x + 1) mod c = 0"
      by (rule int_mod_pos_eq [of _ _ "q + 1"]) (use x e assms in \<open>auto simp: algebra_simps\<close>)
    show ?thesis using d m by (simp add: q_def)
  qed
qed

lemma mod_shift: "(y - c * k) mod c = y mod c" for y c k :: int
proof -
  have "(y - c * k) mod c = (y + c * (- k)) mod c" by simp
  also have "\<dots> = y mod c" by (rule mod_mult_self2)
  finally show ?thesis .
qed

lemma leap_mods:
  fixes y :: int
  shows "y mod 400 = 0 \<Longrightarrow> y mod 100 = 0" and "y mod 100 = 0 \<Longrightarrow> y mod 4 = 0"
proof -
  assume "y mod 400 = 0"
  then have "y mod 400 mod 100 = 0" by simp
  then show "y mod 100 = 0" by (simp add: mod_mod_cancel)
next
  assume "y mod 100 = 0"
  then have "y mod 100 mod 4 = 0" by simp
  then show "y mod 4 = 0" by (simp add: mod_mod_cancel)
qed

lemma step4: "(y - 1968) div 4 = (y - 1969) div 4 + (if y mod 4 = 0 then 1 else 0)" for y :: int
  using div_step [of 4 "y - 1969"] mod_shift [of y 4 492] by simp

lemma step100: "(y - 1900) div 100 = (y - 1901) div 100 + (if y mod 100 = 0 then 1 else 0)" for y :: int
  using div_step [of 100 "y - 1901"] mod_shift [of y 100 19] by simp

lemma step400: "(y - 1600) div 400 = (y - 1601) div 400 + (if y mod 400 = 0 then 1 else 0)" for y :: int
  using div_step [of 400 "y - 1601"] mod_shift [of y 400 4] by simp

lemma DayFromYear_Suc: "DayFromYear (y + 1) = DayFromYear y + 365 + InLeapYear y"
proof -
  have "DayFromYear (y + 1)
          = 365 * (y - 1969) + (y - 1968) div 4 - (y - 1900) div 100 + (y - 1600) div 400"
    by (simp add: DayFromYear_def)
  also have "\<dots> = DayFromYear y + 365 + InLeapYear y"
    unfolding step4 step100 step400 DayFromYear_def InLeapYear_def
    using leap_mods [of y] by auto
  finally show ?thesis .
qed

lemma InLeapYear_range: "0 \<le> InLeapYear y \<and> InLeapYear y \<le> 1"
  by (simp add: InLeapYear_def)

text \<open>The estimate of the year is off by at most one.\<close>

lemma year_estimate:
  fixes d :: int
  shows "DayFromYear (1970 + (400 * d) div 146097) \<le> d + 1
       \<and> d \<le> DayFromYear (1970 + (400 * d) div 146097) + 366"
proof -
  define y where "y = 1970 + (400 * d) div 146097"
  define q where "q = (400 * d) div 146097"
  define r where "r = (400 * d) mod 146097"
  define a where "a = (q + 1) div 4"
  define ra where "ra = (q + 1) mod 4"
  define b where "b = (q + 69) div 100"
  define rb where "rb = (q + 69) mod 100"
  define c where "c = (q + 369) div 400"
  define rc where "rc = (q + 369) mod 400"
  have e: "400 * d = 146097 * q + r" "q + 1 = 4 * a + ra" "q + 69 = 100 * b + rb"
    "q + 369 = 400 * c + rc"
    by (simp_all add: q_def r_def a_def ra_def b_def rb_def c_def rc_def)
  have bnd: "0 \<le> r" "r < 146097" "0 \<le> ra" "ra < 4" "0 \<le> rb" "rb < 100" "0 \<le> rc" "rc < 400"
    by (simp_all add: r_def ra_def rb_def rc_def)
  have D: "DayFromYear y = 365 * q + a - b + c"
    by (simp add: DayFromYear_def y_def q_def a_def b_def c_def add.commute)
  have s: "400 * a = 100 * q + 100 - 100 * ra" "400 * b = 4 * q + 276 - 4 * rb"
    "400 * c = q + 369 - rc"
    using e by simp_all
  have "400 * (DayFromYear y - d) = 146000 * q + 400 * a - 400 * b + 400 * c - 400 * d"
    unfolding D by (simp add: algebra_simps)
  also have "\<dots> = 193 - 100 * ra + 4 * rb - rc - r"
    unfolding s e(1) by simp
  finally have f: "400 * (DayFromYear y - d) = 193 - 100 * ra + 4 * rb - rc - r" .
  have "400 * (DayFromYear y - d) \<le> 589" "- 146602 \<le> 400 * (DayFromYear y - d)"
    unfolding f using bnd by linarith+
  moreover have "400 * x \<le> 589 \<Longrightarrow> x \<le> 1" and "- 146602 \<le> 400 * x \<Longrightarrow> - 366 \<le> x" for x :: int
    by arith+
  ultimately have "DayFromYear y - d \<le> 1" "- 366 \<le> DayFromYear y - d"
    by blast+
  then show ?thesis by (simp add: y_def)
qed

lemma YearFromDay_bracket:
  "DayFromYear (YearFromDay d) \<le> d \<and> d < DayFromYear (YearFromDay d + 1)"
proof -
  define y where "y = 1970 + (400 * d) div 146097"
  have est: "DayFromYear y \<le> d + 1" "d \<le> DayFromYear y + 366"
    using year_estimate [of d] by (simp_all add: y_def)
  have s0: "DayFromYear y = DayFromYear (y - 1) + 365 + InLeapYear (y - 1)"
    using DayFromYear_Suc [of "y - 1"] by simp
  have s1: "DayFromYear (y + 1) = DayFromYear y + 365 + InLeapYear y"
    by (rule DayFromYear_Suc)
  have s2: "DayFromYear (y + 2) = DayFromYear (y + 1) + 365 + InLeapYear (y + 1)"
    using DayFromYear_Suc [of "y + 1"] by (simp add: add.assoc)
  note l = InLeapYear_range [of "y - 1"] InLeapYear_range [of y] InLeapYear_range [of "y + 1"]
  show ?thesis
  proof (cases "d < DayFromYear y")
    case True
    then have "YearFromDay d = y - 1" by (simp add: YearFromDay_def y_def Let_def)
    then show ?thesis using True est s0 l by simp
  next
    case False
    show ?thesis
    proof (cases "DayFromYear (y + 1) \<le> d")
      case True
      with False have "YearFromDay d = y + 1" by (simp add: YearFromDay_def y_def Let_def)
      then show ?thesis using True est s1 s2 l by (simp add: add.assoc)
    next
      case b: False
      with False have "YearFromDay d = y" by (simp add: YearFromDay_def y_def Let_def)
      then show ?thesis using False b by simp
    qed
  qed
qed

lemma DayFromYear_mono_nat: "DayFromYear y + 365 * int n \<le> DayFromYear (y + int n)"
proof (induction n)
  case 0
  show ?case by simp
next
  case (Suc n)
  have "DayFromYear (y + int (Suc n)) = DayFromYear (y + int n) + 365 + InLeapYear (y + int n)"
    using DayFromYear_Suc [of "y + int n"] by (simp add: add.commute add.left_commute)
  then show ?case using Suc InLeapYear_range [of "y + int n"] by simp
qed

lemma DayFromYear_mono: "y \<le> y' \<Longrightarrow> DayFromYear y \<le> DayFromYear y'"
proof -
  assume "y \<le> y'"
  then obtain n where "y' = y + int n" by (metis zle_iff_zadd)
  then show ?thesis using DayFromYear_mono_nat [of y n] by simp
qed

lemma YearFromDay_greatest: "DayFromYear y \<le> d \<Longrightarrow> y \<le> YearFromDay d"
proof (rule ccontr)
  assume a: "DayFromYear y \<le> d" and "\<not> y \<le> YearFromDay d"
  then have "YearFromDay d + 1 \<le> y" by simp
  then have "DayFromYear (YearFromDay d + 1) \<le> DayFromYear y" by (rule DayFromYear_mono)
  then show False using a YearFromDay_bracket [of d] by simp
qed

lemma YearFromDay_less: "d < DayFromYear y \<Longrightarrow> YearFromDay d < y"
proof (rule ccontr)
  assume a: "d < DayFromYear y" and "\<not> YearFromDay d < y"
  then have "y \<le> YearFromDay d" by simp
  then have "DayFromYear y \<le> DayFromYear (YearFromDay d)" by (rule DayFromYear_mono)
  then show False using a YearFromDay_bracket [of d] by simp
qed

lemma DayWithinYear_range:
  "0 \<le> DayWithinYear t \<and> DayWithinYear t < 365 + InLeapYear (YearFromTime t)"
  using YearFromDay_bracket [of "Day t"] DayFromYear_Suc [of "YearFromDay (Day t)"]
  by (simp add: DayWithinYear_def YearFromTime_def)

lemma DateFromTime_range: "1 \<le> DateFromTime t \<and> DateFromTime t \<le> 31"
proof -
  define dy where "dy = DayWithinYear t"
  define l where "l = InLeapYear (YearFromTime t)"
  have r: "0 \<le> dy" "dy < 365 + l" "0 \<le> l" "l \<le> 1"
    using DayWithinYear_range [of t] InLeapYear_range [of "YearFromTime t"]
    by (simp_all add: dy_def l_def)
  have "DateFromTime t
          = dy - monthStart (if dy < 31 then 0 else if dy < 59 + l then 1 else if dy < 90 + l then 2
               else if dy < 120 + l then 3 else if dy < 151 + l then 4 else if dy < 181 + l then 5
               else if dy < 212 + l then 6 else if dy < 243 + l then 7 else if dy < 273 + l then 8
               else if dy < 304 + l then 9 else if dy < 334 + l then 10 else 11) l + 1"
    by (simp add: DateFromTime_def MonthFromTime_def dy_def l_def Let_def)
  then show ?thesis
    using r by (simp add: monthStart_def)
qed

lemma TimeWithinDay_range: "0 \<le> TimeWithinDay t \<and> TimeWithinDay t < msPerDay"
  by (simp add: TimeWithinDay_def msPerDay_def)

lemma digitVal_digitChar: "n < 10 \<Longrightarrow> digitVal (digitChar n) = n"
proof -
  have "list_all (\<lambda>k. digitVal (digitChar k) = k) [0..<10]"
    by code_simp
  then show "n < 10 \<Longrightarrow> digitVal (digitChar n) = n"
    by (simp add: list_all_iff)
qed

lemma parseInt_snoc: "parseInt (ds @ [c]) = 10 * parseInt ds + digitVal c"
  by (simp add: parseInt_def)

lemma parseInt_show_nat: "parseInt (show_nat n) = n"
proof (induction n rule: show_nat.induct)
  case (1 n)
  show ?case
  proof (cases "n < 10")
    case True
    then show ?thesis by (simp add: show_nat_small parseInt_def digitVal_digitChar)
  next
    case False
    have "parseInt (show_nat n) = 10 * parseInt (show_nat (n div 10)) + digitVal (digitChar (n mod 10))"
      using False by (simp add: show_nat_step parseInt_snoc)
    also have "\<dots> = 10 * (n div 10) + n mod 10"
      using 1 [OF False] by (simp add: digitVal_digitChar)
    finally show ?thesis by simp
  qed
qed

lemma parseInt_zeros: "parseInt (replicate k CHR ''0'' @ ds) = parseInt ds"
  by (induction k) (simp_all add: parseInt_def digitVal_def)

lemma parseInt_pad: "parseInt (pad w n) = n"
  by (simp add: pad_def parseInt_zeros parseInt_show_nat)

lemma length_show_nat: "n < 10 ^ Suc k \<Longrightarrow> length (show_nat n) \<le> Suc k"
proof (induction k arbitrary: n)
  case 0
  then show ?case by (simp add: show_nat_small)
next
  case (Suc k)
  show ?case
  proof (cases "n < 10")
    case True
    then show ?thesis by (simp add: show_nat_small)
  next
    case False
    have "n div 10 < 10 ^ Suc k" using Suc.prems by simp
    then have "length (show_nat (n div 10)) \<le> Suc k" by (rule Suc.IH)
    then show ?thesis using False by (simp add: show_nat_step)
  qed
qed

lemma length_pad: "0 < w \<Longrightarrow> n < 10 ^ w \<Longrightarrow> length (pad w n) = w"
proof -
  assume "0 < w" and n: "n < 10 ^ w"
  then obtain k where w: "w = Suc k" by (cases w) auto
  have "length (show_nat n) \<le> w" using length_show_nat [of n k] n w by simp
  then show ?thesis by (simp add: pad_def)
qed

lemma digitsAt_pad:
  assumes "length a = i" and "0 < w" and "v < 10 ^ w"
  shows "digitsAt (a @ pad w v @ b) i w = Some v"
proof -
  have l: "length (pad w v) = w" using assms(2,3) by (rule length_pad)
  have "take w (drop i (a @ pad w v @ b)) = pad w v"
    using assms(1) l by simp
  then show ?thesis
    using l by (simp add: digitsAt_def pad_digits parseInt_pad)
qed

lemma isoParseDate_fields:
  assumes "y < 10000" and "1 \<le> m" and "m \<le> 12" and "1 \<le> d" and "d \<le> 31"
  shows "isoParseDate (pad 4 y @ ''-'' @ pad 2 m @ ''-'' @ pad 2 d)
           = Some (MakeDate (MakeDay (int y) (int m - 1) (int d)) 0)"
proof -
  let ?s = "pad 4 y @ ''-'' @ pad 2 m @ ''-'' @ pad 2 d"
  have ly: "length (pad 4 y) = 4" and lm: "length (pad 2 m) = 2" and ld: "length (pad 2 d) = 2"
    using assms by (simp_all add: length_pad)
  have y: "digitsAt ?s 0 4 = Some y"
    using digitsAt_pad [of "[]" 0 4 y "''-'' @ pad 2 m @ ''-'' @ pad 2 d"] assms by simp
  have m: "digitsAt ?s 5 2 = Some m"
    using digitsAt_pad [of "pad 4 y @ ''-''" 5 2 m "''-'' @ pad 2 d"] assms ly by simp
  have d: "digitsAt ?s 8 2 = Some d"
    using digitsAt_pad [of "pad 4 y @ ''-'' @ pad 2 m @ ''-''" 8 2 d "[]"] assms ly lm by simp
  have len: "length ?s = 10" using ly lm ld by simp
  have s4: "?s ! 4 = CHR ''-''" using ly by (simp add: nth_append)
  have s7: "?s ! 7 = CHR ''-''" using ly lm by (simp add: nth_append)
  show ?thesis
    unfolding isoParseDate_def y m d using len s4 s7 assms by simp
qed

lemma isoParseTime_fields:
  assumes "h \<le> 23" and "mi \<le> 59" and "sec \<le> 59" and "ms < 1000"
  shows "isoParseTime (pad 2 h @ '':'' @ pad 2 mi @ '':'' @ pad 2 sec @ ''.'' @ pad 3 ms @ ''Z'')
           = Some (int h * 3600000 + int mi * 60000 + int sec * 1000 + int ms)"
proof -
  let ?s = "pad 2 h @ '':'' @ pad 2 mi @ '':'' @ pad 2 sec @ ''.'' @ pad 3 ms @ ''Z''"
  have lh: "length (pad 2 h) = 2" and lmi: "length (pad 2 mi) = 2"
    and ls: "length (pad 2 sec) = 2" and lms: "length (pad 3 ms) = 3"
    using assms by (simp_all add: length_pad)
  have h: "digitsAt ?s 0 2 = Some h"
    using digitsAt_pad [of "[]" 0 2 h "'':'' @ pad 2 mi @ '':'' @ pad 2 sec @ ''.'' @ pad 3 ms @ ''Z''"]
      assms by simp
  have mi: "digitsAt ?s 3 2 = Some mi"
    using digitsAt_pad [of "pad 2 h @ '':''" 3 2 mi "'':'' @ pad 2 sec @ ''.'' @ pad 3 ms @ ''Z''"]
      assms lh by simp
  have sec: "digitsAt ?s 6 2 = Some sec"
    using digitsAt_pad [of "pad 2 h @ '':'' @ pad 2 mi @ '':''" 6 2 sec "''.'' @ pad 3 ms @ ''Z''"]
      assms lh lmi by simp
  have ms: "digitsAt ?s 9 3 = Some ms"
    using digitsAt_pad [of "pad 2 h @ '':'' @ pad 2 mi @ '':'' @ pad 2 sec @ ''.''" 9 3 ms "''Z''"]
      assms lh lmi ls by simp
  have len: "length ?s = 13" using lh lmi ls lms by simp
  have s2: "?s ! 2 = CHR '':''" using lh by (simp add: nth_append)
  have s5: "?s ! 5 = CHR '':''" using lh lmi by (simp add: nth_append)
  have s8: "?s ! 8 = CHR ''.''" using lh lmi ls by (simp add: nth_append)
  have s12: "?s ! 12 = CHR ''Z''" using lh lmi ls lms by (simp add: nth_append)
  show ?thesis
    unfolding isoParseTime_def h mi sec ms using len s2 s5 s8 s12 assms by simp
qed

lemma time_fields:
  fixes ms :: int
  assumes "0 \<le> ms" and "ms < 86400000"
  shows "0 \<le> ms div 3600000 \<and> ms div 3600000 \<le> 23
       \<and> ms div 3600000 * 3600000 + ms div 60000 mod 60 * 60000 + ms div 1000 mod 60 * 1000
           + ms mod 1000 = ms"
proof -
  define a where "a = ms div 1000"
  define b where "b = a div 60"
  define c where "c = b div 60"
  have b: "ms div 60000 = b"
    using zdiv_zmult2_eq [of 60 ms 1000] by (simp add: a_def b_def)
  have c: "ms div 3600000 = c"
    using zdiv_zmult2_eq [of 60 ms 60000] b by (simp add: c_def)
  have e1: "ms = a * 1000 + ms mod 1000" by (simp add: a_def)
  have e2: "a = b * 60 + a mod 60" by (simp add: b_def)
  have e3: "b = c * 60 + b mod 60" by (simp add: c_def)
  have r: "0 \<le> ms mod 1000" "0 \<le> a mod 60" "0 \<le> b mod 60" "ms mod 1000 < 1000" "a mod 60 < 60" "b mod 60 < 60"
    by simp_all
  have "0 \<le> c" using assms(1) by (simp add: c_def b_def a_def pos_imp_zdiv_nonneg_iff)
  moreover have "c \<le> 23" using assms(2) e1 e2 e3 r by linarith
  moreover have "c * 3600000 + b mod 60 * 60000 + a mod 60 * 1000 + ms mod 1000 = ms"
    using e1 e2 e3 by linarith
  ultimately show ?thesis
    unfolding b c by (simp add: a_def)
qed

lemma YearFromTime_range:
  assumes "0 \<le> t" and "t < 253402300800000"
  shows "1970 \<le> YearFromTime t \<and> YearFromTime t \<le> 9999"
proof -
  have d0: "0 \<le> Day t" using assms(1) by (simp add: Day_def msPerDay_def pos_imp_zdiv_nonneg_iff)
  have "t div 86400000 \<le> 253402300799999 div 86400000"
    using assms(2) by (intro zdiv_mono1) simp_all
  then have d1: "Day t < DayFromYear 10000"
    by (simp add: Day_def msPerDay_def DayFromYear_def)
  have "DayFromYear 1970 \<le> Day t" using d0 by (simp add: DayFromYear_def)
  then have "1970 \<le> YearFromDay (Day t)" by (rule YearFromDay_greatest)
  moreover have "YearFromDay (Day t) < 10000" using d1 by (rule YearFromDay_less)
  ultimately show ?thesis by (simp add: YearFromTime_def)
qed

lemma isoParse_date_part:
  assumes "0 \<le> YearFromTime t" and "YearFromTime t \<le> 9999"
  shows "isoParseDate (isoDatePart t) = Some (Day t * msPerDay)"
proof -
  define y where "y = nat (YearFromTime t)"
  define m where "m = nat (MonthFromTime t + 1)"
  define d where "d = nat (DateFromTime t)"
  have r: "y < 10000" "1 \<le> m" "m \<le> 12" "1 \<le> d" "d \<le> 31"
    using assms MonthFromTime_range [of t] DateFromTime_range [of t]
    by (auto simp: y_def m_def d_def)
  have i: "int y = YearFromTime t" "int m - 1 = MonthFromTime t" "int d = DateFromTime t"
    using assms MonthFromTime_range [of t] DateFromTime_range [of t]
    by (simp_all add: y_def m_def d_def)
  have "isoDatePart t = pad 4 y @ ''-'' @ pad 2 m @ ''-'' @ pad 2 d"
    using assms by (simp add: isoDatePart_def y_def m_def d_def)
  then have "isoParseDate (isoDatePart t)
               = Some (MakeDate (MakeDay (YearFromTime t) (MonthFromTime t) (DateFromTime t)) 0)"
    using isoParseDate_fields [OF r] i by simp
  also have "MakeDay (YearFromTime t) (MonthFromTime t) (DateFromTime t) = Day t"
    using MakeDay_same_month [of t 0] by simp
  finally show ?thesis by (simp add: MakeDate_def)
qed

lemma isoParse_time_part: "isoParseTime (isoTimePart t @ ''Z'') = Some (TimeWithinDay t)"
proof -
  define ms where "ms = TimeWithinDay t"
  define h where "h = nat (ms div 3600000)"
  define mi where "mi = nat (ms div 60000 mod 60)"
  define sec where "sec = nat (ms div 1000 mod 60)"
  define mmm where "mmm = nat (ms mod 1000)"
  have b: "0 \<le> ms" "ms < 86400000"
    using TimeWithinDay_range [of t] by (simp_all add: ms_def msPerDay_def)
  note f = time_fields [OF b]
  have h0: "0 \<le> ms div 3600000" and h1: "ms div 3600000 \<le> 23"
    using f by blast+
  have r: "h \<le> 23" "mi \<le> 59" "sec \<le> 59" "mmm < 1000"
    using h1 by (simp_all add: h_def mi_def sec_def mmm_def)
  have i: "int h = ms div 3600000" "int mi = ms div 60000 mod 60"
    "int sec = ms div 1000 mod 60" "int mmm = ms mod 1000"
    using h0 by (simp_all add: h_def mi_def sec_def mmm_def)
  have "isoTimePart t @ ''Z''
          = pad 2 h @ '':'' @ pad 2 mi @ '':'' @ pad 2 sec @ ''.'' @ pad 3 mmm @ ''Z''"
    by (simp add: isoTimePart_def Let_def ms_def h_def mi_def sec_def mmm_def)
  then have "isoParseTime (isoTimePart t @ ''Z'')
               = Some (int h * 3600000 + int mi * 60000 + int sec * 1000 + int mmm)"
    using isoParseTime_fields [OF r] by simp
  also have "int h * 3600000 + int mi * 60000 + int sec * 1000 + int mmm = ms"
    unfolding i using f by blast
  finally show ?thesis by (simp add: ms_def)
qed

lemma length_isoDatePart:
  assumes "0 \<le> YearFromTime t" and "YearFromTime t \<le> 9999"
  shows "length (isoDatePart t) = 10"
proof -
  have "nat (YearFromTime t) < 10 ^ 4" "nat (MonthFromTime t + 1) < 10 ^ 2"
    "nat (DateFromTime t) < 10 ^ 2"
    using assms MonthFromTime_range [of t] DateFromTime_range [of t] by auto
  then have "length (pad 4 (nat (YearFromTime t))) = 4"
    "length (pad 2 (nat (MonthFromTime t + 1))) = 2" "length (pad 2 (nat (DateFromTime t))) = 2"
    by (simp_all add: length_pad)
  then show ?thesis using assms by (simp add: isoDatePart_def)
qed

lemma length_isoTimePart: "length (isoTimePart t) = 12"
proof -
  define ms where "ms = TimeWithinDay t"
  define h where "h = nat (ms div 3600000)"
  define mi where "mi = nat (ms div 60000 mod 60)"
  define sec where "sec = nat (ms div 1000 mod 60)"
  define mmm where "mmm = nat (ms mod 1000)"
  have b: "0 \<le> ms" "ms < 86400000"
    using TimeWithinDay_range [of t] by (simp_all add: ms_def msPerDay_def)
  have h1: "ms div 3600000 \<le> 23"
    using time_fields [OF b] by blast
  have r: "h \<le> 23" "mi \<le> 59" "sec \<le> 59" "mmm < 1000"
    using h1 by (simp_all add: h_def mi_def sec_def mmm_def)
  have "h < 10 ^ 2" "mi < 10 ^ 2" "sec < 10 ^ 2" "mmm < 10 ^ 3"
    using r by simp_all
  then have "length (pad 2 h) = 2" "length (pad 2 mi) = 2" "length (pad 2 sec) = 2"
    "length (pad 3 mmm) = 3"
    by (simp_all add: length_pad)
  moreover have "isoTimePart t
          = pad 2 h @ '':'' @ pad 2 mi @ '':'' @ pad 2 sec @ ''.'' @ pad 3 mmm"
    by (simp add: isoTimePart_def Let_def ms_def h_def mi_def sec_def mmm_def)
  ultimately show ?thesis by simp
qed

lemma isoParse_toISOString:
  assumes "0 \<le> YearFromTime t" and "YearFromTime t \<le> 9999"
  shows "isoParse (isoDatePart t @ ''T'' @ isoTimePart t @ ''Z'') = Some t"
proof -
  let ?s = "isoDatePart t @ ''T'' @ isoTimePart t @ ''Z''"
  have ld: "length (isoDatePart t) = 10" using assms by (rule length_isoDatePart)
  have len: "length ?s = 24" using ld length_isoTimePart [of t] by simp
  have s10: "?s ! 10 = CHR ''T''" using ld by (simp add: nth_append)
  have tk: "take 10 ?s = isoDatePart t" using ld by simp
  have dr: "drop 11 ?s = isoTimePart t @ ''Z''" using ld by simp
  have "isoParse ?s = Some (Day t * msPerDay + TimeWithinDay t)"
    unfolding isoParse_def tk dr using len s10
    by (simp add: isoParse_date_part [OF assms] isoParse_time_part)
  also have "Day t * msPerDay + TimeWithinDay t = t"
    by (simp add: Day_def TimeWithinDay_def)
  finally show ?thesis .
qed

text \<open>
  With a \<^verbatim>\<open>Date.parse\<close> that is the ISO parser, \<^verbatim>\<open>new Date\<close> recovers the time
  value of every date between 1970 and the end of the year 9999 from its ISO string.
\<close>

lemma newDate_isoString:
  assumes "dateParse env = isoParse" and "0 \<le> t" and "t < 253402300800000"
  shows "newDate env (isoString t) = DateOf t"
proof -
  have "0 \<le> YearFromTime t" "YearFromTime t \<le> 9999"
    using YearFromTime_range [OF assms(2,3)] by simp_all
  then have "isoParse (isoString t) = Some t"
    unfolding isoString_def by (rule isoParse_toISOString)
  then show ?thesis
    using assms by (simp add: newDate_def TimeClip_def)
qed

end
